(* ===== verification/Prelude.thy ===== *)
theory Prelude
  imports Main "HOL-Library.Word"
begin

text \<open>
  The prelude of the development: the type of failures, the sequencing of computations
  that may fail, and the vocabulary of bytes and bitmaps that the kernel, the executor and the
  materialisation share, with the lemmas the component theories rest on.
\<close>

unbundle bit_operations_syntax

named_theorems bitmap_simps \<open>reading single bits of bitmaps after an update\<close>

section \<open>Exceptions and failures\<close>

text \<open>
  The exception classes of \<^verbatim>\<open>pefa/utils/exceptions.h\<close>. All of them derive from
  \<^verbatim>\<open>BaseException\<close>, which stores one message.
\<close>

datatype pefa_exception =
    NotImplementedException string
  | KernelNotCompiledException
  | UnreachableException

text \<open>\<^verbatim>\<open>BaseException::what\<close>: the message each constructor hands to the base class.\<close>

fun what :: "pefa_exception \<Rightarrow> string" where
  "what (NotImplementedException msg) = msg"
| "what KernelNotCompiledException = ''Kernel must be compiled before query_compiler''"
| "what UnreachableException = ''Unreachable branch invoked''"

text \<open>
  Everything that stops a computation: a pefa exception, the standard library's
  \<open>std::bad_variant_access\<close>, a failed \<open>assert\<close>, and the undefined behaviours the code can
  run into (a null pointer used, an access outside a buffer, an \<open>int\<close> that overflows, an IR
  operation without a defined value, ill-typed IR). \<open>FatalError\<close> is LLVM aborting the process.
  The last one is the model's own: a loop ran out of fuel.
\<close>

datatype failure =
    Thrown pefa_exception
  | BadVariantAccess
  | AssertionFailure
  | NullPointer
  | OutOfBounds
  | SignedOverflow
  | UndefinedValue
  | IllFormed
  | FatalError
  | OutOfFuel

abbreviation throw_not_implemented :: "string \<Rightarrow> failure + 'a" where
  "throw_not_implemented msg \<equiv> Inl (Thrown (NotImplementedException msg))"

section \<open>Sequencing computations that may fail\<close>

type_synonym 'a result = "failure + 'a"

fun bindE :: "'e + 'a \<Rightarrow> ('a \<Rightarrow> 'e + 'b) \<Rightarrow> 'e + 'b" where
  "bindE (Inl e) f = Inl e"
| "bindE (Inr x) f = f x"

lemma bindE_eq_Inr: "bindE m f = Inr y \<longleftrightarrow> (\<exists>x. m = Inr x \<and> f x = Inr y)"
  by (cases m) auto

lemma bindE_eq_Inl: "bindE m f = Inl e \<longleftrightarrow> m = Inl e \<or> (\<exists>x. m = Inr x \<and> f x = Inl e)"
  by (cases m) auto

lemma bindE_assoc: "bindE (bindE m f) g = bindE m (\<lambda>x. bindE (f x) g)"
  by (cases m) auto

lemma bindE_cong [fundef_cong]:
  "m = m' \<Longrightarrow> (\<And>x. m' = Inr x \<Longrightarrow> f x = f' x) \<Longrightarrow> bindE m f = bindE m' f'"
  by (cases m') auto

text \<open>A dereference: the null pointer is \<open>None\<close>.\<close>

fun deref :: "'a option \<Rightarrow> 'a result" where
  "deref None = Inl NullPointer"
| "deref (Some x) = Inr x"

lemma deref_eq_Inr: "deref m = Inr x \<longleftrightarrow> m = Some x"
  by (cases m) auto

text \<open>The increment of a non-negative \<open>int\<close>.\<close>

definition int_succ :: "nat \<Rightarrow> nat result" where
  "int_succ n = (if n + 1 < 2 ^ 31 then Inr (n + 1) else Inl SignedOverflow)"

lemma int_succ_ok: "n + 1 < 2 ^ 31 \<Longrightarrow> int_succ n = Inr (Suc n)"
  by (simp add: int_succ_def)

lemma int_succ_Inr: "int_succ n = Inr m \<Longrightarrow> m = Suc n"
  by (simp add: int_succ_def split: if_splits)

text \<open>A loop over a list whose body may fail.\<close>

fun foldE :: "('x \<Rightarrow> 's \<Rightarrow> 'e + 's) \<Rightarrow> 'x list \<Rightarrow> 's \<Rightarrow> 'e + 's" where
  "foldE f [] s = Inr s"
| "foldE f (x # xs) s = bindE (f x s) (foldE f xs)"

lemma bindE_Inr [simp]: "bindE m Inr = m"
  by (cases m) auto

lemma foldE_Nil [simp]: "foldE f [] = Inr"
  by (rule ext) simp

lemma foldE_single [simp]: "foldE f [x] = f x"
  by (rule ext) simp

lemma foldE_append: "foldE f (xs @ ys) s = bindE (foldE f xs s) (foldE f ys)"
proof (induction xs arbitrary: s)
  case (Cons x xs)
  then show ?case by (cases "f x s") auto
qed simp

lemma foldE_inv:
  assumes "foldE f xs s = Inr s'" and "I s"
    and "\<And>x s s'. x \<in> set xs \<Longrightarrow> I s \<Longrightarrow> f x s = Inr s' \<Longrightarrow> I s'"
  shows "I s'"
  using assms by (induction xs arbitrary: s) (auto simp: bindE_eq_Inr)

fun mapE :: "('x \<Rightarrow> 'e + 'y) \<Rightarrow> 'x list \<Rightarrow> 'e + 'y list" where
  "mapE f [] = Inr []"
| "mapE f (x # xs) = bindE (f x) (\<lambda>y. bindE (mapE f xs) (\<lambda>ys. Inr (y # ys)))"

lemma mapE_all_Inr:
  "(\<And>x. x \<in> set xs \<Longrightarrow> f x = Inr (g x)) \<Longrightarrow> mapE f xs = Inr (map g xs)"
  by (induction xs) auto

lemma mapE_eq_Inr: "mapE f xs = Inr ys \<longleftrightarrow> list_all2 (\<lambda>x y. f x = Inr y) xs ys"
  by (induction xs arbitrary: ys) (auto simp: bindE_eq_Inr list_all2_Cons1)

text \<open>Where a property of numbers is first lost.\<close>

lemma first_failure: "\<not> P n \<Longrightarrow> 0 < n \<Longrightarrow> \<exists>k < n. \<not> P (Suc k) \<and> (k = 0 \<or> P k)"
proof (induction n)
  case (Suc n)
  then show ?case by (cases "P n \<or> n = 0") (auto intro: less_SucI)
qed simp

section \<open>Fixed-width elements in a byte buffer\<close>

type_synonym byte = "8 word"

text \<open>
  Element \<open>k\<close> of a buffer that is read as an array of elements of \<open>w\<close> bytes, and the
  buffer after element \<open>k\<close> has been overwritten.
\<close>

definition elem :: "nat \<Rightarrow> byte list \<Rightarrow> nat \<Rightarrow> byte list" where
  "elem w buf k = take w (drop (k * w) buf)"

definition put_elem :: "nat \<Rightarrow> byte list \<Rightarrow> nat \<Rightarrow> byte list \<Rightarrow> byte list" where
  "put_elem w buf k v = take (k * w) buf @ v @ drop (k * w + w) buf"

lemma elem_end_le: "k < n \<Longrightarrow> k * w + w \<le> n * (w::nat)"
  by (metis Suc_leI add.commute mult_Suc mult_le_mono1)

lemma length_elem: "k * w + w \<le> length buf \<Longrightarrow> length (elem w buf k) = w"
  by (simp add: elem_def)

lemma length_put_elem:
  "k * w + w \<le> length buf \<Longrightarrow> length v = w \<Longrightarrow> length (put_elem w buf k v) = length buf"
  by (simp add: put_elem_def)

lemma elem_put_same:
  "k * w + w \<le> length buf \<Longrightarrow> length v = w \<Longrightarrow> elem w (put_elem w buf k v) k = v"
  by (simp add: elem_def put_elem_def)

lemma elem_put_less:
  assumes "j < k" and "k * w + w \<le> length buf"
  shows "elem w (put_elem w buf k v) j = elem w buf j"
proof -
  from assms(1) have "j * w + w \<le> k * w" by (rule elem_end_le)
  moreover from assms(1) have "j * w - k * w = 0" by simp
  ultimately have "drop (j * w) (put_elem w buf k v)
      = take (k * w - j * w) (drop (j * w) buf) @ v @ drop (k * w + w) buf"
    using assms(2) by (simp add: put_elem_def drop_take)
  moreover have "w \<le> k * w - j * w" and "k * w - j * w \<le> length (drop (j * w) buf)"
    using \<open>j * w + w \<le> k * w\<close> assms(2) by (simp_all add: diff_le_mono)
  ultimately show ?thesis by (simp add: elem_def min.absorb1 min.absorb2)
qed

end
