(* ===== verification/Expressions.thy ===== *)
theory Expressions
  imports Prelude
begin

text \<open>
  The expression tree of a query (\<^verbatim>\<open>pefa/query_compiler/expressions.h\<close> and
  \<^verbatim>\<open>expressions.cpp\<close>): the classes as datatypes, the factory and combinator methods, and
  the visitor with its inherited default methods.
\<close>

section \<open>The classes\<close>

text \<open>
  \<^verbatim>\<open>std::variant<int, double, std::string, bool>\<close>: an \<open>int\<close> is a 32-bit word read as signed,
  a \<open>double\<close> is its IEEE binary64 bit pattern.
\<close>

datatype literal =
    LInt "32 word"
  | LDouble "64 word"
  | LString string
  | LBool bool

fun variant_index :: "literal \<Rightarrow> nat" where
  "variant_index (LInt _) = 0"
| "variant_index (LDouble _) = 1"
| "variant_index (LString _) = 2"
| "variant_index (LBool _) = 3"

text \<open>\<^verbatim>\<open>std::get<int>\<close> and \<^verbatim>\<open>std::get<double>\<close> throw when another alternative is stored.\<close>

fun get_int :: "literal \<Rightarrow> 32 word result" where
  "get_int (LInt v) = Inr v"
| "get_int _ = Inl BadVariantAccess"

fun get_double :: "literal \<Rightarrow> 64 word result" where
  "get_double (LDouble v) = Inr v"
| "get_double _ = Inl BadVariantAccess"

datatype column_ref = ColumnRef (column_name: string)

datatype literal_expr = LiteralExpr (literal_value: literal)

datatype predicate_op = Op_AND | Op_OR

datatype compare_op = Op_GT | Op_LT | Op_GE | Op_LE | Op_EQ | Op_NEQ

text \<open>The subclasses of \<^verbatim>\<open>BooleanExpr\<close>, and the class \<^verbatim>\<open>Expr\<close> above them.\<close>

datatype bool_expr =
    BooleanConst bool
  | PredicateExpr bool_expr bool_expr predicate_op
  | CompareExpr column_ref literal_expr compare_op

datatype expr =
    EBool bool_expr
  | EColumn column_ref
  | ELiteral literal_expr

section \<open>Factories and combinators\<close>

definition col :: "string \<Rightarrow> column_ref" where
  "col name = ColumnRef name"

definition lit :: "literal \<Rightarrow> literal_expr" where
  "lit val = LiteralExpr val"

definition AND_expr :: "bool_expr \<Rightarrow> bool_expr \<Rightarrow> bool_expr" where
  "AND_expr this rhs = PredicateExpr this rhs Op_AND"

definition OR_expr :: "bool_expr \<Rightarrow> bool_expr \<Rightarrow> bool_expr" where
  "OR_expr this rhs = PredicateExpr this rhs Op_OR"

definition EQ :: "column_ref \<Rightarrow> literal_expr \<Rightarrow> bool_expr" where
  "EQ this rhs = CompareExpr this rhs Op_EQ"

definition LE :: "column_ref \<Rightarrow> literal_expr \<Rightarrow> bool_expr" where
  "LE this rhs = CompareExpr this rhs Op_LE"

definition GE :: "column_ref \<Rightarrow> literal_expr \<Rightarrow> bool_expr" where
  "GE this rhs = CompareExpr this rhs Op_GE"

definition NEQ :: "column_ref \<Rightarrow> literal_expr \<Rightarrow> bool_expr" where
  "NEQ this rhs = CompareExpr this rhs Op_NEQ"

definition LT :: "column_ref \<Rightarrow> literal_expr \<Rightarrow> bool_expr" where
  "LT this rhs = CompareExpr this rhs Op_LT"

definition GT :: "column_ref \<Rightarrow> literal_expr \<Rightarrow> bool_expr" where
  "GT this rhs = CompareExpr this rhs Op_GT"

lemmas expr_factories = col_def lit_def AND_expr_def OR_expr_def
  EQ_def LE_def GE_def NEQ_def LT_def GT_def

section \<open>The visitor\<close>

text \<open>
  \<^verbatim>\<open>ExprVisitor\<close> has one virtual method per class. A visitor is the record of its methods
  over the state \<open>'s\<close> it keeps in its fields; the method for \<^verbatim>\<open>PredicateExpr\<close> gets the two
  visits \<open>lhs->visit(*this)\<close> and \<open>rhs->visit(*this)\<close> it may make, the one for
  \<^verbatim>\<open>CompareExpr\<close> the visits of its column and its literal.
\<close>

record 's expr_visitor =
  visit_column :: "column_ref \<Rightarrow> 's \<Rightarrow> 's result"
  visit_predicate :: "('s \<Rightarrow> 's result) \<Rightarrow> ('s \<Rightarrow> 's result) \<Rightarrow> predicate_op \<Rightarrow> 's \<Rightarrow> 's result"
  visit_compare :: "('s \<Rightarrow> 's result) \<Rightarrow> ('s \<Rightarrow> 's result) \<Rightarrow>
     column_ref \<Rightarrow> literal_expr \<Rightarrow> compare_op \<Rightarrow> 's \<Rightarrow> 's result"
  visit_literal :: "literal_expr \<Rightarrow> 's \<Rightarrow> 's result"
  visit_const :: "bool \<Rightarrow> 's \<Rightarrow> 's result"

text \<open>The methods a visitor inherits when it does not override them.\<close>

definition default_visitor :: "'s expr_visitor" where
  "default_visitor =
     \<lparr>visit_column = (\<lambda>_ s. Inr s),
      visit_predicate = (\<lambda>lhs rhs _ s. bindE (lhs s) rhs),
      visit_compare = (\<lambda>lhs rhs _ _ _ s. bindE (lhs s) rhs),
      visit_literal = (\<lambda>_ s. Inr s),
      visit_const = (\<lambda>_ s. Inr s)\<rparr>"

text \<open>The virtual \<^verbatim>\<open>visit(ExprVisitor&)\<close> of the classes: dispatch on the class of the node.\<close>

primrec accept :: "'s expr_visitor \<Rightarrow> bool_expr \<Rightarrow> 's \<Rightarrow> 's result" where
  "accept v (BooleanConst b) = visit_const v b"
| "accept v (PredicateExpr l r op) = visit_predicate v (accept v l) (accept v r) op"
| "accept v (CompareExpr c x op) =
     visit_compare v (visit_column v c) (visit_literal v x) c x op"

primrec accept_expr :: "'s expr_visitor \<Rightarrow> expr \<Rightarrow> 's \<Rightarrow> 's result" where
  "accept_expr v (EBool e) = accept v e"
| "accept_expr v (EColumn c) = visit_column v c"
| "accept_expr v (ELiteral x) = visit_literal v x"

lemma default_visitor_sel [simp]:
  "visit_column default_visitor c s = Inr s"
  "visit_predicate default_visitor lv rv op s = bindE (lv s) rv"
  "visit_compare default_visitor lv rv c x cop s = bindE (lv s) rv"
  "visit_literal default_visitor x s = Inr s"
  "visit_const default_visitor b s = Inr s"
  by (simp_all add: default_visitor_def)

section \<open>Facts about expressions\<close>

text \<open>The comparisons of an expression, from left to right, and whether it holds a constant.\<close>

fun comparisons :: "bool_expr \<Rightarrow> (column_ref \<times> literal_expr \<times> compare_op) list" where
  "comparisons (BooleanConst _) = []"
| "comparisons (PredicateExpr l r _) = comparisons l @ comparisons r"
| "comparisons (CompareExpr c x op) = [(c, x, op)]"

fun const_free :: "bool_expr \<Rightarrow> bool" where
  "const_free (BooleanConst _) = False"
| "const_free (PredicateExpr l r _) = (const_free l \<and> const_free r)"
| "const_free (CompareExpr _ _ _) = True"

definition expr_columns :: "bool_expr \<Rightarrow> string list" where
  "expr_columns e = map (\<lambda>(c, _, _). column_name c) (comparisons e)"

text \<open>
  What an expression means: \<open>cmp\<close> says when one comparison holds, \<open>\<and>\<close> and \<open>\<or>\<close> do the rest.
\<close>

fun holds :: "(column_ref \<Rightarrow> literal_expr \<Rightarrow> compare_op \<Rightarrow> bool) \<Rightarrow> bool_expr \<Rightarrow> bool" where
  "holds cmp (BooleanConst b) = b"
| "holds cmp (PredicateExpr l r Op_AND) = (holds cmp l \<and> holds cmp r)"
| "holds cmp (PredicateExpr l r Op_OR) = (holds cmp l \<or> holds cmp r)"
| "holds cmp (CompareExpr c x op) = cmp c x op"

lemma holds_AND [simp]: "holds cmp (AND_expr a b) = (holds cmp a \<and> holds cmp b)"
  by (simp add: AND_expr_def)

lemma holds_OR [simp]: "holds cmp (OR_expr a b) = (holds cmp a \<or> holds cmp b)"
  by (simp add: OR_expr_def)

lemma const_free_AND [simp]: "const_free (AND_expr a b) = (const_free a \<and> const_free b)"
  by (simp add: AND_expr_def)

lemma comparisons_AND [simp]: "comparisons (AND_expr a b) = comparisons a @ comparisons b"
  by (simp add: AND_expr_def)

lemma holds_cong:
  "(\<And>c x op. (c, x, op) \<in> set (comparisons e) \<Longrightarrow> cmp c x op = cmp' c x op) \<Longrightarrow>
     holds cmp e = holds cmp' e"
proof (induction e)
  case (PredicateExpr l r op)
  then show ?case by (cases op) auto
qed auto

text \<open>
  C34: A visitor that overrides only the methods for columns and literals walks the tree in
  order: it visits the column and the literal of every comparison, from left to right, and stops
  at the first one that fails.
\<close>

theorem accept_leaf_visitor:
  "accept (default_visitor\<lparr>visit_column := vc, visit_literal := vl\<rparr>) e =
     foldE (\<lambda>(c, x, _) s. bindE (vc c s) (vl x)) (comparisons e)"
proof (induction e)
  case (PredicateExpr l r op)
  then show ?case by (intro ext) (simp add: default_visitor_def foldE_append)
next
  case (CompareExpr c x op)
  show ?case by (auto simp: default_visitor_def fun_eq_iff)
qed (simp add: default_visitor_def fun_eq_iff)

end
