(* ===== verification/Logical_Plan.thy ===== *)
theory Logical_Plan
  imports Expressions
begin

text \<open>
  \<^verbatim>\<open>pefa/query_compiler/logical_plan.h\<close> and \<^verbatim>\<open>.cpp\<close>: the nodes of a plan, shared and
  mutable, in a store that \<^verbatim>\<open>std::make_shared\<close> extends, and the visitor that walks a plan
  from its innermost node to its root.
\<close>

section \<open>The nodes\<close>

text \<open>A node's \<open>input\<close> is a shared pointer, null for the scan of the table.\<close>

datatype plan_node =
    ProjectionNode "nat option" "string list"
  | FilterNode "nat option" bool_expr
  | MaterializeFilterNode "nat option"

type_synonym plan_store = "plan_node list"

fun node_input :: "plan_node \<Rightarrow> nat option" where
  "node_input (ProjectionNode input _) = input"
| "node_input (FilterNode input _) = input"
| "node_input (MaterializeFilterNode input) = input"

definition make_node :: "plan_node \<Rightarrow> plan_store \<Rightarrow> nat \<times> plan_store" where
  "make_node node h = (length h, h @ [node])"

section \<open>The visitor\<close>

text \<open>
  The \<open>on_visit\<close> methods of a visitor with state \<open>'s\<close>; they are handed the node by reference,
  that is by its address, and may change the store.
\<close>

record 's plan_visitor =
  on_projection :: "nat \<Rightarrow> plan_store \<times> 's \<Rightarrow> (plan_store \<times> 's) result"
  on_filter :: "nat \<Rightarrow> plan_store \<times> 's \<Rightarrow> (plan_store \<times> 's) result"
  on_materialize :: "nat \<Rightarrow> plan_store \<times> 's \<Rightarrow> (plan_store \<times> 's) result"

definition on_visit :: "'s plan_visitor \<Rightarrow> plan_node \<Rightarrow> nat \<Rightarrow> plan_store \<times> 's \<Rightarrow> (plan_store \<times> 's) result" where
  "on_visit v node =
     (case node of
        ProjectionNode _ _ \<Rightarrow> on_projection v
      | FilterNode _ _ \<Rightarrow> on_filter v
      | MaterializeFilterNode _ \<Rightarrow> on_materialize v)"

text \<open>\<^verbatim>\<open>PlanVisitor::visit\<close>: the node's input first, when there is one.\<close>

fun plan_visit :: "nat \<Rightarrow> 's plan_visitor \<Rightarrow> nat \<Rightarrow> plan_store \<times> 's \<Rightarrow> (plan_store \<times> 's) result" where
  "plan_visit 0 v a st = Inl OutOfFuel"
| "plan_visit (Suc fuel) v a st =
     (if a < length (fst st)
      then let node = fst st ! a in
        bindE (case node_input node of None \<Rightarrow> Inr st | Some i \<Rightarrow> plan_visit fuel v i st)
          (on_visit v node a)
      else Inl NullPointer)"

text \<open>\<^verbatim>\<open>plan->visit(visitor)\<close>: a node's input was made before the node.\<close>

definition visit_plan :: "'s plan_visitor \<Rightarrow> nat option \<Rightarrow> plan_store \<times> 's \<Rightarrow> (plan_store \<times> 's) result" where
  "visit_plan v p st = bindE (deref p) (\<lambda>a. plan_visit (Suc a) v a st)"

section \<open>The operations of a plan\<close>

text \<open>A plan as the list of its operations, the last one first.\<close>

datatype plan_op = OpProject "string list" | OpFilter bool_expr | OpMaterialize

fun node_op :: "plan_node \<Rightarrow> plan_op" where
  "node_op (ProjectionNode _ names) = OpProject names"
| "node_op (FilterNode _ e) = OpFilter e"
| "node_op (MaterializeFilterNode _) = OpMaterialize"

inductive represents :: "plan_store \<Rightarrow> nat option \<Rightarrow> plan_op list \<Rightarrow> bool" for h :: plan_store where
  represents_null: "represents h None []"
| represents_node: "a < length h \<Longrightarrow> (\<And>i. node_input (h ! a) = Some i \<Longrightarrow> i < a) \<Longrightarrow>
    represents h (node_input (h ! a)) ops \<Longrightarrow> represents h (Some a) (node_op (h ! a) # ops)"

inductive_cases represents_NoneE: "represents h None ops"
inductive_cases represents_SomeE: "represents h (Some a) ops"

lemma represents_None [simp]: "represents h None ops \<longleftrightarrow> ops = []"
  by (auto elim: represents_NoneE intro: represents_null)

lemma represents_Some_length: "represents h (Some a) ops \<Longrightarrow> a < length h"
  by (auto elim: represents_SomeE)

lemma represents_input:
  assumes "represents h (Some a) (op # ops)"
  shows "node_op (h ! a) = op" and "represents h (node_input (h ! a)) ops"
    and "node_input (h ! a) = Some i \<Longrightarrow> i < a"
  using assms by (auto elim: represents_SomeE)

text \<open>A plan depends only on the nodes up to its root.\<close>

lemma represents_prefix:
  assumes "represents h p ops" and "\<And>i. (\<exists>a. p = Some a \<and> i \<le> a) \<Longrightarrow> i < length h' \<and> h' ! i = h ! i"
  shows "represents h' p ops"
  using assms
proof (induction rule: represents.induct)
  case (represents_node a ops)
  then have "represents h' (node_input (h ! a)) ops" by fastforce
  moreover have "a < length h' \<and> h' ! a = h ! a" using represents_node.prems by blast
  ultimately show ?case
    using represents.represents_node [of a h' ops] represents_node.hyps(2) by simp
qed simp

lemma represents_append:
  assumes "represents h p ops"
  shows "represents (h @ ns) p ops"
proof (cases p)
  case (Some a)
  then have "a < length h" using assms represents_Some_length by blast
  with Some show ?thesis by (intro represents_prefix [OF assms]) (auto simp: nth_append)
qed (use assms in simp)

text \<open>A new node on top of a plan.\<close>

lemma represents_make_node:
  assumes "represents h p ops" and "node_input node = p" and "make_node node h = (a, h')"
  shows "represents h' (Some a) (node_op node # ops)"
proof -
  have "i < length h" if "p = Some i" for i using assms(1) that represents_Some_length by blast
  with assms represents_append [OF assms(1), of "[node]"]
    represents_node [of "length h" "h @ [node]" ops]
  show ?thesis by (auto simp: make_node_def)
qed

section \<open>The interface of plan visitors\<close>

text \<open>
  A visitor whose methods amount to a step per operation, as long as the plan it walks is
  intact. \<open>I h0 st\<close> is its invariant over the store \<open>h0\<close> it started with.
\<close>

locale plan_walker =
  fixes v :: "'s plan_visitor"
    and step :: "plan_op \<Rightarrow> plan_store \<times> 's \<Rightarrow> (plan_store \<times> 's) result"
    and I :: "plan_store \<Rightarrow> plan_store \<times> 's \<Rightarrow> bool"
  assumes frame: "I h0 st \<Longrightarrow> a < length h0 \<Longrightarrow> a < length (fst st) \<and> fst st ! a = h0 ! a"
    and visit_law: "I h0 st \<Longrightarrow> a < length h0 \<Longrightarrow> on_visit v (h0 ! a) a st = step (node_op (h0 ! a)) st"
    and step_inv: "I h0 st \<Longrightarrow> step op st = Inr st' \<Longrightarrow> I h0 st'"
begin

text \<open>The operations are visited from the first to the last; the fuel is enough.\<close>

lemma plan_visit_steps:
  assumes "represents h0 p ops"
  shows "p = Some a \<Longrightarrow> a < fuel \<Longrightarrow> I h0 st \<Longrightarrow>
    plan_visit fuel v a st = foldE step (rev ops) st"
  using assms
proof (induction arbitrary: a fuel rule: represents.induct)
  case (represents_node b ops)
  then obtain f where f: "fuel = Suc f" "a = b" by (cases fuel) auto
  have node: "a < length (fst st)" "fst st ! a = h0 ! a"
    using frame [OF represents_node.prems(3), of a] represents_node.hyps(1) f(2) by auto
  have "(case node_input (h0 ! a) of None \<Rightarrow> Inr st | Some i \<Rightarrow> plan_visit f v i st) =
      foldE step (rev ops) st"
  proof (cases "node_input (h0 ! a)")
    case None
    then have "ops = []" using represents_node.hyps(3) f(2) by simp
    with None show ?thesis by simp
  next
    case (Some i)
    then have "i < f" using represents_node.hyps(2) represents_node.prems(2) f by fastforce
    with Some show ?thesis using represents_node.IH represents_node.prems(3) f(2) by simp
  qed
  moreover have "bindE (foldE step (rev ops) st) (on_visit v (h0 ! a) a) =
      bindE (foldE step (rev ops) st) (step (node_op (h0 ! a)))"
  proof (rule bindE_cong [OF refl])
    fix st' assume "foldE step (rev ops) st = Inr st'"
    then have "I h0 st'" by (rule foldE_inv) (use represents_node.prems(3) step_inv in auto)
    then show "on_visit v (h0 ! a) a st' = step (node_op (h0 ! a)) st'"
      using visit_law represents_node.hyps(1) f(2) by blast
  qed
  ultimately show ?case using node f by (simp add: foldE_append)
qed simp

lemma visit_plan_steps:
  assumes "represents h0 (Some a) ops" and "I h0 st"
  shows "visit_plan v (Some a) st = foldE step (rev ops) st"
  using plan_visit_steps [OF assms(1) refl _ assms(2), of "Suc a"]
  by (simp add: visit_plan_def del: plan_visit.simps)

lemma steps_inv: "I h0 st \<Longrightarrow> foldE step ops st = Inr st' \<Longrightarrow> I h0 st'"
  by (rule foldE_inv) (use step_inv in auto)

end

lemma visit_plan_null: "visit_plan v None st = Inl NullPointer"
  by (simp add: visit_plan_def)

end
