(* ===== verification/Plan_Optimizer.thy ===== *)
theory Plan_Optimizer
  imports Logical_Plan
begin

text \<open>
  \<^verbatim>\<open>pefa/query_compiler/lp_optimizer\<close>: passes that rebuild a plan in the store, the base
  class that copies it, the pass that joins adjacent filters, and the optimizer that runs
  its passes one after the other.
\<close>

section \<open>OptimizerPass\<close>

text \<open>
  The state of a pass is its \<open>m_result\<close>. A method that is handed a node of another class
  cannot be written in C++; here it is \<open>IllFormed\<close>.
\<close>

type_synonym pass_state = "plan_store \<times> nat option"

definition append_node :: "plan_node \<Rightarrow> plan_store \<Rightarrow> pass_state result" where
  "append_node node h = (let (a, h') = make_node node h in Inr (h', Some a))"

definition pass_on_filter :: "nat \<Rightarrow> pass_state \<Rightarrow> pass_state result" where
  "pass_on_filter a st =
     (case fst st ! a of
        FilterNode _ e \<Rightarrow> append_node (FilterNode (snd st) e) (fst st)
      | _ \<Rightarrow> Inl IllFormed)"

definition pass_on_materialize :: "nat \<Rightarrow> pass_state \<Rightarrow> pass_state result" where
  "pass_on_materialize a st = append_node (MaterializeFilterNode (snd st)) (fst st)"

definition pass_on_projection :: "nat \<Rightarrow> pass_state \<Rightarrow> pass_state result" where
  "pass_on_projection a st =
     (case fst st ! a of
        ProjectionNode _ names \<Rightarrow> append_node (ProjectionNode (snd st) names) (fst st)
      | _ \<Rightarrow> Inl IllFormed)"

definition optimizer_pass_visitor :: "nat option plan_visitor" where
  "optimizer_pass_visitor =
     \<lparr>on_projection = pass_on_projection, on_filter = pass_on_filter, on_materialize = pass_on_materialize\<rparr>"

record optimizer_pass =
  pass_methods :: "nat option plan_visitor"
  m_result :: "nat option"

text \<open>\<^verbatim>\<open>OptimizerPass::execute\<close>; \<open>m_result\<close> is not reset.\<close>

definition pass_execute :: "optimizer_pass \<Rightarrow> nat option \<Rightarrow> plan_store \<Rightarrow>
    (optimizer_pass \<times> plan_store \<times> nat option) result" where
  "pass_execute pass input h =
     bindE (visit_plan (pass_methods pass) input (h, m_result pass)) (\<lambda>(h', r).
       Inr (pass\<lparr>m_result := r\<rparr>, h', r))"

section \<open>JoinFilterPass\<close>

text \<open>
  \<open>JoinFilterPass::on_visit(const FilterNode&)\<close>: a filter on top of a filter is merged into it
  in place, a materialisation below a filter is dropped and the filter is visited again.
\<close>

fun join_on_filter :: "nat \<Rightarrow> nat \<Rightarrow> pass_state \<Rightarrow> pass_state result" where
  "join_on_filter 0 a (h, m_res) = Inl OutOfFuel"
| "join_on_filter (Suc fuel) a (h, m_res) =
     (case m_res of
        None \<Rightarrow> pass_on_filter a (h, m_res)
      | Some prev \<Rightarrow>
          if prev < length h
          then case h ! prev of
              FilterNode input prev_expr \<Rightarrow>
                (case h ! a of
                   FilterNode _ e \<Rightarrow> Inr (h[prev := FilterNode input (AND_expr prev_expr e)], m_res)
                 | _ \<Rightarrow> Inl IllFormed)
            | MaterializeFilterNode input \<Rightarrow> join_on_filter fuel a (h, input)
            | _ \<Rightarrow> pass_on_filter a (h, m_res)
          else Inl NullPointer)"

definition join_fuel :: "nat option \<Rightarrow> nat" where
  "join_fuel r = (case r of None \<Rightarrow> 1 | Some b \<Rightarrow> b + 2)"

definition join_filter_visitor :: "nat option plan_visitor" where
  "join_filter_visitor =
     optimizer_pass_visitor\<lparr>on_filter := \<lambda>a st. join_on_filter (join_fuel (snd st)) a st\<rparr>"

definition join_filter_pass_create :: optimizer_pass where
  "join_filter_pass_create = \<lparr>pass_methods = join_filter_visitor, m_result = None\<rparr>"

section \<open>PlanOptimizer\<close>

type_synonym plan_optimizer = "optimizer_pass list"

definition add_pass :: "optimizer_pass \<Rightarrow> plan_optimizer \<Rightarrow> plan_optimizer" where
  "add_pass pass m_passes = m_passes @ [pass]"

fun run_passes :: "plan_optimizer \<Rightarrow> nat option \<Rightarrow> plan_store \<Rightarrow>
    (plan_optimizer \<times> plan_store \<times> nat option) result" where
  "run_passes [] input h = Inr ([], h, input)"
| "run_passes (pass # m_passes) input h =
     bindE (pass_execute pass input h) (\<lambda>(pass', h', res).
     bindE (run_passes m_passes res h') (\<lambda>(m_passes', h'', res').
       Inr (pass' # m_passes', h'', res')))"

section \<open>What a pass promises\<close>

text \<open>
  A pass over the store \<open>h0\<close>: the old nodes stay as they are, and everything the pass reaches
  from \<open>m_result\<close> is new.
\<close>

definition fresh :: "plan_store \<Rightarrow> plan_store \<Rightarrow> nat option \<Rightarrow> bool" where
  "fresh h0 h r \<longleftrightarrow> (\<forall>b. r = Some b \<longrightarrow> length h0 \<le> b \<and> b < length h)"

definition pass_inv :: "plan_store \<Rightarrow> pass_state \<Rightarrow> bool" where
  "pass_inv h0 st \<longleftrightarrow>
     length h0 \<le> length (fst st) \<and> (\<forall>a < length h0. fst st ! a = h0 ! a) \<and>
     fresh h0 (fst st) (snd st) \<and>
     (\<forall>b. length h0 \<le> b \<and> b < length (fst st) \<longrightarrow>
        fresh h0 (fst st) (node_input (fst st ! b)) \<and>
        (\<forall>i. node_input (fst st ! b) = Some i \<longrightarrow> i < b))"

lemma fresh_append: "fresh h0 h p \<Longrightarrow> fresh h0 (h @ ns) p"
  by (auto simp: fresh_def)

lemma pass_inv_cong:
  assumes "length h' = length h" and "\<And>a. a < length h0 \<Longrightarrow> h' ! a = h ! a"
    and "\<And>a. node_input (h' ! a) = node_input (h ! a)"
  shows "pass_inv h0 (h', r) \<longleftrightarrow> pass_inv h0 (h, r)"
  using assms by (simp add: pass_inv_def fresh_def)

lemma pass_inv_start: "pass_inv h (h, None)"
  by (simp add: pass_inv_def fresh_def)

locale rewriting_pass = plan_walker v step pass_inv
  for v :: "nat option plan_visitor" and step :: "plan_op \<Rightarrow> pass_state \<Rightarrow> pass_state result" +
  fixes rewrite :: "plan_op \<Rightarrow> plan_op list \<Rightarrow> plan_op list"
  assumes rewrite_law: "pass_inv h0 (h, r) \<Longrightarrow> represents h r ops \<Longrightarrow>
    \<exists>h' r'. step op (h, r) = Inr (h', r') \<and> represents h' r' (rewrite op ops)"
begin

lemma steps_rewrite:
  "pass_inv h0 (h, r) \<Longrightarrow> represents h r ops0 \<Longrightarrow>
    \<exists>h' r'. foldE step (rev ops) (h, r) = Inr (h', r') \<and> represents h' r' (foldr rewrite ops ops0)"
proof (induction ops)
  case (Cons op ops)
  then obtain h1 r1 where 1: "foldE step (rev ops) (h, r) = Inr (h1, r1)"
    "represents h1 r1 (foldr rewrite ops ops0)" by blast
  from rewrite_law [OF steps_inv [OF Cons.prems(1) 1(1)] 1(2), of op] 1(1) show ?case
    by (auto simp: foldE_append)
qed simp

text \<open>A plan is rebuilt operation by operation; the plan that went in is still there.\<close>

lemma pass_rewrites:
  assumes "represents h (Some a) ops"
  shows "\<exists>h' r. visit_plan v (Some a) (h, None) = Inr (h', r) \<and>
    represents h' r (foldr rewrite ops []) \<and> fresh h h' r \<and> take (length h) h' = h"
proof -
  note start = pass_inv_start [of h]
  obtain h' r where r: "foldE step (rev ops) (h, None) = Inr (h', r)"
    "represents h' r (foldr rewrite ops [])"
    using steps_rewrite [OF start, of "[]" ops] by auto
  then have inv: "pass_inv h (h', r)" using steps_inv [OF start] by blast
  then have "take (length h) h' = h"
    by (intro nth_equalityI) (auto simp: pass_inv_def)
  with r inv visit_plan_steps [OF assms start] show ?thesis by (auto simp: pass_inv_def)
qed

end

section \<open>The base class copies a plan\<close>

fun op_node :: "plan_op \<Rightarrow> nat option \<Rightarrow> plan_node" where
  "op_node (OpProject names) r = ProjectionNode r names"
| "op_node (OpFilter e) r = FilterNode r e"
| "op_node OpMaterialize r = MaterializeFilterNode r"

lemma op_node_sel [simp]: "node_input (op_node op r) = r" "node_op (op_node op r) = op"
  by (cases op; simp)+

definition copy_op :: "plan_op \<Rightarrow> pass_state \<Rightarrow> pass_state result" where
  "copy_op op st = append_node (op_node op (snd st)) (fst st)"

lemma copy_op_represents:
  assumes "represents h r ops"
  shows "\<exists>h' r'. copy_op op (h, r) = Inr (h', r') \<and> represents h' r' (op # ops)"
  using represents_make_node [OF assms, of "op_node op r" "length h"]
  by (simp add: copy_op_def append_node_def make_node_def)

lemma copy_op_inv:
  assumes "pass_inv h0 st" and "copy_op op st = Inr st'"
  shows "pass_inv h0 st'"
proof -
  obtain h r where st: "st = (h, r)" by fastforce
  with assms(1) have inv: "length h0 \<le> length h" "\<And>a. a < length h0 \<Longrightarrow> h ! a = h0 ! a"
    "fresh h0 h r" "\<And>b. length h0 \<le> b \<Longrightarrow> b < length h \<Longrightarrow>
      fresh h0 h (node_input (h ! b)) \<and> (\<forall>i. node_input (h ! b) = Some i \<longrightarrow> i < b)"
    by (simp_all add: pass_inv_def)
  from st assms(2) have "st' = (h @ [op_node op r], Some (length h))"
    by (auto simp: copy_op_def append_node_def make_node_def)
  moreover have "pass_inv h0 (h @ [op_node op r], Some (length h))"
    unfolding pass_inv_def fst_conv snd_conv
  proof (intro conjI allI impI)
    show "length h0 \<le> length (h @ [op_node op r])" using inv(1) by simp
    show "(h @ [op_node op r]) ! a = h0 ! a" if "a < length h0" for a
      using inv(1,2) that by (simp add: nth_append)
    show "fresh h0 (h @ [op_node op r]) (Some (length h))" using inv(1) by (simp add: fresh_def)
  next
    fix b assume b: "length h0 \<le> b \<and> b < length (h @ [op_node op r])"
    show "fresh h0 (h @ [op_node op r]) (node_input ((h @ [op_node op r]) ! b))"
      using inv(3) inv(4) [of b] b fresh_append by (cases "b < length h") (simp_all add: nth_append)
    show "i < b" if "node_input ((h @ [op_node op r]) ! b) = Some i" for i
      using inv(3) inv(4) [of b] b that by (cases "b < length h") (simp_all add: nth_append fresh_def)
  qed
  ultimately show ?thesis by simp
qed

lemma on_visit_pass:
  "h ! a = h0 ! a \<Longrightarrow> on_visit optimizer_pass_visitor (h0 ! a) a (h, r) = copy_op (node_op (h0 ! a)) (h, r)"
  by (cases "h0 ! a") (simp_all add: on_visit_def optimizer_pass_visitor_def pass_on_projection_def
      pass_on_filter_def pass_on_materialize_def copy_op_def)

interpretation copy_pass: rewriting_pass optimizer_pass_visitor copy_op "(#)"
proof (unfold_locales, goal_cases)
  case (1 h0 st a)
  then show ?case by (auto simp: pass_inv_def)
next
  case (2 h0 st a)
  then show ?case by (cases st) (auto simp: pass_inv_def on_visit_pass)
next
  case (3 h0 st op st')
  then show ?case by (rule copy_op_inv)
next
  case (4 h0 h r ops op)
  then show ?case using copy_op_represents by blast
qed

section \<open>The filter pass joins adjacent filters\<close>

fun join_filter_ops :: "bool_expr \<Rightarrow> plan_op list \<Rightarrow> plan_op list" where
  "join_filter_ops e (OpFilter prev # ops) = OpFilter (AND_expr prev e) # ops"
| "join_filter_ops e (OpMaterialize # ops) = join_filter_ops e ops"
| "join_filter_ops e ops = OpFilter e # ops"

fun join_op :: "plan_op \<Rightarrow> plan_op list \<Rightarrow> plan_op list" where
  "join_op (OpFilter e) ops = join_filter_ops e ops"
| "join_op op ops = op # ops"

text \<open>The method with the filter's expression in place of the node that holds it.\<close>

fun join_step_filter :: "nat \<Rightarrow> bool_expr \<Rightarrow> pass_state \<Rightarrow> pass_state result" where
  "join_step_filter 0 e (h, m_res) = Inl OutOfFuel"
| "join_step_filter (Suc fuel) e (h, m_res) =
     (case m_res of
        None \<Rightarrow> copy_op (OpFilter e) (h, m_res)
      | Some prev \<Rightarrow>
          if prev < length h
          then case h ! prev of
              FilterNode input prev_expr \<Rightarrow> Inr (h[prev := FilterNode input (AND_expr prev_expr e)], m_res)
            | MaterializeFilterNode input \<Rightarrow> join_step_filter fuel e (h, input)
            | _ \<Rightarrow> copy_op (OpFilter e) (h, m_res)
          else Inl NullPointer)"

definition join_step :: "plan_op \<Rightarrow> pass_state \<Rightarrow> pass_state result" where
  "join_step op st =
     (case op of
        OpFilter e \<Rightarrow> join_step_filter (join_fuel (snd st)) e st
      | _ \<Rightarrow> copy_op op st)"

lemma join_on_filter_step:
  "h ! a = FilterNode input e \<Longrightarrow> join_on_filter fuel a (h, r) = join_step_filter fuel e (h, r)"
  by (induction fuel arbitrary: r)
    (auto simp: pass_on_filter_def copy_op_def split: option.splits plan_node.splits)

lemma join_filter_inv:
  "pass_inv h0 (h, r) \<Longrightarrow> join_step_filter fuel e (h, r) = Inr st' \<Longrightarrow> pass_inv h0 st'"
proof (induction fuel arbitrary: r)
  case (Suc fuel)
  show ?case
  proof (cases r)
    case None
    with Suc.prems copy_op_inv show ?thesis by auto
  next
    case (Some b)
    have b: "length h0 \<le> b" "b < length h" using Suc.prems(1) Some by (auto simp: pass_inv_def fresh_def)
    show ?thesis
    proof (cases "h ! b")
      case (ProjectionNode input names)
      with Suc.prems Some b copy_op_inv show ?thesis by auto
    next
      case (FilterNode input prev)
      with Suc.prems Some b have "st' = (h[b := FilterNode input (AND_expr prev e)], r)" by simp
      moreover have "node_input (h[b := FilterNode input (AND_expr prev e)] ! i) = node_input (h ! i)" for i
        using FilterNode b by (cases "i = b") simp_all
      moreover have "h[b := FilterNode input (AND_expr prev e)] ! a = h ! a" if "a < length h0" for a
        using that b(1) by simp
      ultimately show ?thesis
        using pass_inv_cong [of "h[b := FilterNode input (AND_expr prev e)]" h h0 r] Suc.prems(1) by simp
    next
      case (MaterializeFilterNode input)
      have "node_input (h ! b) = input" using MaterializeFilterNode by simp
      with Suc.prems(1) b have "pass_inv h0 (h, input)" by (auto simp: pass_inv_def)
      with Suc.IH Suc.prems(2) Some b MaterializeFilterNode show ?thesis by simp
    qed
  qed
qed simp

lemma join_filter_represents:
  "represents h r ops \<Longrightarrow> join_fuel r \<le> fuel \<Longrightarrow>
    \<exists>h' r'. join_step_filter fuel e (h, r) = Inr (h', r') \<and> represents h' r' (join_filter_ops e ops)"
proof (induction ops arbitrary: r fuel)
  case Nil
  then have "r = None" by (cases r) (auto elim: represents_SomeE)
  moreover obtain f where "fuel = Suc f" using Nil.prems(2) by (cases fuel) (auto simp: join_fuel_def split: option.splits)
  ultimately show ?case using copy_op_represents [of h None "[]" "OpFilter e"] by auto
next
  case (Cons op ops)
  then obtain b where b: "r = Some b" by (cases r) auto
  note rep = Cons.prems(1) [unfolded b]
  have len: "b < length h" by (rule represents_Some_length [OF rep])
  obtain f where f: "fuel = Suc f" using Cons.prems(2) by (cases fuel) (auto simp: join_fuel_def split: option.splits)
  show ?case
  proof (cases "h ! b")
    case (ProjectionNode input names)
    then have "op = OpProject names" using represents_input(1) [OF rep] by simp
    then show ?thesis using copy_op_represents [OF Cons.prems(1), of "OpFilter e"] ProjectionNode b len f by auto
  next
    case (FilterNode input prev)
    let ?h = "h[b := FilterNode input (AND_expr prev e)]"
    have op: "op = OpFilter prev" using represents_input(1) [OF rep] FilterNode by simp
    have input: "represents h input ops" "\<And>i. input = Some i \<Longrightarrow> i < b"
      using represents_input(2,3) [OF rep] FilterNode by auto
    have "represents ?h input ops"
    proof (rule represents_prefix [OF input(1)])
      fix i assume "\<exists>a. input = Some a \<and> i \<le> a"
      with input(2) have "i < b" by fastforce
      with len show "i < length ?h \<and> ?h ! i = h ! i" by simp
    qed
    then have "represents ?h (Some b) (OpFilter (AND_expr prev e) # ops)"
      using represents_node [of b ?h ops] len input(2) by simp
    then show ?thesis using FilterNode b len f op by auto
  next
    case (MaterializeFilterNode input)
    have op: "op = OpMaterialize" using represents_input(1) [OF rep] MaterializeFilterNode by simp
    have input: "represents h input ops" "\<And>i. input = Some i \<Longrightarrow> i < b"
      using represents_input(2,3) [OF rep] MaterializeFilterNode by auto
    have "join_fuel input \<le> f"
      using input(2) Cons.prems(2) b f by (cases input) (fastforce simp: join_fuel_def)+
    from Cons.IH [OF input(1) this] show ?thesis using MaterializeFilterNode b len f op by simp
  qed
qed

interpretation join_pass: rewriting_pass join_filter_visitor join_step join_op
proof (unfold_locales, goal_cases)
  case (1 h0 st a)
  then show ?case by (auto simp: pass_inv_def)
next
  case (2 h0 st a)
  obtain h r where st: "st = (h, r)" by fastforce
  with 2 have a: "h ! a = h0 ! a" by (simp add: pass_inv_def)
  show ?case
  proof (cases "h0 ! a")
    case (FilterNode input e)
    with a st join_on_filter_step [of h a input e] show ?thesis
      by (simp add: on_visit_def join_filter_visitor_def join_step_def)
  qed (use a st on_visit_pass [of h a h0 r] in
      \<open>simp_all add: on_visit_def join_filter_visitor_def join_step_def\<close>)
next
  case (3 h0 st op st')
  then show ?case
    by (cases st; cases op) (auto simp: join_step_def intro: copy_op_inv join_filter_inv)
next
  case (4 h0 h r ops op)
  then show ?case
    using copy_op_represents [OF 4(2), of op] join_filter_represents [OF 4(2) order_refl]
    by (cases op) (auto simp: join_step_def)
qed

text \<open>The optimizer of \<^verbatim>\<open>QueryCompiler::execute\<close>.\<close>

lemma optimizer_joins:
  assumes "represents h (Some a) ops"
  obtains m_passes h' r where
    "run_passes (add_pass join_filter_pass_create []) (Some a) h = Inr (m_passes, h', r)"
    and "represents h' r (foldr join_op ops [])" and "take (length h) h' = h"
  using join_pass.pass_rewrites [OF assms]
  by (auto simp: add_pass_def join_filter_pass_create_def pass_execute_def)

end
