(* ===== verification/LLVM_IR.thy ===== *)
theory LLVM_IR
  imports Prelude
begin

text \<open>
  The part of the LLVM IR language that \<^verbatim>\<open>pefa/kernels/filter.cpp\<close> emits: its types and values,
  the instructions (one constructor for every kind of \<open>IRBuilder::Create...\<close> call the source
  makes), functions and modules, and their execution as the LLVM language reference
  describes it. Integers are words of their width. Poison, a division by zero and the load of an
  uninitialised slot are \<open>UndefinedValue\<close>, an access outside a buffer is \<open>OutOfBounds\<close>, and
  code that LLVM's type rules reject is \<open>IllFormed\<close>.
\<close>

section \<open>Types and values\<close>

datatype ir_type = TI1 | TI8 | TI16 | TI32 | TI64 | TF16 | TF32 | TF64 | TPtr ir_type

text \<open>
  The memory the emitted code sees: the data buffer of a column (read only), the bitmap, and
  its own stack slots, named by the register of their \<open>alloca\<close>. A cell of a buffer is a byte
  offset, possibly outside the buffer.
\<close>

datatype region = Source | Bitmap

datatype pointer = Slot nat | Cell region int

datatype ir_value =
    VI1 "1 word" | VI8 "8 word" | VI16 "16 word" | VI32 "32 word" | VI64 "64 word"
  | VF16 "16 word" | VF32 "32 word" | VF64 "64 word"
  | VPtr ir_type pointer

fun type_of :: "ir_value \<Rightarrow> ir_type" where
  "type_of (VI1 _) = TI1"
| "type_of (VI8 _) = TI8"
| "type_of (VI16 _) = TI16"
| "type_of (VI32 _) = TI32"
| "type_of (VI64 _) = TI64"
| "type_of (VF16 _) = TF16"
| "type_of (VF32 _) = TF32"
| "type_of (VF64 _) = TF64"
| "type_of (VPtr t _) = TPtr t"

fun type_size :: "ir_type \<Rightarrow> nat" where
  "type_size TI1 = 1"
| "type_size TI8 = 1"
| "type_size TI16 = 2"
| "type_size TI32 = 4"
| "type_size TI64 = 8"
| "type_size TF16 = 2"
| "type_size TF32 = 4"
| "type_size TF64 = 8"
| "type_size (TPtr _) = 8"

text \<open>Bytes are stored with the least significant one first.\<close>

fun bytes_nat :: "byte list \<Rightarrow> nat" where
  "bytes_nat [] = 0"
| "bytes_nat (b # bs) = unat b + 256 * bytes_nat bs"

fun decode :: "ir_type \<Rightarrow> byte list \<Rightarrow> ir_value option" where
  "decode TI1 bs = None"
| "decode TI8 bs = Some (VI8 (of_nat (bytes_nat bs)))"
| "decode TI16 bs = Some (VI16 (of_nat (bytes_nat bs)))"
| "decode TI32 bs = Some (VI32 (of_nat (bytes_nat bs)))"
| "decode TI64 bs = Some (VI64 (of_nat (bytes_nat bs)))"
| "decode TF16 bs = Some (VF16 (of_nat (bytes_nat bs)))"
| "decode TF32 bs = Some (VF32 (of_nat (bytes_nat bs)))"
| "decode TF64 bs = Some (VF64 (of_nat (bytes_nat bs)))"
| "decode (TPtr _) bs = None"

section \<open>Instructions\<close>

datatype operand = Const ir_value | Reg nat | Arg nat

datatype binop = Add | Sub | Mul | UDiv | Shl | And | Or | Xor

datatype icmp_pred =
    ICMP_SGT | ICMP_UGT | ICMP_SLT | ICMP_ULT | ICMP_SGE | ICMP_UGE | ICMP_SLE | ICMP_ULE
  | ICMP_EQ | ICMP_NE

datatype fcmp_pred = FCMP_OGT | FCMP_OLT | FCMP_OGE | FCMP_OLE | FCMP_OEQ | FCMP_ONE

datatype instr =
    Alloca nat ir_type
  | Load nat operand
  | Store operand operand
  | BinOp nat binop operand operand
  | ICmp nat icmp_pred operand operand
  | FCmp nat fcmp_pred operand operand
  | ZExt nat ir_type operand
  | PtrCast nat ir_type operand
  | GEP nat operand operand
  | Call nat string "operand list"
  | Br string
  | CondBr operand string string
  | Ret operand
  | RetVoid

record ir_function =
  fn_name :: string
  fn_external :: bool
  fn_params :: "ir_type list"
  fn_ret :: "ir_type option"
  fn_blocks :: "(string \<times> instr list) list"

record ir_module =
  mod_name :: string
  mod_triple :: string
  mod_layout :: string
  mod_functions :: "ir_function list"

section \<open>Arithmetic and comparisons\<close>

fun word_binop :: "binop \<Rightarrow> 'a::len word \<Rightarrow> 'a word \<Rightarrow> 'a word option" where
  "word_binop Add a b = Some (a + b)"
| "word_binop Sub a b = Some (a - b)"
| "word_binop Mul a b = Some (a * b)"
| "word_binop UDiv a b = (if b = 0 then None else Some (a div b))"
| "word_binop Shl a b = (if unat b < LENGTH('a) then Some (push_bit (unat b) a) else None)"
| "word_binop And a b = Some (a AND b)"
| "word_binop Or a b = Some (a OR b)"
| "word_binop Xor a b = Some (a XOR b)"

fun ir_binop :: "binop \<Rightarrow> ir_value \<Rightarrow> ir_value \<Rightarrow> ir_value option" where
  "ir_binop f (VI1 a) y = (case y of VI1 b \<Rightarrow> map_option VI1 (word_binop f a b) | _ \<Rightarrow> None)"
| "ir_binop f (VI8 a) y = (case y of VI8 b \<Rightarrow> map_option VI8 (word_binop f a b) | _ \<Rightarrow> None)"
| "ir_binop f (VI16 a) y = (case y of VI16 b \<Rightarrow> map_option VI16 (word_binop f a b) | _ \<Rightarrow> None)"
| "ir_binop f (VI32 a) y = (case y of VI32 b \<Rightarrow> map_option VI32 (word_binop f a b) | _ \<Rightarrow> None)"
| "ir_binop f (VI64 a) y = (case y of VI64 b \<Rightarrow> map_option VI64 (word_binop f a b) | _ \<Rightarrow> None)"
| "ir_binop f _ y = None"

fun word_icmp :: "icmp_pred \<Rightarrow> 'a::len word \<Rightarrow> 'a word \<Rightarrow> bool" where
  "word_icmp ICMP_SGT a b = (sint a > sint b)"
| "word_icmp ICMP_UGT a b = (uint a > uint b)"
| "word_icmp ICMP_SLT a b = (sint a < sint b)"
| "word_icmp ICMP_ULT a b = (uint a < uint b)"
| "word_icmp ICMP_SGE a b = (sint a \<ge> sint b)"
| "word_icmp ICMP_UGE a b = (uint a \<ge> uint b)"
| "word_icmp ICMP_SLE a b = (sint a \<le> sint b)"
| "word_icmp ICMP_ULE a b = (uint a \<le> uint b)"
| "word_icmp ICMP_EQ a b = (a = b)"
| "word_icmp ICMP_NE a b = (a \<noteq> b)"

fun ir_icmp :: "icmp_pred \<Rightarrow> ir_value \<Rightarrow> ir_value \<Rightarrow> bool option" where
  "ir_icmp p (VI1 a) y = (case y of VI1 b \<Rightarrow> Some (word_icmp p a b) | _ \<Rightarrow> None)"
| "ir_icmp p (VI8 a) y = (case y of VI8 b \<Rightarrow> Some (word_icmp p a b) | _ \<Rightarrow> None)"
| "ir_icmp p (VI16 a) y = (case y of VI16 b \<Rightarrow> Some (word_icmp p a b) | _ \<Rightarrow> None)"
| "ir_icmp p (VI32 a) y = (case y of VI32 b \<Rightarrow> Some (word_icmp p a b) | _ \<Rightarrow> None)"
| "ir_icmp p (VI64 a) y = (case y of VI64 b \<Rightarrow> Some (word_icmp p a b) | _ \<Rightarrow> None)"
| "ir_icmp p _ y = None"

text \<open>
  A binary interchange format of IEEE 754 with \<open>e\<close> exponent and \<open>m\<close> fraction bits. Numbers
  that are not NaN are ordered as the sign and magnitude their bits spell, the two zeros
  being equal.
\<close>

definition fp_is_nan :: "nat \<Rightarrow> nat \<Rightarrow> nat \<Rightarrow> bool" where
  "fp_is_nan e m n \<longleftrightarrow> n div 2 ^ m mod 2 ^ e = 2 ^ e - 1 \<and> n mod 2 ^ m \<noteq> 0"

definition fp_key :: "nat \<Rightarrow> nat \<Rightarrow> nat \<Rightarrow> int" where
  "fp_key e m n =
     (if n div 2 ^ (e + m) mod 2 = 1 then - int (n mod 2 ^ (e + m)) else int (n mod 2 ^ (e + m)))"

fun key_fcmp :: "fcmp_pred \<Rightarrow> int \<Rightarrow> int \<Rightarrow> bool" where
  "key_fcmp FCMP_OGT a b = (a > b)"
| "key_fcmp FCMP_OLT a b = (a < b)"
| "key_fcmp FCMP_OGE a b = (a \<ge> b)"
| "key_fcmp FCMP_OLE a b = (a \<le> b)"
| "key_fcmp FCMP_OEQ a b = (a = b)"
| "key_fcmp FCMP_ONE a b = (a \<noteq> b)"

definition fp_fcmp :: "nat \<Rightarrow> nat \<Rightarrow> fcmp_pred \<Rightarrow> nat \<Rightarrow> nat \<Rightarrow> bool" where
  "fp_fcmp e m p a b \<longleftrightarrow>
     \<not> fp_is_nan e m a \<and> \<not> fp_is_nan e m b \<and> key_fcmp p (fp_key e m a) (fp_key e m b)"

fun ir_fcmp :: "fcmp_pred \<Rightarrow> ir_value \<Rightarrow> ir_value \<Rightarrow> bool option" where
  "ir_fcmp p (VF16 a) y =
     (case y of VF16 b \<Rightarrow> Some (fp_fcmp 5 10 p (unat a) (unat b)) | _ \<Rightarrow> None)"
| "ir_fcmp p (VF32 a) y =
     (case y of VF32 b \<Rightarrow> Some (fp_fcmp 8 23 p (unat a) (unat b)) | _ \<Rightarrow> None)"
| "ir_fcmp p (VF64 a) y =
     (case y of VF64 b \<Rightarrow> Some (fp_fcmp 11 52 p (unat a) (unat b)) | _ \<Rightarrow> None)"
| "ir_fcmp p _ y = None"

definition i1 :: "bool \<Rightarrow> ir_value" where
  "i1 b = VI1 (of_bool b)"

definition int_type :: "ir_type \<Rightarrow> bool" where
  "int_type t \<longleftrightarrow> t \<in> {TI1, TI8, TI16, TI32, TI64}"

definition float_type :: "ir_type \<Rightarrow> bool" where
  "float_type t \<longleftrightarrow> t \<in> {TF16, TF32, TF64}"

section \<open>Execution\<close>

record frame =
  regs :: "nat \<rightharpoonup> ir_value"
  slots :: "nat \<rightharpoonup> ir_value"
  bitmap :: "byte list"

datatype outcome =
    Continue frame
  | Jump string frame
  | Return "ir_value option" frame

definition well_typed_opt :: "'a option \<Rightarrow> 'a result" where
  "well_typed_opt x = (case x of None \<Rightarrow> Inl IllFormed | Some v \<Rightarrow> Inr v)"

lemma well_typed_opt_simps [simp]:
  "well_typed_opt None = Inl IllFormed" "well_typed_opt (Some v) = Inr v"
  by (simp_all add: well_typed_opt_def)

definition defined_opt :: "'a option \<Rightarrow> 'a result" where
  "defined_opt x = (case x of None \<Rightarrow> Inl UndefinedValue | Some v \<Rightarrow> Inr v)"

lemma defined_opt_simps [simp]:
  "defined_opt None = Inl UndefinedValue" "defined_opt (Some v) = Inr v"
  by (simp_all add: defined_opt_def)

text \<open>The operands of an integer operation have one integer type.\<close>

definition binop_result :: "binop \<Rightarrow> ir_value \<Rightarrow> ir_value \<Rightarrow> ir_value result" where
  "binop_result f a b =
     (if type_of a = type_of b \<and> int_type (type_of a) then defined_opt (ir_binop f a b)
      else Inl IllFormed)"

lemma binop_result_simps [simp]:
  "binop_result f (VI1 a1) (VI1 b1) = defined_opt (map_option VI1 (word_binop f a1 b1))"
  "binop_result f (VI8 a8) (VI8 b8) = defined_opt (map_option VI8 (word_binop f a8 b8))"
  "binop_result f (VI16 a16) (VI16 b16) = defined_opt (map_option VI16 (word_binop f a16 b16))"
  "binop_result f (VI32 a32) (VI32 b32) = defined_opt (map_option VI32 (word_binop f a32 b32))"
  "binop_result f (VI64 a64) (VI64 b64) = defined_opt (map_option VI64 (word_binop f a64 b64))"
  by (simp_all add: binop_result_def int_type_def)

lemma binop_result_i1 [simp]:
  "binop_result And (i1 a) (i1 b) = Inr (i1 (a \<and> b))"
  "binop_result Or (i1 a) (i1 b) = Inr (i1 (a \<or> b))"
  by (auto simp: i1_def)

fun operand_value :: "ir_value list \<Rightarrow> frame \<Rightarrow> operand \<Rightarrow> ir_value result" where
  "operand_value args s (Const v) = Inr v"
| "operand_value args s (Reg r) = well_typed_opt (regs s r)"
| "operand_value args s (Arg i) = (if i < length args then Inr (args ! i) else Inl IllFormed)"

abbreviation set_reg :: "nat \<Rightarrow> ir_value \<Rightarrow> frame \<Rightarrow> frame" where
  "set_reg r v s \<equiv> s\<lparr>regs := (regs s)(r \<mapsto> v)\<rparr>"

definition read_bytes :: "byte list \<Rightarrow> int \<Rightarrow> nat \<Rightarrow> byte list result" where
  "read_bytes buf p n =
     (if 0 \<le> p \<and> nat p + n \<le> length buf then Inr (take n (drop (nat p) buf)) else Inl OutOfBounds)"

fun load_value :: "byte list \<Rightarrow> frame \<Rightarrow> ir_value \<Rightarrow> ir_value result" where
  "load_value src s (VPtr t (Slot r)) =
     bindE (defined_opt (slots s r)) (\<lambda>v. if type_of v = t then Inr v else Inl IllFormed)"
| "load_value src s (VPtr t (Cell g p)) =
     bindE (read_bytes (case g of Source \<Rightarrow> src | Bitmap \<Rightarrow> bitmap s) p (type_size t))
       (\<lambda>bs. well_typed_opt (decode t bs))"
| "load_value src s _ = Inl IllFormed"

text \<open>
  Only single bytes are ever stored outside the stack slots, and only into the bitmap: the
  source buffer is read only.
\<close>

fun store_value :: "ir_value \<Rightarrow> ir_value \<Rightarrow> frame \<Rightarrow> frame result" where
  "store_value v (VPtr t (Slot r)) s =
     (if type_of v = t then Inr (s\<lparr>slots := (slots s)(r \<mapsto> v)\<rparr>) else Inl IllFormed)"
| "store_value v (VPtr t (Cell g p)) s =
     (case v of
        VI8 b \<Rightarrow>
          if t = TI8 then
            if g = Bitmap \<and> 0 \<le> p \<and> nat p < length (bitmap s)
            then Inr (s\<lparr>bitmap := (bitmap s)[nat p := b]\<rparr>) else Inl OutOfBounds
          else Inl IllFormed
      | _ \<Rightarrow> Inl IllFormed)"
| "store_value v _ s = Inl IllFormed"

fun index_int :: "ir_value \<Rightarrow> int result" where
  "index_int (VI8 w) = Inr (sint w)"
| "index_int (VI16 w) = Inr (sint w)"
| "index_int (VI32 w) = Inr (sint w)"
| "index_int (VI64 w) = Inr (sint w)"
| "index_int _ = Inl IllFormed"

fun gep :: "ir_value \<Rightarrow> int \<Rightarrow> ir_value result" where
  "gep (VPtr t (Cell g p)) i = Inr (VPtr t (Cell g (p + i * int (type_size t))))"
| "gep _ i = Inl IllFormed"

fun zext :: "ir_type \<Rightarrow> ir_value \<Rightarrow> ir_value result" where
  "zext TI8 (VI1 w) = Inr (VI8 (ucast w))"
| "zext _ _ = Inl IllFormed"

fun ptr_cast :: "ir_type \<Rightarrow> ir_value \<Rightarrow> ir_value result" where
  "ptr_cast (TPtr t) (VPtr _ p) = Inr (VPtr t p)"
| "ptr_cast _ _ = Inl IllFormed"

text \<open>
  One instruction. \<open>call\<close> runs another function of the module on values; the emitted
  callee takes its argument by value and does not touch memory.
\<close>

fun exec_instr :: "(string \<Rightarrow> ir_value list \<Rightarrow> ir_value result) \<Rightarrow> byte list \<Rightarrow> ir_value list \<Rightarrow>
    instr \<Rightarrow> frame \<Rightarrow> outcome result" where
  "exec_instr call src args (Alloca r t) s = Inr (Continue (set_reg r (VPtr t (Slot r)) s))"
| "exec_instr call src args (Load r p) s =
     bindE (operand_value args s p) (\<lambda>vp.
     bindE (load_value src s vp) (\<lambda>v. Inr (Continue (set_reg r v s))))"
| "exec_instr call src args (Store x p) s =
     bindE (operand_value args s x) (\<lambda>vx.
     bindE (operand_value args s p) (\<lambda>vp.
     bindE (store_value vx vp s) (\<lambda>s'. Inr (Continue s'))))"
| "exec_instr call src args (BinOp r f x y) s =
     bindE (operand_value args s x) (\<lambda>vx.
     bindE (operand_value args s y) (\<lambda>vy.
     bindE (binop_result f vx vy) (\<lambda>v. Inr (Continue (set_reg r v s)))))"
| "exec_instr call src args (ICmp r p x y) s =
     bindE (operand_value args s x) (\<lambda>vx.
     bindE (operand_value args s y) (\<lambda>vy.
     bindE (well_typed_opt (ir_icmp p vx vy)) (\<lambda>b. Inr (Continue (set_reg r (i1 b) s)))))"
| "exec_instr call src args (FCmp r p x y) s =
     bindE (operand_value args s x) (\<lambda>vx.
     bindE (operand_value args s y) (\<lambda>vy.
     bindE (well_typed_opt (ir_fcmp p vx vy)) (\<lambda>b. Inr (Continue (set_reg r (i1 b) s)))))"
| "exec_instr call src args (ZExt r t x) s =
     bindE (operand_value args s x) (\<lambda>vx.
     bindE (zext t vx) (\<lambda>v. Inr (Continue (set_reg r v s))))"
| "exec_instr call src args (PtrCast r t x) s =
     bindE (operand_value args s x) (\<lambda>vx.
     bindE (ptr_cast t vx) (\<lambda>v. Inr (Continue (set_reg r v s))))"
| "exec_instr call src args (GEP r p i) s =
     bindE (operand_value args s p) (\<lambda>vp.
     bindE (operand_value args s i) (\<lambda>vi.
     bindE (index_int vi) (\<lambda>k.
     bindE (gep vp k) (\<lambda>v. Inr (Continue (set_reg r v s))))))"
| "exec_instr call src args (Call r f xs) s =
     bindE (mapE (operand_value args s) xs) (\<lambda>vs.
     bindE (call f vs) (\<lambda>v. Inr (Continue (set_reg r v s))))"
| "exec_instr call src args (Br l) s = Inr (Jump l s)"
| "exec_instr call src args (CondBr c l1 l2) s =
     bindE (operand_value args s c) (\<lambda>v.
       case v of VI1 b \<Rightarrow> Inr (Jump (if b = 1 then l1 else l2) s) | _ \<Rightarrow> Inl IllFormed)"
| "exec_instr call src args (Ret x) s =
     bindE (operand_value args s x) (\<lambda>v. Inr (Return (Some v) s))"
| "exec_instr call src args RetVoid s = Inr (Return None s)"

text \<open>A basic block runs to its terminator.\<close>

fun exec_block :: "(string \<Rightarrow> ir_value list \<Rightarrow> ir_value result) \<Rightarrow> byte list \<Rightarrow> ir_value list \<Rightarrow>
    instr list \<Rightarrow> frame \<Rightarrow> outcome result" where
  "exec_block call src args [] s = Inl IllFormed"
| "exec_block call src args (x # xs) s =
     bindE (exec_instr call src args x s) (\<lambda>out.
       case out of Continue s' \<Rightarrow> exec_block call src args xs s' | _ \<Rightarrow> Inr out)"

text \<open>From block to block; every block costs one unit of fuel.\<close>

fun run_blocks :: "(string \<Rightarrow> ir_value list \<Rightarrow> ir_value result) \<Rightarrow> byte list \<Rightarrow> ir_value list \<Rightarrow>
    (string \<times> instr list) list \<Rightarrow> nat \<Rightarrow> string \<Rightarrow> frame \<Rightarrow>
    (ir_value option \<times> byte list) result" where
  "run_blocks call src args bs 0 l s = Inl OutOfFuel"
| "run_blocks call src args bs (Suc n) l s =
     bindE (well_typed_opt (map_of bs l)) (\<lambda>b.
     bindE (exec_block call src args b s) (\<lambda>out.
       case out of Jump l' s' \<Rightarrow> run_blocks call src args bs n l' s'
       | Return v s' \<Rightarrow> Inr (v, bitmap s')
       | Continue _ \<Rightarrow> Inl IllFormed))"

definition run_function :: "(string \<Rightarrow> ir_value list \<Rightarrow> ir_value result) \<Rightarrow> nat \<Rightarrow> ir_function \<Rightarrow>
    ir_value list \<Rightarrow> byte list \<Rightarrow> byte list \<Rightarrow> (ir_value option \<times> byte list) result" where
  "run_function call fuel f args src bmp =
     (if map type_of args = fn_params f \<and> fn_blocks f \<noteq> []
      then run_blocks call src args (fn_blocks f) fuel (fst (hd (fn_blocks f)))
             \<lparr>regs = Map.empty, slots = Map.empty, bitmap = bmp\<rparr>
      else Inl IllFormed)"

definition get_function :: "ir_module \<Rightarrow> string \<Rightarrow> ir_function option" where
  "get_function M name = find (\<lambda>f. fn_name f = name) (mod_functions M)"

lemma find_distinct:
  "distinct (map key xs) \<Longrightarrow> x \<in> set xs \<Longrightarrow> find (\<lambda>y. key y = key x) xs = Some x"
  by (induction xs) force+

fun module_call :: "nat \<Rightarrow> ir_module \<Rightarrow> string \<Rightarrow> ir_value list \<Rightarrow> ir_value result" where
  "module_call 0 M name args = Inl OutOfFuel"
| "module_call (Suc n) M name args =
     bindE (well_typed_opt (get_function M name)) (\<lambda>f.
     bindE (run_function (module_call n M) (Suc n) f args [] []) (\<lambda>(v, _).
       well_typed_opt v))"

text \<open>A call of an external function of a module from the host, with the two buffers it gets.\<close>

definition invoke :: "nat \<Rightarrow> ir_module \<Rightarrow> ir_function \<Rightarrow> ir_value list \<Rightarrow> byte list \<Rightarrow> byte list \<Rightarrow>
    byte list result" where
  "invoke fuel M f args src bmp =
     bindE (run_function (module_call fuel M) fuel f args src bmp) (\<lambda>(_, bmp'). Inr bmp')"

section \<open>Facts about execution\<close>

text \<open>Code without a terminator runs through; what follows it takes over.\<close>

fun exec_straight :: "(string \<Rightarrow> ir_value list \<Rightarrow> ir_value result) \<Rightarrow> byte list \<Rightarrow> ir_value list \<Rightarrow>
    instr list \<Rightarrow> frame \<Rightarrow> frame result" where
  "exec_straight call src args [] s = Inr s"
| "exec_straight call src args (x # xs) s =
     bindE (exec_instr call src args x s) (\<lambda>out.
       case out of Continue s' \<Rightarrow> exec_straight call src args xs s' | _ \<Rightarrow> Inl IllFormed)"

lemma exec_straight_append:
  "exec_straight call src args (xs @ ys) s =
     bindE (exec_straight call src args xs s) (exec_straight call src args ys)"
proof (induction xs arbitrary: s)
  case (Cons x xs)
  then show ?case
    by (cases "exec_instr call src args x s") (auto split: outcome.splits)
qed simp

lemma exec_block_append:
  assumes "exec_straight call src args xs s = Inr s'"
  shows "exec_block call src args (xs @ ys) s = exec_block call src args ys s'"
  using assms
proof (induction xs arbitrary: s)
  case (Cons x xs)
  then show ?case
    by (cases "exec_instr call src args x s") (auto split: outcome.splits)
qed simp

lemma read_bytes_ok [simp]:
  "p + n \<le> length buf \<Longrightarrow> read_bytes buf (int p) n = Inr (take n (drop p buf))"
  by (simp add: read_bytes_def)

text \<open>Emitted code does not throw: it returns, or it runs into undefined behaviour or out of fuel.\<close>

definition not_thrown :: "'a result \<Rightarrow> bool" where
  "not_thrown r \<longleftrightarrow> (\<forall>x. r \<noteq> Inl (Thrown x))"

lemma not_thrown_simps [simp]:
  "not_thrown (Inr y)" "not_thrown (Inl IllFormed)" "not_thrown (Inl UndefinedValue)"
  "not_thrown (Inl OutOfBounds)"
  "not_thrown (Inl OutOfFuel)" "not_thrown (Inl NullPointer)" "\<not> not_thrown (Inl (Thrown x))"
  by (auto simp: not_thrown_def)

lemma not_thrown_bindE:
  "not_thrown m \<Longrightarrow> (\<And>x. not_thrown (f x)) \<Longrightarrow> not_thrown (bindE m f)"
  by (cases m) (auto simp: not_thrown_def)

lemma not_thrown_mapE: "(\<And>x. not_thrown (f x)) \<Longrightarrow> not_thrown (mapE f xs)"
  by (induction xs) (auto intro!: not_thrown_bindE)

lemma not_thrown_defined [simp]:
  "not_thrown (defined_opt x)" "not_thrown (binop_result f a b)"
  by (cases x; cases "ir_binop f a b"; simp add: binop_result_def)+

lemma not_thrown_steps [simp]:
  "not_thrown (well_typed_opt x)" "not_thrown (operand_value args s a)" "not_thrown (read_bytes buf p n)"
  "not_thrown (load_value src s v)" "not_thrown (store_value v ptr s)" "not_thrown (index_int v)"
  "not_thrown (gep v i)" "not_thrown (zext t v)" "not_thrown (ptr_cast t v)"
proof -
  show opt: "not_thrown (well_typed_opt x)" for x :: "'z option" by (cases x) auto
  show "not_thrown (operand_value args s a)" by (cases a) (auto simp: opt)
  show read: "not_thrown (read_bytes buf p n)" for buf p n by (simp add: read_bytes_def)
  show "not_thrown (load_value src s v)"
    by (cases "(src, s, v)" rule: load_value.cases) (auto simp: opt read intro!: not_thrown_bindE)
  show "not_thrown (store_value v ptr s)" 
    by (cases "(v, ptr, s)" rule: store_value.cases) (auto split: ir_value.split)
  show "not_thrown (index_int v)" by (cases v) auto
  show "not_thrown (gep v i)" by (cases "(v, i)" rule: gep.cases) auto
  show "not_thrown (zext t v)" by (cases "(t, v)" rule: zext.cases) auto
  show "not_thrown (ptr_cast t v)" by (cases "(t, v)" rule: ptr_cast.cases) auto
qed

lemma exec_instr_not_thrown:
  "(\<And>f vs. not_thrown (call f vs)) \<Longrightarrow> not_thrown (exec_instr call src args x s)"
  by (cases x) (auto intro!: not_thrown_bindE not_thrown_mapE split: ir_value.split)

lemma exec_block_not_thrown:
  assumes "\<And>f vs. not_thrown (call f vs)"
  shows "not_thrown (exec_block call src args b s)"
  by (induction b arbitrary: s)
    (auto intro!: not_thrown_bindE exec_instr_not_thrown assms split: outcome.split)

lemma run_blocks_not_thrown:
  assumes "\<And>f vs. not_thrown (call f vs)"
  shows "not_thrown (run_blocks call src args bs n l s)"
  by (induction n arbitrary: l s)
    (auto intro!: not_thrown_bindE exec_block_not_thrown assms split: outcome.split)

lemma run_function_not_thrown:
  assumes "\<And>f vs. not_thrown (call f vs)"
  shows "not_thrown (run_function call n f args src bmp)"
  using run_blocks_not_thrown [OF assms] by (simp add: run_function_def)

lemma module_call_not_thrown: "not_thrown (module_call n M f vs)"
proof (induction n arbitrary: f vs)
  case (Suc n)
  then show ?case
    by (auto intro!: not_thrown_bindE run_function_not_thrown)
qed simp

lemma invoke_not_thrown: "not_thrown (invoke n M f args src bmp)"
  by (auto simp: invoke_def intro!: not_thrown_bindE run_function_not_thrown module_call_not_thrown)

end
