(* ===== verification/IR_Typing.thy ===== *)
theory IR_Typing
  imports LLVM_IR
begin

text \<open>
  The rules of LLVM's verifier for the modelled part of the IR, as an executable check: types
  of operands, single assignment, definitions that dominate their uses, terminated blocks, calls
  that fit their callee. The check infers which registers are available at the entry of every
  block and then verifies every block against this certificate. Its soundness theorem says that
  code it accepts never becomes \<open>IllFormed\<close>.
\<close>

section \<open>Static types\<close>

text \<open>Stack slots are kept apart from pointers into the buffers.\<close>

datatype static_type = Val ir_type | SlotPtr ir_type

type_synonym type_env = "(nat \<times> static_type) list"

record typing_context =
  signatures :: "(string \<times> ir_type list \<times> ir_type option) list"
  params :: "ir_type list"
  ret :: "ir_type option"
  allocas :: "(nat \<times> ir_type) list"

fun is_pointer :: "ir_type \<Rightarrow> bool" where
  "is_pointer (TPtr _) = True"
| "is_pointer _ = False"

definition loadable :: "ir_type \<Rightarrow> bool" where
  "loadable t \<longleftrightarrow> t \<noteq> TI1 \<and> \<not> is_pointer t"

definition index_type :: "ir_type \<Rightarrow> bool" where
  "index_type t \<longleftrightarrow> t \<in> {TI8, TI16, TI32, TI64}"

fun operand_type :: "typing_context \<Rightarrow> type_env \<Rightarrow> operand \<Rightarrow> static_type option" where
  "operand_type C env (Const v) = (if is_pointer (type_of v) then None else Some (Val (type_of v)))"
| "operand_type C env (Reg r) = map_of env r"
| "operand_type C env (Arg i) = (if i < length (params C) then Some (Val (params C ! i)) else None)"

text \<open>An instruction extends the environment or leaves the block for one of some labels.\<close>

datatype flow = Next type_env | Leave "string list"

definition bind_reg :: "bool \<Rightarrow> nat \<Rightarrow> static_type \<Rightarrow> type_env \<Rightarrow> flow option" where
  "bind_reg ok r T env = (if ok then Some (Next ((r, T) # env)) else None)"

fun load_type :: "static_type option \<Rightarrow> ir_type option" where
  "load_type (Some (SlotPtr t)) = Some t"
| "load_type (Some (Val (TPtr t))) = (if loadable t then Some t else None)"
| "load_type _ = None"

fun store_ok :: "static_type option \<Rightarrow> static_type option \<Rightarrow> bool" where
  "store_ok (Some (Val t)) (Some (SlotPtr t')) \<longleftrightarrow> t = t'"
| "store_ok (Some (Val t)) (Some (Val (TPtr t'))) \<longleftrightarrow> t = TI8 \<and> t' = TI8"
| "store_ok _ _ \<longleftrightarrow> False"

fun same_type :: "static_type option \<Rightarrow> static_type option \<Rightarrow> ir_type option" where
  "same_type (Some (Val t)) (Some (Val t')) = (if t = t' then Some t else None)"
| "same_type _ _ = None"

fun pointee :: "static_type option \<Rightarrow> ir_type option" where
  "pointee (Some (Val (TPtr t))) = Some t"
| "pointee _ = None"

definition call_type :: "typing_context \<Rightarrow> string \<Rightarrow> static_type option list \<Rightarrow> ir_type option" where
  "call_type C f Ts =
     (case map_of (signatures C) f of
        Some (ps, Some t) \<Rightarrow>
          if Ts = map (\<lambda>p. Some (Val p)) ps \<and> \<not> list_ex is_pointer ps then Some t else None
      | _ \<Rightarrow> None)"

fun type_instr :: "typing_context \<Rightarrow> type_env \<Rightarrow> instr \<Rightarrow> flow option" where
  "type_instr C env (Alloca r t) = bind_reg (map_of (allocas C) r = Some t) r (SlotPtr t) env"
| "type_instr C env (Load r p) =
     (case load_type (operand_type C env p) of
        Some t \<Rightarrow> bind_reg True r (Val t) env
      | None \<Rightarrow> None)"
| "type_instr C env (Store x p) =
     (if store_ok (operand_type C env x) (operand_type C env p) then Some (Next env) else None)"
| "type_instr C env (BinOp r f x y) =
     (case same_type (operand_type C env x) (operand_type C env y) of
        Some t \<Rightarrow> bind_reg (int_type t) r (Val t) env
      | None \<Rightarrow> None)"
| "type_instr C env (ICmp r p x y) =
     (case same_type (operand_type C env x) (operand_type C env y) of
        Some t \<Rightarrow> bind_reg (int_type t) r (Val TI1) env
      | None \<Rightarrow> None)"
| "type_instr C env (FCmp r p x y) =
     (case same_type (operand_type C env x) (operand_type C env y) of
        Some t \<Rightarrow> bind_reg (float_type t) r (Val TI1) env
      | None \<Rightarrow> None)"
| "type_instr C env (ZExt r t x) =
     bind_reg (t = TI8 \<and> operand_type C env x = Some (Val TI1)) r (Val t) env"
| "type_instr C env (PtrCast r t x) =
     bind_reg (is_pointer t \<and> pointee (operand_type C env x) \<noteq> None) r (Val t) env"
| "type_instr C env (GEP r p i) =
     (case (pointee (operand_type C env p), operand_type C env i) of
        (Some t, Some (Val k)) \<Rightarrow> bind_reg (index_type k) r (Val (TPtr t)) env
      | _ \<Rightarrow> None)"
| "type_instr C env (Call r f xs) =
     (case call_type C f (map (operand_type C env) xs) of
        Some t \<Rightarrow> bind_reg True r (Val t) env
      | None \<Rightarrow> None)"
| "type_instr C env (Br l) = Some (Leave [l])"
| "type_instr C env (CondBr c l1 l2) =
     (if operand_type C env c = Some (Val TI1) then Some (Leave [l1, l2]) else None)"
| "type_instr C env (Ret x) =
     (case ret C of
        Some t \<Rightarrow> if operand_type C env x = Some (Val t) then Some (Leave []) else None
      | None \<Rightarrow> None)"
| "type_instr C env RetVoid = (if ret C = None then Some (Leave []) else None)"

fun type_block :: "typing_context \<Rightarrow> type_env \<Rightarrow> instr list \<Rightarrow> (type_env \<times> string list) option" where
  "type_block C env [] = None"
| "type_block C env (x # xs) =
     (case type_instr C env x of
        None \<Rightarrow> None
      | Some (Next env') \<Rightarrow> type_block C env' xs
      | Some (Leave ls) \<Rightarrow> if xs = [] then Some (env, ls) else None)"

section \<open>Functions and modules\<close>

text \<open>The environment a block is entered with: that of the first jump to it.\<close>

fun add_entries :: "type_env \<Rightarrow> string list \<Rightarrow> (string \<times> type_env) list \<Rightarrow> (string \<times> type_env) list" where
  "add_entries env [] cert = cert"
| "add_entries env (l # ls) cert =
     add_entries env ls (case map_of cert l of None \<Rightarrow> cert @ [(l, env)] | Some _ \<Rightarrow> cert)"

fun infer_entries :: "typing_context \<Rightarrow> (string \<times> type_env) list \<Rightarrow> (string \<times> instr list) list \<Rightarrow>
    (string \<times> type_env) list option" where
  "infer_entries C cert [] = Some cert"
| "infer_entries C cert ((l, b) # bs) =
     (case map_of cert l of
        None \<Rightarrow> None
      | Some env \<Rightarrow>
          (case type_block C env b of
             None \<Rightarrow> None
           | Some (env', ls) \<Rightarrow> infer_entries C (add_entries env' ls cert) bs))"

definition env_within :: "type_env \<Rightarrow> type_env \<Rightarrow> bool" where
  "env_within env env' \<longleftrightarrow> list_all (\<lambda>(r, T). map_of env' r = Some T) env"

definition jump_ok :: "(string \<times> instr list) list \<Rightarrow> (string \<times> type_env) list \<Rightarrow> type_env \<Rightarrow> string \<Rightarrow> bool" where
  "jump_ok bs cert env l \<longleftrightarrow>
     l \<noteq> fst (hd bs) \<and> map_of bs l \<noteq> None \<and>
     (case map_of cert l of None \<Rightarrow> False | Some env' \<Rightarrow> env_within env' env)"

definition check_block :: "typing_context \<Rightarrow> (string \<times> instr list) list \<Rightarrow>
    (string \<times> type_env) list \<Rightarrow> string \<times> instr list \<Rightarrow> bool" where
  "check_block C bs cert lb =
     (case map_of cert (fst lb) of
        None \<Rightarrow> False
      | Some env \<Rightarrow>
          (case type_block C env (snd lb) of
             None \<Rightarrow> False
           | Some (env', ls) \<Rightarrow> list_all (jump_ok bs cert env') ls))"

fun defined_register :: "instr \<Rightarrow> nat list" where
  "defined_register (Alloca r _) = [r]"
| "defined_register (Load r _) = [r]"
| "defined_register (BinOp r _ _ _) = [r]"
| "defined_register (ICmp r _ _ _) = [r]"
| "defined_register (FCmp r _ _ _) = [r]"
| "defined_register (ZExt r _ _) = [r]"
| "defined_register (PtrCast r _ _) = [r]"
| "defined_register (GEP r _ _) = [r]"
| "defined_register (Call r _ _) = [r]"
| "defined_register _ = []"

fun alloca_of :: "instr \<Rightarrow> (nat \<times> ir_type) list" where
  "alloca_of (Alloca r t) = [(r, t)]"
| "alloca_of _ = []"

definition function_context :: "ir_module \<Rightarrow> ir_function \<Rightarrow> typing_context" where
  "function_context M f =
     \<lparr>signatures = map (\<lambda>g. (fn_name g, fn_params g, fn_ret g)) (mod_functions M),
      params = fn_params f, ret = fn_ret f,
      allocas = concat (map alloca_of (concat (map snd (fn_blocks f))))\<rparr>"

definition wt_function :: "ir_module \<Rightarrow> ir_function \<Rightarrow> bool" where
  "wt_function M f \<longleftrightarrow>
     fn_blocks f \<noteq> [] \<and> distinct (map fst (fn_blocks f)) \<and>
     distinct (concat (map defined_register (concat (map snd (fn_blocks f))))) \<and>
     (case infer_entries (function_context M f) [(fst (hd (fn_blocks f)), [])] (fn_blocks f) of
        None \<Rightarrow> False
      | Some cert \<Rightarrow>
          map_of cert (fst (hd (fn_blocks f))) = Some [] \<and>
          list_all (check_block (function_context M f) (fn_blocks f) cert) (fn_blocks f))"

definition wt_module :: "ir_module \<Rightarrow> bool" where
  "wt_module M \<longleftrightarrow>
     distinct (map fn_name (mod_functions M)) \<and> list_all (wt_function M) (mod_functions M)"

section \<open>Soundness\<close>

text \<open>A value of a static type; \<open>\<sigma>\<close> gives the types of the stack slots.\<close>

fun plain_value :: "ir_value \<Rightarrow> ir_type \<Rightarrow> bool" where
  "plain_value (VPtr t (Slot r)) ty \<longleftrightarrow> False"
| "plain_value v ty \<longleftrightarrow> type_of v = ty"

fun has_type :: "(nat \<rightharpoonup> ir_type) \<Rightarrow> ir_value \<Rightarrow> static_type \<Rightarrow> bool" where
  "has_type \<sigma> v (Val t) \<longleftrightarrow> plain_value v t"
| "has_type \<sigma> v (SlotPtr t) \<longleftrightarrow> (\<exists>r. v = VPtr t (Slot r) \<and> \<sigma> r = Some t)"

definition frame_ok :: "typing_context \<Rightarrow> type_env \<Rightarrow> frame \<Rightarrow> bool" where
  "frame_ok C env s \<longleftrightarrow>
     (\<forall>r T. map_of env r = Some T \<longrightarrow> (\<exists>v. regs s r = Some v \<and> has_type (map_of (allocas C)) v T)) \<and>
     (\<forall>r v. slots s r = Some v \<longrightarrow> (\<exists>t. map_of (allocas C) r = Some t \<and> plain_value v t))"

definition args_ok :: "typing_context \<Rightarrow> ir_value list \<Rightarrow> bool" where
  "args_ok C args \<longleftrightarrow> list_all2 plain_value args (params C)"

definition call_ok :: "typing_context \<Rightarrow> (string \<Rightarrow> ir_value list \<Rightarrow> ir_value result) \<Rightarrow> bool" where
  "call_ok C call \<longleftrightarrow>
     (\<forall>f ps t vs. map_of (signatures C) f = Some (ps, Some t) \<longrightarrow> list_all2 plain_value vs ps \<longrightarrow>
        (case call f vs of Inl e \<Rightarrow> e \<noteq> IllFormed | Inr v \<Rightarrow> plain_value v t))"

definition return_ok :: "ir_type option \<Rightarrow> ir_value option \<Rightarrow> bool" where
  "return_ok rt v \<longleftrightarrow> (case rt of None \<Rightarrow> v = None | Some t \<Rightarrow> \<exists>w. v = Some w \<and> plain_value w t)"

text \<open>What a well-typed piece of code may do: not be ill-formed, and keep a property of its results.\<close>

definition sound :: "'a result \<Rightarrow> ('a \<Rightarrow> bool) \<Rightarrow> bool" where
  "sound m P \<longleftrightarrow> (case m of Inl e \<Rightarrow> e \<noteq> IllFormed | Inr x \<Rightarrow> P x)"

lemma sound_simps [simp]:
  "sound (Inl e) P \<longleftrightarrow> e \<noteq> IllFormed" "sound (Inr x) P \<longleftrightarrow> P x"
  by (simp_all add: sound_def)

lemma sound_bindE:
  "sound m P \<Longrightarrow> (\<And>x. P x \<Longrightarrow> sound (f x) Q) \<Longrightarrow> sound (bindE m f) Q"
  by (cases m) auto

lemma sound_mono: "sound m P \<Longrightarrow> (\<And>x. P x \<Longrightarrow> Q x) \<Longrightarrow> sound m Q"
  by (cases m) auto

definition outcome_ok :: "typing_context \<Rightarrow> type_env \<Rightarrow> flow \<Rightarrow> outcome \<Rightarrow> bool" where
  "outcome_ok C env fl out \<longleftrightarrow>
     (case out of
        Continue s \<Rightarrow> \<exists>env'. fl = Next env' \<and> frame_ok C env' s
      | Jump l s \<Rightarrow> \<exists>ls. fl = Leave ls \<and> l \<in> set ls \<and> frame_ok C env s
      | Return v s \<Rightarrow> fl = Leave [] \<and> return_ok (ret C) v)"

lemma plain_value_type: "plain_value v t \<Longrightarrow> type_of v = t"
  by (cases "(v, t)" rule: plain_value.cases) auto

lemma plain_value_simps [simp]:
  "\<not> is_pointer (type_of v) \<Longrightarrow> plain_value v (type_of v)"
  "plain_value v (TPtr t) \<longleftrightarrow> (\<exists>g p. v = VPtr t (Cell g p))"
  "plain_value (i1 b) TI1"
proof -
  show "plain_value v (type_of v)" if "\<not> is_pointer (type_of v)"
    using that by (cases v) auto
  show "plain_value v (TPtr t) \<longleftrightarrow> (\<exists>g p. v = VPtr t (Cell g p))"
    by (cases "(v, TPtr t)" rule: plain_value.cases) auto
qed (simp add: i1_def)

lemma plain_value_iff:
  "\<not> is_pointer t \<Longrightarrow> plain_value v t \<longleftrightarrow> type_of v = t"
  by (cases "(v, t)" rule: plain_value.cases) auto

lemma operand_sound:
  assumes "operand_type C env x = Some T" and "frame_ok C env s" and "args_ok C args"
  shows "sound (operand_value args s x) (\<lambda>v. has_type (map_of (allocas C)) v T)"
proof (cases x)
  case (Reg r)
  with assms(1) have "map_of env r = Some T" by simp
  with assms(2) obtain v where "regs s r = Some v" "has_type (map_of (allocas C)) v T"
    unfolding frame_ok_def by blast
  with Reg show ?thesis by simp
qed (use assms in \<open>auto simp: args_ok_def list_all2_conv_all_nth split: if_splits\<close>)

lemma frame_ok_set_reg:
  "frame_ok C env s \<Longrightarrow> has_type (map_of (allocas C)) v T \<Longrightarrow> frame_ok C ((r, T) # env) (set_reg r v s)"
  by (auto simp: frame_ok_def)

text \<open>The operations on values.\<close>

lemma read_bytes_sound: "sound (read_bytes buf p n) (\<lambda>bs. True)"
  by (simp add: read_bytes_def)

lemma decode_loadable: "loadable t \<Longrightarrow> \<exists>v. decode t bs = Some v \<and> plain_value v t"
  by (cases t) (auto simp: loadable_def)

lemma load_sound:
  assumes "load_type (Some T) = Some t" and "has_type (map_of (allocas C)) v T" and "frame_ok C env s"
  shows "sound (load_value src s v) (\<lambda>w. plain_value w t)"
proof (cases T)
  case (SlotPtr u)
  with assms(1,2) obtain r where v: "v = VPtr t (Slot r)" "map_of (allocas C) r = Some t" by auto
  show ?thesis
  proof (cases "slots s r")
    case (Some w)
    with assms(3) v have "plain_value w t" by (fastforce simp: frame_ok_def)
    with Some v show ?thesis by (simp add: plain_value_type)
  qed (simp add: v)
next
  case (Val u)
  with assms(1) have t: "u = TPtr t" "loadable t"
    by (cases u; simp split: if_splits)+
  with Val assms(2) obtain g p where "v = VPtr t (Cell g p)" by auto
  then show ?thesis
    using decode_loadable [OF t(2)]
    by (auto intro!: sound_bindE [OF read_bytes_sound]) (metis sound_simps(2) well_typed_opt_simps(2))
qed

lemma store_sound:
  assumes "store_ok (Some S) (Some T)" and "has_type (map_of (allocas C)) v S"
    and "has_type (map_of (allocas C)) p T" and "frame_ok C env s"
  shows "sound (store_value v p s) (frame_ok C env)"
proof (cases T)
  case (SlotPtr t)
  with assms(1) have "S = Val t" by (cases S) auto
  with SlotPtr assms(2-4) show ?thesis by (auto simp: frame_ok_def plain_value_type)
next
  case (Val t)
  with assms(1) have "t = TPtr TI8" "S = Val TI8" by (cases S; cases t; auto)+
  with Val assms(2,3) obtain g i b where "p = VPtr TI8 (Cell g i)" "v = VI8 b"
    using plain_value_type [of v TI8] by (cases v) auto
  with assms(4) show ?thesis by (cases g) (auto simp: frame_ok_def)
qed

lemma same_type_Some: "same_type S T = Some t \<longleftrightarrow> S = Some (Val t) \<and> T = Some (Val t)"
  by (cases "(S, T)" rule: same_type.cases) auto

lemma pointee_Some: "pointee T = Some t \<longleftrightarrow> T = Some (Val (TPtr t))"
  by (cases T rule: pointee.cases) auto

lemma binop_sound:
  assumes "type_of a = t" and "type_of b = t" and "int_type t"
  shows "sound (binop_result f a b) (\<lambda>v. plain_value v t)"
  using assms by (cases a; cases b) (auto simp: int_type_def binop_result_def sound_def defined_opt_def split: option.splits)

lemma icmp_defined: "type_of a = t \<Longrightarrow> type_of b = t \<Longrightarrow> int_type t \<Longrightarrow> \<exists>x. ir_icmp p a b = Some x"
  by (cases a; cases b) (auto simp: int_type_def)

lemma fcmp_defined: "type_of a = t \<Longrightarrow> type_of b = t \<Longrightarrow> float_type t \<Longrightarrow> \<exists>x. ir_fcmp p a b = Some x"
  by (cases a; cases b) (auto simp: float_type_def)

lemma index_sound: "index_type (type_of v) \<Longrightarrow> sound (index_int v) (\<lambda>i. True)"
  by (cases v) (auto simp: index_type_def)

text \<open>One instruction.\<close>

lemma plain_args:
  assumes "map (operand_type C env) xs = map (\<lambda>p. Some (Val p)) ps"
    and "frame_ok C env s" and "args_ok C args"
  shows "sound (mapE (operand_value args s) xs) (\<lambda>vs. list_all2 plain_value vs ps)"
  using assms(1)
proof (induction xs arbitrary: ps)
  case (Cons x xs)
  then obtain p ps' where ps: "ps = p # ps'" "operand_type C env x = Some (Val p)"
    "map (operand_type C env) xs = map (\<lambda>p. Some (Val p)) ps'"
    by (cases ps) auto
  have "sound (operand_value args s x) (\<lambda>v. plain_value v p)"
    using operand_sound [OF ps(2) assms(2,3)] by simp
  with Cons.IH [OF ps(3)] show ?case
    by (auto simp: ps(1) elim!: sound_bindE intro!: sound_bindE)
qed simp

lemma define_sound:
  assumes "sound m (\<lambda>v. has_type (map_of (allocas C)) v T)" and "frame_ok C env s"
  shows "sound (bindE m (\<lambda>v. Inr (Continue (set_reg r v s)))) (outcome_ok C env (Next ((r, T) # env)))"
  using assms by (auto simp: outcome_ok_def frame_ok_set_reg intro: sound_bindE)

lemma operands_sound:
  assumes "operand_type C env x = Some (Val t)" and "operand_type C env y = Some (Val u)"
    and "frame_ok C env s" and "args_ok C args"
    and "\<And>a b. plain_value a t \<Longrightarrow> plain_value b u \<Longrightarrow> sound (f a b) Q"
  shows "sound (bindE (operand_value args s x) (\<lambda>a. bindE (operand_value args s y) (\<lambda>b. f a b))) Q"
  using operand_sound [OF assms(1,3,4)] operand_sound [OF assms(2-4)] assms(5)
  by (auto intro!: sound_bindE)

lemma define_bool_sound:
  assumes "\<exists>b. m = Some b" and "frame_ok C env s"
  shows "sound (bindE (well_typed_opt m) (\<lambda>b. Inr (Continue (set_reg r (i1 b) s))))
    (outcome_ok C env (Next ((r, Val TI1) # env)))"
  using assms by (auto simp: outcome_ok_def frame_ok_set_reg)

lemma arithmetic_sound:
  assumes "type_instr C env x = Some fl" and "frame_ok C env s" and "args_ok C args"
    and "x = BinOp r f y z \<or> x = ICmp r p y z \<or> x = FCmp r q y z"
  shows "sound (exec_instr call src args x s) (outcome_ok C env fl)"
proof -
  from assms(1,4) obtain t where t: "operand_type C env y = Some (Val t)" "operand_type C env z = Some (Val t)"
    by (auto simp: same_type_Some split: option.splits)
  note run = operands_sound [OF t assms(2,3)]
  from assms(4) show ?thesis
  proof (elim disjE)
    assume x: "x = BinOp r f y z"
    with assms(1) t have fl: "int_type t" "fl = Next ((r, Val t) # env)"
      by (auto simp: bind_reg_def split: if_splits)
    then show ?thesis
      by (simp add: x) (rule run, rule define_sound,
        use assms(2) binop_sound plain_value_type in \<open>auto simp: fl\<close>)
  next
    assume x: "x = ICmp r p y z"
    with assms(1) t have fl: "int_type t" "fl = Next ((r, Val TI1) # env)"
      by (auto simp: bind_reg_def split: if_splits)
    then show ?thesis
      by (simp add: x) (rule run, rule define_bool_sound,
        use assms(2) icmp_defined plain_value_type in \<open>auto simp: fl\<close>)
  next
    assume x: "x = FCmp r q y z"
    with assms(1) t have fl: "float_type t" "fl = Next ((r, Val TI1) # env)"
      by (auto simp: bind_reg_def split: if_splits)
    then show ?thesis
      by (simp add: x) (rule run, rule define_bool_sound,
        use assms(2) fcmp_defined plain_value_type in \<open>auto simp: fl\<close>)
  qed
qed

lemma memory_sound:
  assumes "type_instr C env x = Some fl" and "frame_ok C env s" and "args_ok C args"
    and "x = Alloca r t \<or> x = Load r p \<or> x = Store y p"
  shows "sound (exec_instr call src args x s) (outcome_ok C env fl)"
  using assms(4)
proof (elim disjE)
  assume x: "x = Alloca r t"
  with assms(1) have "map_of (allocas C) r = Some t" "fl = Next ((r, SlotPtr t) # env)"
    by (auto simp: bind_reg_def split: if_splits)
  with assms(2) x show ?thesis by (simp add: outcome_ok_def frame_ok_set_reg)
next
  assume x: "x = Load r p"
  with assms(1) obtain u T where T: "operand_type C env p = Some T" "load_type (Some T) = Some u"
    and fl: "fl = Next ((r, Val u) # env)"
    by (cases "operand_type C env p") (auto simp: bind_reg_def split: option.splits)
  show ?thesis
    unfolding x fl exec_instr.simps
    by (rule sound_bindE [OF operand_sound [OF T(1) assms(2,3)]], rule define_sound)
      (use load_sound [OF T(2) _ assms(2)] assms(2) in auto)
next
  assume x: "x = Store y p"
  with assms(1) obtain S T where T: "operand_type C env y = Some S" "operand_type C env p = Some T"
      "store_ok (Some S) (Some T)" and fl: "fl = Next env"
    by (cases "operand_type C env y"; cases "operand_type C env p") (auto split: if_splits)
  show ?thesis
    unfolding x fl exec_instr.simps
    by (rule sound_bindE [OF operand_sound [OF T(1) assms(2,3)]],
        rule sound_bindE [OF operand_sound [OF T(2) assms(2,3)]],
        rule sound_bindE [OF store_sound [OF T(3) _ _ assms(2)]])
      (auto simp: outcome_ok_def)
qed

lemma cast_sound:
  assumes "type_instr C env x = Some fl" and "frame_ok C env s" and "args_ok C args"
    and "x = ZExt r t y \<or> x = PtrCast r t y \<or> x = GEP r p i"
  shows "sound (exec_instr call src args x s) (outcome_ok C env fl)"
  using assms(4)
proof (elim disjE)
  assume x: "x = ZExt r t y"
  with assms(1) have T: "operand_type C env y = Some (Val TI1)"
    and fl: "t = TI8" "fl = Next ((r, Val TI8) # env)"
    by (auto simp: bind_reg_def split: if_splits)
  have "sound (zext TI8 v) (\<lambda>w. plain_value w TI8)" if "plain_value v TI1" for v
    using plain_value_type [OF that] by (cases v) auto
  then show ?thesis
    unfolding x fl exec_instr.simps
    by (intro sound_bindE [OF operand_sound [OF T assms(2,3)]] define_sound assms(2)) auto
next
  assume x: "x = PtrCast r t y"
  with assms(1) obtain u where T: "operand_type C env y = Some (Val (TPtr u))" "is_pointer t"
    and fl: "fl = Next ((r, Val t) # env)"
    by (auto simp: bind_reg_def pointee_Some split: if_splits)
  then obtain t' where "t = TPtr t'" by (cases t) auto
  then show ?thesis
    unfolding x fl exec_instr.simps
    by (intro sound_bindE [OF operand_sound [OF T(1) assms(2,3)]] define_sound assms(2)) auto
next
  assume x: "x = GEP r p i"
  with assms(1) obtain u k where T: "operand_type C env p = Some (Val (TPtr u))"
      "operand_type C env i = Some (Val k)" "index_type k" and fl: "fl = Next ((r, Val (TPtr u)) # env)"
    by (auto simp: bind_reg_def pointee_Some split: option.splits static_type.splits if_splits)
  show ?thesis
    unfolding x fl exec_instr.simps
    by (rule operands_sound [OF T(1,2) assms(2,3)], rule sound_bindE [OF index_sound],
        use T(3) plain_value_type in blast, rule define_sound) (use assms(2) in auto)
qed

lemma call_sound:
  assumes "type_instr C env (Call r f xs) = Some fl" and "frame_ok C env s" and "args_ok C args"
    and "call_ok C call"
  shows "sound (exec_instr call src args (Call r f xs) s) (outcome_ok C env fl)"
proof -
  from assms(1) obtain t ps where t: "map_of (signatures C) f = Some (ps, Some t)"
    and xs: "map (operand_type C env) xs = map (\<lambda>p. Some (Val p)) ps"
    and fl: "fl = Next ((r, Val t) # env)"
    by (auto simp: bind_reg_def call_type_def split: option.splits if_splits)
  have "sound (call f vs) (\<lambda>v. plain_value v t)" if "list_all2 plain_value vs ps" for vs
    using assms(4) t that unfolding call_ok_def sound_def by blast
  then show ?thesis
    unfolding fl exec_instr.simps
    by (intro sound_bindE [OF plain_args [OF xs assms(2,3)]] define_sound assms(2)) auto
qed

lemma terminator_sound:
  assumes "type_instr C env x = Some fl" and "frame_ok C env s" and "args_ok C args"
    and "x = Br l \<or> x = CondBr c l1 l2 \<or> x = Ret y \<or> x = RetVoid"
  shows "sound (exec_instr call src args x s) (outcome_ok C env fl)"
  using assms(4)
proof (elim disjE)
  assume x: "x = CondBr c l1 l2"
  with assms(1) have T: "operand_type C env c = Some (Val TI1)" and fl: "fl = Leave [l1, l2]"
    by (auto split: if_splits)
  have "sound (case v of VI1 b \<Rightarrow> Inr (Jump (if b = 1 then l1 else l2) s) | _ \<Rightarrow> Inl IllFormed)
      (outcome_ok C env fl)" if "plain_value v TI1" for v
    using plain_value_type [OF that] assms(2) by (cases v) (auto simp: outcome_ok_def fl)
  then show ?thesis
    unfolding x exec_instr.simps by (intro sound_bindE [OF operand_sound [OF T assms(2,3)]]) auto
next
  assume x: "x = Ret y"
  with assms(1) obtain t where T: "operand_type C env y = Some (Val t)" and "ret C = Some t" "fl = Leave []"
    by (auto split: option.splits if_splits)
  then show ?thesis
    unfolding x exec_instr.simps
    by (intro sound_bindE [OF operand_sound [OF T assms(2,3)]]) (auto simp: outcome_ok_def return_ok_def)
qed (use assms in \<open>auto simp: outcome_ok_def return_ok_def split: if_splits\<close>)

lemma instr_sound:
  assumes "type_instr C env x = Some fl" and "frame_ok C env s" and "args_ok C args" and "call_ok C call"
  shows "sound (exec_instr call src args x s) (outcome_ok C env fl)"
  by (cases x)
    ((rule arithmetic_sound [OF assms(1-3)] memory_sound [OF assms(1-3)] cast_sound [OF assms(1-3)]
        terminator_sound [OF assms(1-3)], blast) | (use assms call_sound in simp))+

text \<open>A block, a function, a call.\<close>

lemma block_sound:
  assumes "type_block C env b = Some (env', ls)" and "frame_ok C env s" and "args_ok C args"
    and "call_ok C call"
  shows "sound (exec_block call src args b s) (\<lambda>out. case out of
      Continue _ \<Rightarrow> False
    | Jump l s' \<Rightarrow> l \<in> set ls \<and> frame_ok C env' s'
    | Return v _ \<Rightarrow> return_ok (ret C) v)"
  using assms(1,2)
proof (induction b arbitrary: env s)
  case (Cons x b)
  then obtain fl where fl: "type_instr C env x = Some fl" by (auto split: option.splits)
  show ?case
    unfolding exec_block.simps
  proof (rule sound_bindE [OF instr_sound [OF fl Cons.prems(2) assms(3,4)]])
    fix out assume "outcome_ok C env fl out"
    with fl Cons show "sound (case out of Continue s' \<Rightarrow> exec_block call src args b s' | _ \<Rightarrow> Inr out)
        (\<lambda>out. case out of Continue _ \<Rightarrow> False | Jump l s' \<Rightarrow> l \<in> set ls \<and> frame_ok C env' s'
          | Return v _ \<Rightarrow> return_ok (ret C) v)"
      by (cases out) (auto simp: outcome_ok_def split: if_splits)
  qed
qed simp

lemma frame_ok_within: "env_within env env' \<Longrightarrow> frame_ok C env' s \<Longrightarrow> frame_ok C env s"
  unfolding frame_ok_def env_within_def list_all_iff by (blast dest: map_of_SomeD)

lemma run_blocks_sound:
  assumes cert: "list_all (check_block C bs cert) bs" and l: "map_of bs l \<noteq> None"
    and env: "map_of cert l = Some env" and s: "frame_ok C env s"
    and args: "args_ok C args" and call: "call_ok C call"
  shows "sound (run_blocks call src args bs n l s) (\<lambda>(v, _). return_ok (ret C) v)"
  using l env s
proof (induction n arbitrary: l env s)
  case (Suc n)
  then obtain b where b: "map_of bs l = Some b" by blast
  with cert have "check_block C bs cert (l, b)"
    by (auto simp: list_all_iff dest: map_of_SomeD)
  with Suc.prems(2) obtain env' ls where ty: "type_block C env b = Some (env', ls)"
    and ls: "list_all (jump_ok bs cert env') ls"
    by (auto simp: check_block_def split: option.splits)
  show ?case
    unfolding run_blocks.simps b well_typed_opt_simps bindE.simps
  proof (rule sound_bindE [OF block_sound [OF ty Suc.prems(3) args call]])
    fix out assume out: "case out of Continue _ \<Rightarrow> False
      | Jump l s' \<Rightarrow> l \<in> set ls \<and> frame_ok C env' s' | Return v _ \<Rightarrow> return_ok (ret C) v"
    show "sound (case out of Jump l' s' \<Rightarrow> run_blocks call src args bs n l' s'
        | Return v s' \<Rightarrow> Inr (v, bitmap s') | Continue _ \<Rightarrow> Inl IllFormed) (\<lambda>(v, _). return_ok (ret C) v)"
    proof (cases out)
      case (Jump l' s')
      with out ls have "jump_ok bs cert env' l'" "frame_ok C env' s'" by (auto simp: list_all_iff)
      then obtain env'' where "map_of bs l' \<noteq> None" "map_of cert l' = Some env''" "frame_ok C env'' s'"
        using frame_ok_within by (auto simp: jump_ok_def split: option.splits)
      with Suc.IH Jump show ?thesis by simp
    qed (use out in auto)
  qed
qed simp

lemma function_sound:
  assumes "wt_function M f" and "call_ok (function_context M f) call"
    and "list_all2 plain_value args (fn_params f)"
  shows "sound (run_function call n f args src bmp) (\<lambda>(v, _). return_ok (fn_ret f) v)"
proof -
  let ?C = "function_context M f" and ?bs = "fn_blocks f"
  from assms(1) obtain cert where cert: "?bs \<noteq> []" "map_of cert (fst (hd ?bs)) = Some []"
    "list_all (check_block ?C ?bs cert) ?bs"
    by (auto simp: wt_function_def split: option.splits)
  then have "map_of ?bs (fst (hd ?bs)) \<noteq> None" by (cases ?bs) auto
  moreover have "frame_ok ?C [] \<lparr>regs = Map.empty, slots = Map.empty, bitmap = bmp\<rparr>"
    by (simp add: frame_ok_def)
  moreover have "args_ok ?C args" using assms(3) by (simp add: args_ok_def function_context_def)
  moreover have "map type_of args = fn_params f"
    using assms(3) plain_value_type by (induction rule: list_all2_induct) auto
  ultimately show ?thesis
    using run_blocks_sound [OF cert(3) _ cert(2) _ _ assms(2)] cert(1)
    by (auto simp: run_function_def function_context_def)
qed

lemma get_function_signature:
  assumes "map_of (map (\<lambda>g. (fn_name g, fn_params g, fn_ret g)) (mod_functions M)) name = Some (ps, rt)"
  obtains f where "get_function M name = Some f" and "f \<in> set (mod_functions M)"
    and "fn_params f = ps" and "fn_ret f = rt"
proof -
  have "\<exists>f. find (\<lambda>f. fn_name f = name) fs = Some f \<and> f \<in> set fs \<and> fn_params f = ps \<and> fn_ret f = rt"
    if "map_of (map (\<lambda>g. (fn_name g, fn_params g, fn_ret g)) fs) name = Some (ps, rt)" for fs
    using that by (induction fs) (auto split: if_splits)
  from this [OF assms] show thesis using that by (auto simp: get_function_def)
qed

lemma module_call_ok:
  assumes "wt_module M"
  shows "call_ok (function_context M g) (module_call n M)"
  unfolding call_ok_def
proof (intro allI impI)
  fix name ps t vs
  assume "map_of (signatures (function_context M g)) name = Some (ps, Some t)" and vs: "list_all2 plain_value vs ps"
  then obtain f where f: "get_function M name = Some f" "f \<in> set (mod_functions M)" "fn_params f = ps"
    "fn_ret f = Some t"
    by (auto simp: function_context_def elim: get_function_signature)
  have "sound (module_call n M name vs) (\<lambda>v. plain_value v t)" if vs: "list_all2 plain_value vs ps"
    using f vs
  proof (induction n arbitrary: name f vs ps t)
    case (Suc n)
    have call: "call_ok (function_context M f) (module_call n M)"
      unfolding call_ok_def
      using Suc.IH by (auto simp: function_context_def sound_def elim!: get_function_signature)
    have "wt_function M f" using assms Suc.prems(2) by (simp add: wt_module_def list_all_iff)
    from function_sound [OF this call, of vs "Suc n" "[]" "[]"] Suc.prems
    have "sound (run_function (module_call n M) (Suc n) f vs [] []) (\<lambda>(v, _). return_ok (Some t) v)"
      by simp
    then show ?case
      unfolding module_call.simps Suc.prems(1) well_typed_opt_simps bindE.simps
      by (rule sound_bindE) (auto simp: return_ok_def)
  qed simp
  with vs show "case module_call n M name vs of Inl e \<Rightarrow> e \<noteq> IllFormed | Inr v \<Rightarrow> plain_value v t"
    by (simp add: sound_def)
qed

text \<open>The soundness theorem: a well-typed module, called with arguments of the right types, is never ill-formed.\<close>

lemma wt_module_sound:
  assumes "wt_module M" and "f \<in> set (mod_functions M)" and "list_all2 plain_value args (fn_params f)"
  shows "invoke n M f args src bmp \<noteq> Inl IllFormed"
proof -
  have "wt_function M f" using assms(1,2) by (simp add: wt_module_def list_all_iff)
  from function_sound [OF this module_call_ok [OF assms(1)] assms(3)]
  show ?thesis
    by (fastforce simp: invoke_def sound_def bindE_eq_Inl split: sum.splits)
qed

end
