(* ===== verification/LLVM_Objects.thy ===== *)
theory LLVM_Objects
  imports IR_Typing
begin

text \<open>
  The objects of LLVM that \<^verbatim>\<open>pefa/jit/jit.cpp\<close> configures and passes around, as the data the
  code writes and reads of them: the settings of an engine, the target machine, passes and the
  settings of a pass manager's builder, modules on their way through the layers, and symbols.
\<close>

section \<open>Engine and target\<close>

datatype engine_kind = EngineKind_JIT | EngineKind_Interpreter | EngineKind_Either

datatype codegen_opt_level =
  CodeGenOpt_None | CodeGenOpt_Less | CodeGenOpt_Default | CodeGenOpt_Aggressive

datatype fp_op_fusion = FPOpFusion_Fast | FPOpFusion_Standard | FPOpFusion_Strict

record target_options =
  AllowFPOpFusion :: fp_op_fusion

record engine_builder =
  MCPU :: string
  WhichEngine :: engine_kind
  CodeGenLevel :: codegen_opt_level
  Options :: target_options

text \<open>A \<open>TargetMachine\<close>: its target triple, its data layout and its target IR analysis.\<close>

record target_machine =
  target_triple :: string
  data_layout :: string
  ir_analysis :: string

section \<open>Passes\<close>

text \<open>
  The passes that the code creates itself; \<open>LibraryPass\<close> stands for every pass that LLVM's
  pass manager builders add on their own.
\<close>

datatype llvm_pass =
    VerifierPass
  | TargetLibraryInfoWrapperPass string
  | TargetTransformInfoWrapperPass string
  | FunctionInliningPass nat nat bool
  | LibraryPass string

record pass_manager_builder =
  OptLevel :: nat
  SizeLevel :: nat
  Inliner :: "llvm_pass option"
  LoopVectorize :: bool
  SLPVectorize :: bool
  VerifyInput :: bool

section \<open>Modules in the layers\<close>

text \<open>
  What LLVM does to a module cannot be expressed in the emitted fragment of the IR, so a module
  in the layers is the emitted one together with the transformations that were applied to it, in
  their order.
\<close>

datatype transformation =
    RunPass llvm_pass
  | DoInitialization "llvm_pass list"
  | RunOnFunction "llvm_pass list" string
  | DoFinalization "llvm_pass list"

record llvm_module =
  emitted :: ir_module
  applied :: "transformation list"

definition as_emitted :: "ir_module \<Rightarrow> llvm_module" where
  "as_emitted M = \<lparr>emitted = M, applied = []\<rparr>"

definition transform :: "transformation \<Rightarrow> llvm_module \<Rightarrow> llvm_module" where
  "transform t m = m\<lparr>applied := applied m @ [t]\<rparr>"

lemma as_emitted_sel [simp]: "emitted (as_emitted M) = M" "applied (as_emitted M) = []"
  by (simp_all add: as_emitted_def)

lemma transform_sel [simp]:
  "emitted (transform t m) = emitted m" "applied (transform t m) = applied m @ [t]"
  by (simp_all add: transform_def)

text \<open>A \<open>JITSymbol\<close> of the layers: null, an error, or a function of a module.\<close>

datatype jit_symbol =
    NoSymbol
  | SymbolError
  | FunctionSymbol llvm_module ir_function

end
