(* ===== verification/Third_Party.thy ===== *)
theory Third_Party
  imports LLVM_Objects
begin

text \<open>
  What pefa uses of Apache Arrow and of LLVM's JIT layers. Neither is part of the repository.
  Arrow's containers appear as the data their accessors return; every function of the two
  libraries with a behaviour of its own is a field of the record \<open>third_party\<close>, which the
  definitions of the model take as an argument, and \<open>third_party_ok\<close> states what the
  libraries document about these functions.
\<close>

section \<open>Arrow's data\<close>

text \<open>
  The type ids that \<^verbatim>\<open>create_empty_chunk_metadata\<close> enumerates
  (\<^verbatim>\<open>pefa/execution/execution_context.cpp\<close>).
\<close>

datatype type_id =
    UINT8 | INT8 | UINT16 | INT16 | UINT32 | INT32 | UINT64 | INT64 | FLOAT | DOUBLE
  | STRING | BOOL | NA | HALF_FLOAT | BINARY | FIXED_SIZE_BINARY | DATE32 | DATE64 | TIMESTAMP
  | TIME32 | TIME64 | INTERVAL | DECIMAL | LIST | STRUCT | UNION | DICTIONARY | MAP
  | EXTENSION | FIXED_SIZE_LIST | DURATION | LARGE_STRING | LARGE_BINARY | LARGE_LIST

text \<open>
  An \<^verbatim>\<open>arrow::DataType\<close>: its \<open>id()\<close>, its \<open>ToString()\<close>, and the \<open>bit_width()\<close> of a
  \<^verbatim>\<open>FixedWidthType\<close> (\<open>None\<close> when the cast to that class fails).
\<close>

record data_type =
  id_of :: type_id
  to_string :: string
  bit_width :: "nat option"

record field =
  field_name :: string
  field_type :: data_type

text \<open>
  An array: \<open>buffers[0]\<close> is its validity bitmap, \<open>buffers[1]\<close> its values; \<open>slice_offset\<close> is the
  number of leading elements of the buffers that a slice skips. \<open>data_mutable\<close>: \<open>buffers[1]\<close> may be
  written. \<open>mutable_data()\<close> of a buffer that may not is null.
\<close>

record array =
  array_type :: data_type
  array_length :: nat
  slice_offset :: nat
  validity_buffer :: "byte list option"
  data_buffer :: "byte list option"
  data_mutable :: bool

record chunked_array =
  chunked_type :: data_type
  chunks :: "array list"

record table =
  schema :: "field list"
  columns :: "chunked_array list"
  num_rows :: nat

definition chunked_length :: "chunked_array \<Rightarrow> nat" where
  "chunked_length c = sum_list (map array_length (chunks c))"

text \<open>The widths of the primitive types, in bytes.\<close>

fun primitive_size :: "type_id \<Rightarrow> nat option" where
  "primitive_size UINT8 = Some 1"
| "primitive_size INT8 = Some 1"
| "primitive_size UINT16 = Some 2"
| "primitive_size INT16 = Some 2"
| "primitive_size UINT32 = Some 4"
| "primitive_size INT32 = Some 4"
| "primitive_size UINT64 = Some 8"
| "primitive_size INT64 = Some 8"
| "primitive_size HALF_FLOAT = Some 2"
| "primitive_size FLOAT = Some 4"
| "primitive_size DOUBLE = Some 8"
| "primitive_size _ = None"

section \<open>The libraries' functions\<close>

text \<open>
  Arrow: \<open>AllocateBitmap\<close> and \<open>AllocateBuffer\<close> return buffers of unspecified content;
  \<open>Schema::GetFieldIndex\<close> searches the field names; \<open>Table::Make\<close> infers the number of rows.

  LLVM: \<open>ConstantFP::get\<close> converts a double to half or single precision; \<open>default_...\<close> are the
  values that the default constructors give; \<open>selectTarget\<close> finds a target machine once the
  native target is initialised; \<open>adjustPassManager\<close> and the \<open>populate...\<close> methods choose the
  passes; \<open>verifies\<close> is the verdict of the verifier pass on a module; \<open>run_native\<close> is what the
  machine code of a module's external function makes of the bitmap, \<open>None\<close> where LLVM leaves the
  call undefined; \<open>Mangler::getNameWithPrefix\<close> gives the symbol of a name;
  \<open>allocateVModule\<close> returns the n-th key of the session; \<open>findSymbol\<close> of the layers searches the
  modules that were added and not removed, all their symbols or the exported ones only;
  \<open>getSymbolAddressInProcess\<close> searches the process.

  \<open>ndebug\<close>: the build defines \<^verbatim>\<open>NDEBUG\<close>, and \<^verbatim>\<open>assert\<close> of the standard library checks nothing.
\<close>

record third_party =
  allocate_bitmap :: "nat \<Rightarrow> byte list"
  allocate_buffer :: "nat \<Rightarrow> byte list"
  get_field_index :: "string list \<Rightarrow> string \<Rightarrow> nat option"
  inferred_rows :: "chunked_array list \<Rightarrow> nat"
  fp_half :: "64 word \<Rightarrow> 16 word"
  fp_single :: "64 word \<Rightarrow> 32 word"
  host_cpu :: string
  process_triple :: string
  default_engine_builder :: engine_builder
  default_target_options :: target_options
  default_pass_builder :: pass_manager_builder
  select_target :: "bool \<Rightarrow> engine_builder \<Rightarrow> target_machine option"
  adjust_pass_manager :: "target_machine \<Rightarrow> pass_manager_builder \<Rightarrow> pass_manager_builder"
  populate_function_passes :: "pass_manager_builder \<Rightarrow> llvm_pass list"
  populate_module_passes :: "pass_manager_builder \<Rightarrow> llvm_pass list"
  populate_lto_passes :: "pass_manager_builder \<Rightarrow> llvm_pass list"
  verifies :: "llvm_module \<Rightarrow> bool"
  run_native :: "llvm_module \<Rightarrow> string \<Rightarrow> ir_value list \<Rightarrow> byte list \<Rightarrow> byte list \<Rightarrow> byte list option"
  mangle :: "string \<Rightarrow> string \<Rightarrow> string"
  vmodule_key :: "nat \<Rightarrow> nat"
  lookup_symbol :: "bool \<Rightarrow> (nat \<times> llvm_module) list \<Rightarrow> string \<Rightarrow> jit_symbol"
  process_symbol :: "string \<Rightarrow> nat option"
  ndebug :: bool

definition allocation_ok :: "third_party \<Rightarrow> bool" where
  "allocation_ok E \<longleftrightarrow>
     (\<forall>n. length (allocate_bitmap E n) = (n + 7) div 8) \<and>
     (\<forall>n. length (allocate_buffer E n) = n)"

definition tables_ok :: "third_party \<Rightarrow> bool" where
  "tables_ok E \<longleftrightarrow>
     (\<forall>names n i. get_field_index E names n = Some i \<longleftrightarrow>
        i < length names \<and> names ! i = n \<and> (\<forall>j < length names. names ! j = n \<longrightarrow> j = i)) \<and>
     (\<forall>c cs. inferred_rows E (c # cs) = chunked_length c)"

text \<open>
  The initialised native target has a target machine. Keys are not handed out twice. Mangling
  adds a prefix, or strips a marker in front: names that begin alike keep apart.
\<close>

definition session_ok :: "third_party \<Rightarrow> bool" where
  "session_ok E \<longleftrightarrow>
     (\<forall>b. select_target E True b \<noteq> None) \<and> inj (vmodule_key E) \<and>
     (\<forall>dl c xs ys. mangle E dl (c # xs) = mangle E dl (c # ys) \<longrightarrow> xs = ys)"

text \<open>
  A module exports the mangled names of its external functions. A symbol that only one function
  of the live modules exports is found there. What the search returns when several modules
  export the same symbol is left open.
\<close>

definition exporting :: "third_party \<Rightarrow> llvm_module \<Rightarrow> string \<Rightarrow> ir_function \<Rightarrow> bool" where
  "exporting E m symbol f \<longleftrightarrow>
     f \<in> set (mod_functions (emitted m)) \<and> fn_external f \<and>
     mangle E (mod_layout (emitted m)) (fn_name f) = symbol"

definition exports :: "third_party \<Rightarrow> llvm_module \<Rightarrow> string \<Rightarrow> bool" where
  "exports E m symbol \<longleftrightarrow> list_ex (exporting E m symbol) (mod_functions (emitted m))"

lemma exportsI: "exporting E m symbol f \<Longrightarrow> exports E m symbol"
  by (auto simp: exports_def list_ex_iff exporting_def)

definition symbols_ok :: "third_party \<Rightarrow> bool" where
  "symbols_ok E \<longleftrightarrow>
     (\<forall>ms K m symbol f. (K, m) \<in> set ms \<longrightarrow> exporting E m symbol f \<longrightarrow>
        (\<forall>(K', m') \<in> set ms. \<forall>f'. exporting E m' symbol f' \<longrightarrow> m' = m \<and> f' = f) \<longrightarrow>
        lookup_symbol E True ms symbol = FunctionSymbol m f)"

text \<open>
  Transformations preserve the meaning of a module: its external functions, wherever they were
  defined, behave as before.
\<close>

definition refines :: "third_party \<Rightarrow> llvm_module \<Rightarrow> llvm_module \<Rightarrow> bool" where
  "refines E m m' \<longleftrightarrow>
     emitted m' = emitted m \<and>
     (\<forall>f \<in> set (mod_functions (emitted m)). fn_external f \<longrightarrow>
        (\<forall>args src bmp r. run_native E m (fn_name f) args src bmp = Some r \<longrightarrow>
           run_native E m' (fn_name f) args src bmp = Some r))"

text \<open>
  The bound on the run of a call, in basic blocks: a filter loop passes at most 20 of them for
  every byte of the bitmap before it is done or has left the bitmap, a remaining loop at most 2
  for every value of an \<open>int8_t\<close>.
\<close>

definition kernel_fuel :: "byte list \<Rightarrow> nat" where
  "kernel_fuel bmp = 20 * length bmp + 300"

text \<open>
  The verifier accepts well-typed modules, and passes keep a valid module valid. The machine
  code of a module does what the language reference says of its IR, where that is defined.
\<close>

definition compiler_ok :: "third_party \<Rightarrow> bool" where
  "compiler_ok E \<longleftrightarrow>
     (\<forall>M. wt_module M \<longrightarrow> verifies E (as_emitted M)) \<and>
     (\<forall>m t. verifies E m \<longrightarrow> verifies E (transform t m) \<and> refines E m (transform t m)) \<and>
     (\<forall>M name f args src bmp r. wt_module M \<longrightarrow> get_function M name = Some f \<longrightarrow> fn_external f \<longrightarrow>
        invoke (kernel_fuel bmp) M f args src bmp = Inr r \<longrightarrow>
        run_native E (as_emitted M) name args src bmp = Some r)"

definition third_party_ok :: "third_party \<Rightarrow> bool" where
  "third_party_ok E \<longleftrightarrow>
     allocation_ok E \<and> tables_ok E \<and> session_ok E \<and> symbols_ok E \<and> compiler_ok E"

lemma third_party_okD:
  assumes "third_party_ok E"
  shows "length (allocate_bitmap E n) = (n + 7) div 8"
    and "length (allocate_buffer E n) = n"
    and "get_field_index E names x = Some i \<longleftrightarrow>
      i < length names \<and> names ! i = x \<and> (\<forall>j < length names. names ! j = x \<longrightarrow> j = i)"
    and "inferred_rows E (c # cs) = chunked_length c"
    and "inj (vmodule_key E)"
  using assms unfolding third_party_ok_def allocation_ok_def tables_ok_def session_ok_def
  by (blast, blast, blast, blast, blast)

lemma sessionD:
  assumes "third_party_ok E"
  shows "\<exists>tm. select_target E True b = Some tm"
    and "mangle E dl (c # xs) = mangle E dl (c # ys) \<Longrightarrow> xs = ys"
  using assms unfolding third_party_ok_def session_ok_def by (blast, blast)

lemma symbolsD:
  assumes "third_party_ok E" and "(K, m) \<in> set ms" and "exporting E m symbol f"
    and "\<And>K' m' f'. (K', m') \<in> set ms \<Longrightarrow> exporting E m' symbol f' \<Longrightarrow> m' = m \<and> f' = f"
  shows "lookup_symbol E True ms symbol = FunctionSymbol m f"
  using assms unfolding third_party_ok_def symbols_ok_def by blast

lemma compilerD:
  assumes "third_party_ok E"
  shows "wt_module M \<Longrightarrow> verifies E (as_emitted M)"
    and "verifies E m \<Longrightarrow> verifies E (transform t m)"
    and "verifies E m \<Longrightarrow> refines E m (transform t m)"
    and "wt_module M \<Longrightarrow> get_function M name = Some f \<Longrightarrow> fn_external f \<Longrightarrow>
      invoke (kernel_fuel bmp) M f args src bmp = Inr r \<Longrightarrow>
      run_native E (as_emitted M) name args src bmp = Some r"
  using assms unfolding third_party_ok_def compiler_ok_def by (blast, blast, blast, blast)

lemma refines_refl: "refines E m m"
  by (simp add: refines_def)

lemma refines_trans: "refines E m m' \<Longrightarrow> refines E m' m'' \<Longrightarrow> refines E m m''"
  by (simp add: refines_def)

section \<open>An instance\<close>

text \<open>
  Concrete functions with the documented behaviour, so that the hypothesis
  \<open>third_party_ok\<close> can be discharged: zeroed allocations, a linear search, counted keys, names
  that are their own symbols, the first module that exports a symbol, a compiler without
  optimisations.
\<close>

fun unique_index :: "nat \<Rightarrow> string list \<Rightarrow> string \<Rightarrow> nat option" where
  "unique_index k [] x = None"
| "unique_index k (n # ns) x =
     (if n = x then (if x \<in> set ns then None else Some k) else unique_index (Suc k) ns x)"

fun first_export :: "bool \<Rightarrow> (nat \<times> llvm_module) list \<Rightarrow> string \<Rightarrow> jit_symbol" where
  "first_export exported [] symbol = NoSymbol"
| "first_export exported ((_, m) # ms) symbol =
     (case find (\<lambda>f. (exported \<longrightarrow> fn_external f) \<and> fn_name f = symbol) (mod_functions (emitted m)) of
        None \<Rightarrow> first_export exported ms symbol
      | Some f \<Rightarrow> FunctionSymbol m f)"

definition interpreted :: "llvm_module \<Rightarrow> string \<Rightarrow> ir_value list \<Rightarrow> byte list \<Rightarrow> byte list \<Rightarrow> byte list option" where
  "interpreted m name args src bmp =
     (case get_function (emitted m) name of
        None \<Rightarrow> None
      | Some f \<Rightarrow>
          (case invoke (kernel_fuel bmp) (emitted m) f args src bmp of
             Inl _ \<Rightarrow> None
           | Inr r \<Rightarrow> Some r))"

definition sample_third_party :: third_party where
  "sample_third_party =
     \<lparr>allocate_bitmap = (\<lambda>n. replicate ((n + 7) div 8) 0),
      allocate_buffer = (\<lambda>n. replicate n 0),
      get_field_index = unique_index 0,
      inferred_rows = (\<lambda>cs. case cs of [] \<Rightarrow> 0 | c # _ \<Rightarrow> chunked_length c),
      fp_half = (\<lambda>_. 0),
      fp_single = (\<lambda>_. 0),
      host_cpu = ''generic'',
      process_triple = ''x86_64-unknown-linux-gnu'',
      default_engine_builder =
        \<lparr>MCPU = [], WhichEngine = EngineKind_Either, CodeGenLevel = CodeGenOpt_Default,
         Options = \<lparr>AllowFPOpFusion = FPOpFusion_Standard\<rparr>\<rparr>,
      default_target_options = \<lparr>AllowFPOpFusion = FPOpFusion_Standard\<rparr>,
      default_pass_builder =
        \<lparr>OptLevel = 2, SizeLevel = 0, Inliner = None, LoopVectorize = False,
         SLPVectorize = False, VerifyInput = False\<rparr>,
      select_target = (\<lambda>native b. if native then Some
        \<lparr>target_triple = ''x86_64-unknown-linux-gnu'', data_layout = ''e'', ir_analysis = MCPU b\<rparr>
        else None),
      adjust_pass_manager = (\<lambda>_ b. b),
      populate_function_passes = (\<lambda>_. []),
      populate_module_passes = (\<lambda>b. case Inliner b of None \<Rightarrow> [] | Some p \<Rightarrow> [p]),
      populate_lto_passes = (\<lambda>b. if VerifyInput b then [VerifierPass] else []),
      verifies = (\<lambda>m. wt_module (emitted m)),
      run_native = interpreted,
      mangle = (\<lambda>_ name. name),
      vmodule_key = (\<lambda>n. n),
      lookup_symbol = first_export,
      process_symbol = (\<lambda>_. None),
      ndebug = False\<rparr>"

lemma unique_index_Some:
  "unique_index k ns x = Some i \<longleftrightarrow>
     k \<le> i \<and> i < k + length ns \<and> ns ! (i - k) = x \<and>
     (\<forall>j < length ns. ns ! j = x \<longrightarrow> j = i - k)"
proof (induction k ns x rule: unique_index.induct)
  case (2 k n ns x)
  show ?case
  proof (cases "n = x")
    case True
    have "(\<forall>j < length (n # ns). (n # ns) ! j = x \<longrightarrow> j = i - k) \<longleftrightarrow> i - k = 0 \<and> x \<notin> set ns"
      using True by (auto simp: All_less_Suc2 in_set_conv_nth)
    with True show ?thesis by auto
  next
    case False
    have "i - k = Suc (i - Suc k)" if "Suc k \<le> i" using that by simp
    with False 2 show ?thesis
      by (cases "k < i") (auto simp: All_less_Suc2 Suc_le_eq nth_Cons')
  qed
qed simp

lemma first_export_found:
  assumes "(K, m) \<in> set ms" and "f \<in> set (mod_functions (emitted m))" and "fn_external f"
    and "\<And>K' m' f'. (K', m') \<in> set ms \<Longrightarrow> f' \<in> set (mod_functions (emitted m')) \<Longrightarrow> fn_external f' \<Longrightarrow>
      fn_name f' = fn_name f \<Longrightarrow> m' = m \<and> f' = f"
  shows "first_export True ms (fn_name f) = FunctionSymbol m f"
  using assms(1,4)
proof (induction ms)
  case (Cons km ms)
  obtain K0 m0 where km: "km = (K0, m0)" by fastforce
  show ?case
  proof (cases "find (\<lambda>g. fn_external g \<and> fn_name g = fn_name f) (mod_functions (emitted m0))")
    case None
    with assms(2,3) have "m0 \<noteq> m" by (auto simp: find_None_iff)
    with Cons km have "first_export True ms (fn_name f) = FunctionSymbol m f" by auto
    with None km show ?thesis by simp
  next
    case (Some g)
    then have "g \<in> set (mod_functions (emitted m0))" "fn_external g" "fn_name g = fn_name f"
      by (auto simp: find_Some_iff)
    with Cons.prems(2) [of K0 m0 g] km Some show ?thesis by simp
  qed
qed simp

lemma sample_third_party_ok: "third_party_ok sample_third_party"
  unfolding third_party_ok_def
proof (intro conjI)
  show "allocation_ok sample_third_party"
    by (simp add: allocation_ok_def sample_third_party_def)
  show "tables_ok sample_third_party"
    by (simp add: tables_ok_def sample_third_party_def unique_index_Some)
  show "session_ok sample_third_party"
    by (simp add: session_ok_def sample_third_party_def)
  show "symbols_ok sample_third_party"
    by (auto simp: symbols_ok_def sample_third_party_def exporting_def intro!: first_export_found)
  have "interpreted (transform t m) = interpreted m" for t m
    by (intro ext) (simp only: interpreted_def transform_sel)
  then show "compiler_ok sample_third_party"
    by (simp add: compiler_ok_def sample_third_party_def refines_def) (simp add: interpreted_def)
qed

end
