(* ===== verification/LLVM_Types.thy ===== *)
theory LLVM_Types
  imports Third_Party Expressions
begin

text \<open>
  \<^verbatim>\<open>LLVMTypesHelper\<close> of \<^verbatim>\<open>pefa/utils/llvm_helpers.h\<close> and the case macros of
  \<^verbatim>\<open>pefa/utils/utils.h\<close>: from Arrow types to LLVM types, typed constants and comparison
  instructions. The last section says what the comparisons mean: an order on decoded column
  elements that does not mention the IR.
\<close>

section \<open>The case macros\<close>

definition signed_integral_case :: "type_id \<Rightarrow> bool" where
  "signed_integral_case t \<longleftrightarrow> t = INT8 \<or> t = INT16 \<or> t = INT32 \<or> t = INT64"

definition unsigned_integral_case :: "type_id \<Rightarrow> bool" where
  "unsigned_integral_case t \<longleftrightarrow> t = UINT8 \<or> t = UINT16 \<or> t = UINT32 \<or> t = UINT64"

definition integral_case :: "type_id \<Rightarrow> bool" where
  "integral_case t \<longleftrightarrow> signed_integral_case t \<or> unsigned_integral_case t"

definition floating_case :: "type_id \<Rightarrow> bool" where
  "floating_case t \<longleftrightarrow> t = HALF_FLOAT \<or> t = FLOAT \<or> t = DOUBLE"

definition numeric_case :: "type_id \<Rightarrow> bool" where
  "numeric_case t \<longleftrightarrow> integral_case t \<or> floating_case t"

lemmas type_cases = signed_integral_case_def unsigned_integral_case_def integral_case_def
  floating_case_def numeric_case_def

section \<open>Types and constants\<close>

definition bool_typ :: ir_type where "bool_typ = TI1"
definition i8_typ :: ir_type where "i8_typ = TI8"
definition i16_typ :: ir_type where "i16_typ = TI16"
definition i32_typ :: ir_type where "i32_typ = TI32"
definition i64_typ :: ir_type where "i64_typ = TI64"
definition f16_typ :: ir_type where "f16_typ = TF16"
definition f32_typ :: ir_type where "f32_typ = TF32"
definition f64_typ :: ir_type where "f64_typ = TF64"

text \<open>
  \<open>ConstantInt::get\<close> keeps the low bits of its 64-bit argument; whether that argument is
  called signed (\<open>i..val\<close> pass \<open>false\<close>, \<open>u..val\<close> pass \<open>true\<close>) does not change them.
\<close>

definition i8val :: "8 word \<Rightarrow> ir_value" where "i8val val = VI8 val"
definition i16val :: "64 word \<Rightarrow> ir_value" where "i16val val = VI16 (ucast val)"
definition i32val :: "64 word \<Rightarrow> ir_value" where "i32val val = VI32 (ucast val)"
definition i64val :: "64 word \<Rightarrow> ir_value" where "i64val val = VI64 val"
definition u8val :: "8 word \<Rightarrow> ir_value" where "u8val val = VI8 val"
definition u16val :: "64 word \<Rightarrow> ir_value" where "u16val val = VI16 (ucast val)"
definition u32val :: "64 word \<Rightarrow> ir_value" where "u32val val = VI32 (ucast val)"
definition u64val :: "64 word \<Rightarrow> ir_value" where "u64val val = VI64 val"

definition f16val :: "third_party \<Rightarrow> 64 word \<Rightarrow> ir_value" where "f16val E val = VF16 (fp_half E val)"
definition f32val :: "third_party \<Rightarrow> 64 word \<Rightarrow> ir_value" where "f32val E val = VF32 (fp_single E val)"
definition f64val :: "64 word \<Rightarrow> ir_value" where "f64val val = VF64 val"

definition boolval :: "bool \<Rightarrow> ir_value" where "boolval val = VI1 (of_bool val)"

lemmas llvm_types = bool_typ_def i8_typ_def i16_typ_def i32_typ_def i64_typ_def
  f16_typ_def f32_typ_def f64_typ_def
lemmas llvm_consts = i8val_def i16val_def i32val_def i64val_def u8val_def u16val_def u32val_def
  u64val_def f16val_def f32val_def f64val_def boolval_def

definition from_arrow :: "data_type \<Rightarrow> ir_type result" where
  "from_arrow t = (case id_of t of
      INT8 \<Rightarrow> Inr i8_typ
    | UINT8 \<Rightarrow> Inr i8_typ
    | INT16 \<Rightarrow> Inr i16_typ
    | UINT16 \<Rightarrow> Inr i16_typ
    | INT32 \<Rightarrow> Inr i32_typ
    | UINT32 \<Rightarrow> Inr i32_typ
    | INT64 \<Rightarrow> Inr i64_typ
    | UINT64 \<Rightarrow> Inr i64_typ
    | HALF_FLOAT \<Rightarrow> Inr f16_typ
    | FLOAT \<Rightarrow> Inr f32_typ
    | DOUBLE \<Rightarrow> Inr f64_typ
    | _ \<Rightarrow> throw_not_implemented (''arrow '' @ to_string t @ '' does not supported yet''))"

definition ptr_from_arrow :: "data_type \<Rightarrow> ir_type result" where
  "ptr_from_arrow t = bindE (from_arrow t) (\<lambda>ty. Inr (TPtr ty))"

text \<open>
  The overload for an \<open>int\<close>: the 8-bit constants take an \<open>int8_t\<close> (the argument is
  truncated), the others a \<open>long\<close> (it is sign-extended).
\<close>

definition arrow_typed_const_int :: "data_type \<Rightarrow> 32 word \<Rightarrow> ir_value result" where
  "arrow_typed_const_int t val = (case id_of t of
      INT8 \<Rightarrow> Inr (i8val (ucast val))
    | INT16 \<Rightarrow> Inr (i16val (scast val))
    | INT32 \<Rightarrow> Inr (i32val (scast val))
    | INT64 \<Rightarrow> Inr (i64val (scast val))
    | UINT8 \<Rightarrow> Inr (u8val (ucast val))
    | UINT16 \<Rightarrow> Inr (u16val (scast val))
    | UINT32 \<Rightarrow> Inr (u32val (scast val))
    | UINT64 \<Rightarrow> Inr (u64val (scast val))
    | _ \<Rightarrow> Inl (Thrown UnreachableException))"

definition arrow_typed_const_double :: "third_party \<Rightarrow> data_type \<Rightarrow> 64 word \<Rightarrow> ir_value result" where
  "arrow_typed_const_double E t val = (case id_of t of
      HALF_FLOAT \<Rightarrow> Inr (f16val E val)
    | FLOAT \<Rightarrow> Inr (f32val E val)
    | DOUBLE \<Rightarrow> Inr (f64val val)
    | DECIMAL \<Rightarrow> throw_not_implemented ''Decimal support is not implemented yet''
    | _ \<Rightarrow> Inl (Thrown UnreachableException))"

text \<open>
  The conversion \<open>(double) n\<close> of an \<open>int\<close>. It is exact: \<open>|n| < 2^53\<close>.
\<close>

fun ilog2 :: "nat \<Rightarrow> nat" where
  "ilog2 n = (if n \<le> 1 then 0 else Suc (ilog2 (n div 2)))"

declare ilog2.simps [simp del]

definition double_magnitude :: "nat \<Rightarrow> nat" where
  "double_magnitude a =
     (if a = 0 then 0
      else (ilog2 a + 1023) * 2 ^ 52 + (a * 2 ^ (52 - ilog2 a) - 2 ^ 52))"

definition int_to_double :: "32 word \<Rightarrow> 64 word" where
  "int_to_double n =
     of_nat ((if sint n < 0 then 2 ^ 63 else 0) + double_magnitude (nat \<bar>sint n\<bar>))"

definition const_from_variant :: "third_party \<Rightarrow> data_type \<Rightarrow> literal \<Rightarrow> ir_value result" where
  "const_from_variant E t v =
     (if integral_case (id_of t) then bindE (get_int v) (arrow_typed_const_int t)
      else if floating_case (id_of t) \<or> id_of t = DECIMAL then
        bindE (if variant_index v = 1 then get_double v
               else bindE (get_int v) (\<lambda>n. Inr (int_to_double n)))
          (arrow_typed_const_double E t)
      else Inl (Thrown UnreachableException))"

section \<open>Comparison instructions\<close>

text \<open>
  \<^verbatim>\<open>__PEFA_CREATE_CMP_FUNC\<close>: \<open>r\<close> is the register of the instruction that is created.
\<close>

definition create_cmp :: "icmp_pred \<Rightarrow> icmp_pred \<Rightarrow> fcmp_pred \<Rightarrow> data_type \<Rightarrow>
    nat \<Rightarrow> operand \<Rightarrow> operand \<Rightarrow> instr result" where
  "create_cmp icmp ucmp fcmp t r lhs rhs =
     (if signed_integral_case (id_of t) then Inr (ICmp r icmp lhs rhs)
      else if unsigned_integral_case (id_of t) then Inr (ICmp r ucmp lhs rhs)
      else if floating_case (id_of t) then Inr (FCmp r fcmp lhs rhs)
      else throw_not_implemented
        (''Comparing elements of type'' @ to_string t @ '' is not supported yet''))"

definition create_cmp_gt :: "data_type \<Rightarrow> nat \<Rightarrow> operand \<Rightarrow> operand \<Rightarrow> instr result" where
  "create_cmp_gt = create_cmp ICMP_SGT ICMP_UGT FCMP_OGT"
definition create_cmp_lt :: "data_type \<Rightarrow> nat \<Rightarrow> operand \<Rightarrow> operand \<Rightarrow> instr result" where
  "create_cmp_lt = create_cmp ICMP_SLT ICMP_ULT FCMP_OLT"
definition create_cmp_ge :: "data_type \<Rightarrow> nat \<Rightarrow> operand \<Rightarrow> operand \<Rightarrow> instr result" where
  "create_cmp_ge = create_cmp ICMP_SGE ICMP_UGE FCMP_OGE"
definition create_cmp_le :: "data_type \<Rightarrow> nat \<Rightarrow> operand \<Rightarrow> operand \<Rightarrow> instr result" where
  "create_cmp_le = create_cmp ICMP_SLE ICMP_ULE FCMP_OLE"
definition create_cmp_eq :: "data_type \<Rightarrow> nat \<Rightarrow> operand \<Rightarrow> operand \<Rightarrow> instr result" where
  "create_cmp_eq = create_cmp ICMP_EQ ICMP_EQ FCMP_OEQ"
definition create_cmp_ne :: "data_type \<Rightarrow> nat \<Rightarrow> operand \<Rightarrow> operand \<Rightarrow> instr result" where
  "create_cmp_ne = create_cmp ICMP_NE ICMP_NE FCMP_ONE"

lemmas create_cmps = create_cmp_gt_def create_cmp_lt_def create_cmp_ge_def create_cmp_le_def
  create_cmp_eq_def create_cmp_ne_def

section \<open>What a comparison means\<close>

text \<open>
  The number a column element stands for, by the type of the column: \<open>None\<close> is NaN. The
  numbers of a floating-point column are ranked by \<open>fp_key\<close>.
\<close>

fun number :: "type_id \<Rightarrow> ir_value \<Rightarrow> int option" where
  "number t (VI8 w) = Some (if signed_integral_case t then sint w else uint w)"
| "number t (VI16 w) = Some (if signed_integral_case t then sint w else uint w)"
| "number t (VI32 w) = Some (if signed_integral_case t then sint w else uint w)"
| "number t (VI64 w) = Some (if signed_integral_case t then sint w else uint w)"
| "number t (VF16 w) = (if fp_is_nan 5 10 (unat w) then None else Some (fp_key 5 10 (unat w)))"
| "number t (VF32 w) = (if fp_is_nan 8 23 (unat w) then None else Some (fp_key 8 23 (unat w)))"
| "number t (VF64 w) = (if fp_is_nan 11 52 (unat w) then None else Some (fp_key 11 52 (unat w)))"
| "number t _ = None"

fun int_compare :: "compare_op \<Rightarrow> int \<Rightarrow> int \<Rightarrow> bool" where
  "int_compare Op_GT a b = (a > b)"
| "int_compare Op_LT a b = (a < b)"
| "int_compare Op_GE a b = (a \<ge> b)"
| "int_compare Op_LE a b = (a \<le> b)"
| "int_compare Op_EQ a b = (a = b)"
| "int_compare Op_NEQ a b = (a \<noteq> b)"

text \<open>
  The specification of a comparison, in terms of the numbers only; \<open>create_cmp_op_exec\<close> below is
  about the instruction that the code creates for it.
\<close>

definition compare_values :: "type_id \<Rightarrow> compare_op \<Rightarrow> ir_value \<Rightarrow> ir_value \<Rightarrow> bool" where
  "compare_values t op a b =
     (case (number t a, number t b) of (Some x, Some y) \<Rightarrow> int_compare op x y | _ \<Rightarrow> False)"

text \<open>The \<open>switch (expr.op)\<close> of \<^verbatim>\<open>IrEmitVisitor\<close> over these functions.\<close>

fun create_cmp_op :: "compare_op \<Rightarrow> data_type \<Rightarrow> nat \<Rightarrow> operand \<Rightarrow> operand \<Rightarrow> instr result" where
  "create_cmp_op Op_GT = create_cmp_gt"
| "create_cmp_op Op_LT = create_cmp_lt"
| "create_cmp_op Op_GE = create_cmp_ge"
| "create_cmp_op Op_LE = create_cmp_le"
| "create_cmp_op Op_EQ = create_cmp_eq"
| "create_cmp_op Op_NEQ = create_cmp_ne"

lemma from_arrow_numeric: "(\<exists>ty. from_arrow t = Inr ty) \<longleftrightarrow> numeric_case (id_of t)"
  by (cases "id_of t") (simp_all add: from_arrow_def type_cases)

lemma from_arrow_size:
  "from_arrow t = Inr ty \<Longrightarrow> primitive_size (id_of t) = Some (type_size ty)"
  by (cases "id_of t") (auto simp: from_arrow_def llvm_types)

lemma from_arrow_decode:
  assumes "from_arrow t = Inr ty"
  shows "\<exists>v. decode ty bs = Some v \<and> type_of v = ty"
  using assms by (cases "id_of t") (auto simp: from_arrow_def llvm_types)

lemma const_from_variant_type:
  assumes "from_arrow t = Inr ty" and "const_from_variant E t v = Inr c"
  shows "type_of c = ty"
  using assms
  by (cases "id_of t")
    (auto simp: from_arrow_def const_from_variant_def arrow_typed_const_int_def
      arrow_typed_const_double_def type_cases llvm_types llvm_consts bindE_eq_Inr
      split: if_splits)

lemma type_of_iff:
  "type_of v = TI8 \<longleftrightarrow> (\<exists>w. v = VI8 w)"
  "type_of v = TI16 \<longleftrightarrow> (\<exists>w. v = VI16 w)"
  "type_of v = TI32 \<longleftrightarrow> (\<exists>w. v = VI32 w)"
  "type_of v = TI64 \<longleftrightarrow> (\<exists>w. v = VI64 w)"
  "type_of v = TF16 \<longleftrightarrow> (\<exists>w. v = VF16 w)"
  "type_of v = TF32 \<longleftrightarrow> (\<exists>w. v = VF32 w)"
  "type_of v = TF64 \<longleftrightarrow> (\<exists>w. v = VF64 w)"
  by (cases v; simp)+

lemma sint_eq_iff: "sint a = sint b \<longleftrightarrow> a = b"
  by (rule word_eq_iff_signed [symmetric])

lemma uint_eq_iff: "uint a = uint b \<longleftrightarrow> a = b"
  by (rule word_eq_iff_unsigned [symmetric])

text \<open>
  The instruction a comparison is translated to computes what the comparison means: signed,
  unsigned or floating-point as the column's type says, false when an operand is NaN.
\<close>

lemma create_cmp_op_total:
  assumes "from_arrow t = Inr ty"
  shows "\<exists>ins. create_cmp_op op t r x y = Inr ins"
  using assms
  by (cases op; cases "id_of t") (simp_all add: from_arrow_def create_cmps create_cmp_def type_cases)

lemma create_cmp_op_exec:
  assumes "from_arrow t = Inr ty" and "type_of a = ty" and "type_of c = ty"
    and "create_cmp_op op t r x y = Inr ins"
    and "operand_value args s x = Inr a" and "operand_value args s y = Inr c"
  shows "exec_instr call src args ins s =
    Inr (Continue (set_reg r (i1 (compare_values (id_of t) op a c)) s))"
  using assms
  by (cases op; cases "id_of t")
    (auto simp: from_arrow_def create_cmps create_cmp_def type_cases llvm_types type_of_iff
      compare_values_def fp_fcmp_def sint_eq_iff uint_eq_iff)

end
