(* ===== verification/Jit.thy ===== *)
theory Jit
  imports Third_Party
begin

text \<open>
  \<^verbatim>\<open>pefa::jit::JIT\<close> (\<^verbatim>\<open>pefa/jit/jit.h\<close>, \<^verbatim>\<open>jit.cpp\<close>): the engine's settings, the pass pipeline
  that every module goes through, and the session with its keys, resolvers and live modules.
  The passes, the verifier and the layers themselves are LLVM's (\<open>third_party\<close>).
\<close>

section \<open>The object\<close>

text \<open>
  The object, compile and optimize layers hold the same modules, so they are one list. The
  resolvers that are stored under the keys are all the same closure, \<open>resolve_symbol\<close>.
\<close>

record jit =
  m_engine_builder :: engine_builder
  m_target_machine :: target_machine
  m_data_layout :: string
  keys_allocated :: nat
  resolvers :: "nat set"
  layer_modules :: "(nat \<times> llvm_module) list"

definition createEngineBuilder :: "third_party \<Rightarrow> engine_builder" where
  "createEngineBuilder E =
     (let builder = (default_engine_builder E)\<lparr>MCPU := host_cpu E\<rparr>;
          builder = builder\<lparr>WhichEngine := EngineKind_JIT\<rparr>;
          builder = builder\<lparr>CodeGenLevel := CodeGenOpt_Aggressive\<rparr>;
          target_options = (default_target_options E)\<lparr>AllowFPOpFusion := FPOpFusion_Fast\<rparr>;
          builder = builder\<lparr>Options := target_options\<rparr> in
      builder\<lparr>MCPU := host_cpu E\<rparr>)"

text \<open>The constructor. \<open>native\<close>: the native target has been initialised.\<close>

definition JIT_init :: "third_party \<Rightarrow> bool \<Rightarrow> jit result" where
  "JIT_init E native =
     (let engine_builder = createEngineBuilder E in
      bindE (deref (select_target E native engine_builder)) (\<lambda>machine.
        Inr \<lparr>m_engine_builder = engine_builder, m_target_machine = machine,
             m_data_layout = data_layout machine,
             keys_allocated = 0, resolvers = {}, layer_modules = []\<rparr>))"

definition getTargetMachine :: "jit \<Rightarrow> target_machine" where
  "getTargetMachine j = m_target_machine j"

text \<open>
  The process holds its JIT objects by shared pointers, here their positions in \<open>objects\<close>. The
  static variable is null before the first call, which initialises the native target and creates
  the object.
\<close>

record process =
  static_jit :: "nat option"
  objects :: "jit list"

definition get_JIT :: "third_party \<Rightarrow> process \<Rightarrow> (nat \<times> process) result" where
  "get_JIT E p =
     (case static_jit p of
        Some address \<Rightarrow> Inr (address, p)
      | None \<Rightarrow> bindE (JIT_init E True) (\<lambda>j.
          let address = length (objects p) in
          Inr (address, p\<lparr>static_jit := Some address, objects := objects p @ [j]\<rparr>)))"

section \<open>The pass pipeline\<close>

definition addOptPasses :: "third_party \<Rightarrow> target_machine \<Rightarrow> llvm_pass list \<times> llvm_pass list \<Rightarrow>
    llvm_pass list \<times> llvm_pass list" where
  "addOptPasses E machine managers =
     (let (passes, fnPasses) = managers;
          builder = (default_pass_builder E)
            \<lparr>OptLevel := 3, SizeLevel := 0, Inliner := Some (FunctionInliningPass 3 0 False),
             LoopVectorize := True, SLPVectorize := True\<rparr>;
          builder = adjust_pass_manager E machine builder;
          fnPasses = fnPasses @ populate_function_passes E builder;
          passes = passes @ populate_module_passes E builder in
      (passes, fnPasses))"

definition addLinkPasses :: "third_party \<Rightarrow> llvm_pass list \<Rightarrow> llvm_pass list" where
  "addLinkPasses E passes =
     (let builder = (default_pass_builder E)
            \<lparr>VerifyInput := True, Inliner := Some (FunctionInliningPass 3 0 False)\<rparr> in
      passes @ populate_lto_passes E builder)"

text \<open>A pass of the manager runs over the module; the verifier pass aborts on a broken one.\<close>

definition run_pass :: "third_party \<Rightarrow> llvm_pass \<Rightarrow> llvm_module \<Rightarrow> llvm_module result" where
  "run_pass E p m =
     (if p = VerifierPass \<and> \<not> verifies E m then Inl FatalError else Inr (transform (RunPass p) m))"

text \<open>No pass that adds or deletes functions has run before the loop over the functions.\<close>

definition optimizeModule :: "third_party \<Rightarrow> jit \<Rightarrow> llvm_module \<Rightarrow> llvm_module result" where
  "optimizeModule E j module =
     (let machine = getTargetMachine j;
          passes = [VerifierPass, TargetLibraryInfoWrapperPass (target_triple machine),
                    TargetTransformInfoWrapperPass (ir_analysis machine)];
          fnPasses = [TargetTransformInfoWrapperPass (ir_analysis machine)];
          (passes, fnPasses) = addOptPasses E machine (passes, fnPasses);
          passes = addLinkPasses E passes;
          module = transform (DoInitialization fnPasses) module;
          module = fold (\<lambda>func. transform (RunOnFunction fnPasses (fn_name func)))
                     (mod_functions (emitted module)) module;
          module = transform (DoFinalization fnPasses) module;
          passes = passes @ [VerifierPass] in
      foldE (run_pass E) passes module)"

section \<open>The session\<close>

text \<open>
  The resolver's lookup: all symbols of the compile layer first, then those of the process
  (\<open>Inr\<close>, an address).
\<close>

definition resolve_symbol :: "third_party \<Rightarrow> jit \<Rightarrow> string \<Rightarrow> jit_symbol + nat" where
  "resolve_symbol E j name =
     (case lookup_symbol E False (layer_modules j) name of
        FunctionSymbol m f \<Rightarrow> Inl (FunctionSymbol m f)
      | SymbolError \<Rightarrow> Inl SymbolError
      | NoSymbol \<Rightarrow>
          (case process_symbol E name of
             Some address \<Rightarrow> Inr address
           | None \<Rightarrow> Inl NoSymbol))"

definition addModule :: "third_party \<Rightarrow> ir_module \<Rightarrow> jit \<Rightarrow> (nat \<times> jit) result" where
  "addModule E M j =
     (let K = vmodule_key E (keys_allocated j);
          j1 = j\<lparr>keys_allocated := Suc (keys_allocated j), resolvers := insert K (resolvers j)\<rparr> in
      bindE (optimizeModule E j1 (as_emitted M)) (\<lambda>m.
        Inr (K, j1\<lparr>layer_modules := layer_modules j1 @ [(K, m)]\<rparr>)))"

definition findSymbol :: "third_party \<Rightarrow> string \<Rightarrow> jit \<Rightarrow> jit_symbol" where
  "findSymbol E name j =
     (let mangled_name = mangle E (m_data_layout j) name in
      lookup_symbol E True (layer_modules j) mangled_name)"

text \<open>
  Removing a module does not drop its resolver. The layers require that a module is live under the
  key, and a kernel keeps to it: it removes the module it added, once, in its destructor.
\<close>

definition removeModule :: "nat \<Rightarrow> jit \<Rightarrow> jit" where
  "removeModule K j = j\<lparr>layer_modules := filter (\<lambda>(K', _). K' \<noteq> K) (layer_modules j)\<rparr>"

section \<open>Running the machine code\<close>

text \<open>
  A call of a function through the pointer its symbol gave. Where the emitted IR has undefined
  behaviour the call has it too, and the model stops with that failure; otherwise the machine
  code decides.
\<close>

definition call_compiled :: "third_party \<Rightarrow> llvm_module \<times> ir_function \<Rightarrow> ir_value list \<Rightarrow> byte list \<Rightarrow>
    byte list \<Rightarrow> byte list result" where
  "call_compiled E func args src bmp =
     (let (m, f) = func in
      bindE (invoke (kernel_fuel bmp) (emitted m) f args src bmp) (\<lambda>_.
        case run_native E m (fn_name f) args src bmp of
          Some r \<Rightarrow> Inr r
        | None \<Rightarrow> Inl UndefinedValue))"

lemma call_compiled_refines:
  assumes "third_party_ok E" and "wt_module M" and "refines E (as_emitted M) m"
    and "f \<in> set (mod_functions M)" and "fn_external f"
    and "invoke (kernel_fuel bmp) M f args src bmp = Inr r"
  shows "call_compiled E (m, f) args src bmp = Inr r"
proof -
  have "get_function M (fn_name f) = Some f"
    using assms(2,4) by (auto simp: wt_module_def get_function_def intro: find_distinct)
  from compilerD(4) [OF assms(1,2) this assms(5,6)] assms(3-5)
  have "run_native E m (fn_name f) args src bmp = Some r" by (simp add: refines_def)
  moreover have "emitted m = M" using assms(3) by (simp add: refines_def)
  ultimately show ?thesis using assms(6) by (simp add: call_compiled_def)
qed

lemma call_compiled_not_thrown: "not_thrown (call_compiled E func args src bmp)"
  by (cases func) (auto simp: call_compiled_def invoke_not_thrown intro!: not_thrown_bindE split: option.split)

section \<open>Optimisation preserves meaning\<close>

lemma transform_refines:
  assumes "third_party_ok E" and "verifies E m' \<and> refines E m m'"
  shows "verifies E (transform t m') \<and> refines E m (transform t m')"
  using assms compilerD(2,3) [OF assms(1)] refines_trans by blast

lemma fold_transform_refines:
  assumes "third_party_ok E" and "verifies E m' \<and> refines E m m'"
  shows "verifies E (fold (\<lambda>x. transform (t x)) xs m') \<and> refines E m (fold (\<lambda>x. transform (t x)) xs m')"
  using assms(2) transform_refines [OF assms(1)] by (induction xs arbitrary: m') auto

lemma passes_refine:
  assumes "third_party_ok E" and "verifies E m' \<and> refines E m m'"
  shows "\<exists>m''. foldE (run_pass E) ps m' = Inr m'' \<and> verifies E m'' \<and> refines E m m''"
  using assms(2)
proof (induction ps arbitrary: m')
  case (Cons p ps)
  then show ?case
    using Cons.IH [of "transform (RunPass p) m'"] transform_refines [OF assms(1) Cons.prems]
    by (simp add: run_pass_def)
qed simp

text \<open>A module that the verifier accepts is optimised, and behaves as before.\<close>

lemma optimizeModule_refines:
  assumes "third_party_ok E" and "verifies E m"
  shows "\<exists>m'. optimizeModule E j m = Inr m' \<and> verifies E m' \<and> refines E m m'"
  unfolding optimizeModule_def Let_def prod.case_distrib
  by (auto split: prod.splits intro!: passes_refine [OF assms(1)] transform_refines [OF assms(1)]
      fold_transform_refines [OF assms(1)] simp: assms(2) refines_refl)

text \<open>The last thing that happens to every optimised module is that the verifier accepts it.\<close>

definition verified_last :: "third_party \<Rightarrow> llvm_module \<Rightarrow> bool" where
  "verified_last E m \<longleftrightarrow>
     applied m \<noteq> [] \<and> last (applied m) = RunPass VerifierPass \<and>
     verifies E (m\<lparr>applied := butlast (applied m)\<rparr>)"

lemma optimizeModule_verified:
  assumes "optimizeModule E j m = Inr m'"
  shows "verified_last E m'"
proof -
  from assms obtain m0 where "run_pass E VerifierPass m0 = Inr m'"
    by (auto simp: optimizeModule_def Let_def foldE_append bindE_eq_Inr split: prod.splits)
  then show ?thesis
    by (auto simp: run_pass_def verified_last_def transform_def split: if_splits)
qed

section \<open>The invariant of the session\<close>

text \<open>
  The live modules carry distinct keys, all of them handed out by the session, and so do the
  resolvers; every live module came verified out of the pipeline; the data layout is that of
  the target machine.
\<close>

definition jit_inv :: "third_party \<Rightarrow> jit \<Rightarrow> bool" where
  "jit_inv E j \<longleftrightarrow>
     distinct (map fst (layer_modules j)) \<and>
     fst ` set (layer_modules j) \<subseteq> resolvers j \<and>
     resolvers j = vmodule_key E ` {..<keys_allocated j} \<and>
     (\<forall>(_, m) \<in> set (layer_modules j). verified_last E m) \<and>
     m_data_layout j = data_layout (m_target_machine j)"

lemma JIT_init_inv: "JIT_init E native = Inr j \<Longrightarrow> jit_inv E j \<and> layer_modules j = []"
  by (auto simp: JIT_init_def jit_inv_def Let_def bindE_eq_Inr)

lemma JIT_init_ok: "third_party_ok E \<Longrightarrow> \<exists>j. JIT_init E True = Inr j"
  using sessionD(1) [of E "createEngineBuilder E"] by (auto simp: JIT_init_def Let_def)

lemma fresh_key:
  assumes "third_party_ok E" and "jit_inv E j"
  shows "vmodule_key E (keys_allocated j) \<notin> fst ` set (layer_modules j)"
proof
  have keys: "fst ` set (layer_modules j) \<subseteq> vmodule_key E ` {..<keys_allocated j}"
    using assms(2) unfolding jit_inv_def by metis
  assume "vmodule_key E (keys_allocated j) \<in> fst ` set (layer_modules j)"
  with keys obtain n where "n < keys_allocated j" "vmodule_key E (keys_allocated j) = vmodule_key E n"
    by blast
  with third_party_okD(5) [OF assms(1)] show False by (auto dest: injD)
qed

lemma addModule_cases:
  assumes "addModule E M j = Inr (K, j')"
  obtains m where "K = vmodule_key E (keys_allocated j)" and "verified_last E m"
    and "layer_modules j' = layer_modules j @ [(K, m)]" and "resolvers j' = insert K (resolvers j)"
    and "keys_allocated j' = Suc (keys_allocated j)"
    and "m_data_layout j' = m_data_layout j" and "m_target_machine j' = m_target_machine j"
    and "\<exists>j1. m_target_machine j1 = m_target_machine j \<and> optimizeModule E j1 (as_emitted M) = Inr m"
    and "m_engine_builder j' = m_engine_builder j"
proof -
  let ?j1 = "j\<lparr>keys_allocated := Suc (keys_allocated j),
    resolvers := insert (vmodule_key E (keys_allocated j)) (resolvers j)\<rparr>"
  from assms obtain m where "optimizeModule E ?j1 (as_emitted M) = Inr m"
    and "(K, j') = (vmodule_key E (keys_allocated j),
      ?j1\<lparr>layer_modules := layer_modules j @ [(vmodule_key E (keys_allocated j), m)]\<rparr>)"
    by (auto simp: addModule_def Let_def bindE_eq_Inr)
  moreover from this have "\<exists>j1. m_target_machine j1 = m_target_machine j \<and> optimizeModule E j1 (as_emitted M) = Inr m"
    by (intro exI [of _ ?j1]) simp
  ultimately show thesis using optimizeModule_verified [of E ?j1 "as_emitted M" m] that [of m] by auto
qed

lemma addModule_ok:
  assumes "third_party_ok E" and "wt_module M"
  obtains K m j' where "addModule E M j = Inr (K, j')"
    and "layer_modules j' = layer_modules j @ [(K, m)]" and "m_data_layout j' = m_data_layout j"
    and "refines E (as_emitted M) m"
proof -
  let ?K = "vmodule_key E (keys_allocated j)"
  let ?j1 = "j\<lparr>keys_allocated := Suc (keys_allocated j), resolvers := insert ?K (resolvers j)\<rparr>"
  from optimizeModule_refines [OF assms(1) compilerD(1) [OF assms], of ?j1] obtain m where
    m: "optimizeModule E ?j1 (as_emitted M) = Inr m" "refines E (as_emitted M) m" by blast
  then have "addModule E M j = Inr (?K, ?j1\<lparr>layer_modules := layer_modules j @ [(?K, m)]\<rparr>)"
    by (simp add: addModule_def Let_def)
  from that [OF this _ _ m(2)] show thesis by simp
qed

lemma addModule_inv:
  assumes "third_party_ok E" and "jit_inv E j" and "addModule E M j = Inr (K, j')"
  shows "jit_inv E j'"
  using assms(3)
proof (rule addModule_cases)
  fix m assume j': "K = vmodule_key E (keys_allocated j)" "verified_last E m"
    "layer_modules j' = layer_modules j @ [(K, m)]" "resolvers j' = insert K (resolvers j)"
    "keys_allocated j' = Suc (keys_allocated j)" "m_data_layout j' = m_data_layout j"
    "m_target_machine j' = m_target_machine j"
  show ?thesis
    unfolding jit_inv_def j'(3-7) using assms(2) fresh_key [OF assms(1,2)] j'(1,2)
    by (simp add: jit_inv_def lessThan_Suc) blast
qed

lemma addModule_data_layout: "addModule E M j = Inr (K, j') \<Longrightarrow> m_data_layout j' = m_data_layout j"
  by (rule addModule_cases)

lemma removeModule_data_layout [simp]: "m_data_layout (removeModule K j) = m_data_layout j"
  by (simp add: removeModule_def)

lemma removeModule_inv: "jit_inv E j \<Longrightarrow> jit_inv E (removeModule K j)"
  by (auto simp: jit_inv_def removeModule_def distinct_map_filter)

lemma remove_addModule:
  assumes "third_party_ok E" and "jit_inv E j" and "addModule E M j = Inr (K, j')"
  shows "layer_modules (removeModule K j') = layer_modules j"
  using assms(3)
proof (rule addModule_cases)
  fix m assume j': "K = vmodule_key E (keys_allocated j)" "layer_modules j' = layer_modules j @ [(K, m)]"
  have "filter (\<lambda>(K', _). K' \<noteq> K) (layer_modules j) = layer_modules j"
    using fresh_key [OF assms(1,2)] j'(1) by (force intro!: filter_True)
  with j' show ?thesis by (simp add: removeModule_def)
qed

text \<open>No live module exports the symbol of a name.\<close>

definition symbol_free :: "third_party \<Rightarrow> jit \<Rightarrow> string \<Rightarrow> bool" where
  "symbol_free E j name \<longleftrightarrow>
     list_all (\<lambda>(_, m). \<not> exports E m (mangle E (m_data_layout j) name)) (layer_modules j)"

lemma symbol_free_empty [simp]: "layer_modules j = [] \<Longrightarrow> symbol_free E j name"
  by (simp add: symbol_free_def)

lemma symbol_free_cong:
  "layer_modules j = layer_modules j' \<Longrightarrow> m_data_layout j = m_data_layout j' \<Longrightarrow>
   symbol_free E j name = symbol_free E j' name"
  by (simp add: symbol_free_def)

lemma findSymbol_added:
  assumes "third_party_ok E" and "layer_modules j' = layer_modules j @ [(K, m)]"
    and "m_data_layout j' = m_data_layout j" and "mod_layout (emitted m) = m_data_layout j"
    and "fn_name f = name"
    and "f \<in> set (mod_functions (emitted m))" and "fn_external f"
    and "\<And>f'. f' \<in> set (mod_functions (emitted m)) \<Longrightarrow> fn_external f' \<Longrightarrow>
      mangle E (m_data_layout j) (fn_name f') = mangle E (m_data_layout j) name \<Longrightarrow> f' = f"
    and "symbol_free E j name"
  shows "findSymbol E name j' = FunctionSymbol m f"
proof -
  let ?symbol = "mangle E (m_data_layout j) name"
  have exp: "exporting E m ?symbol f" using assms(4-7) by (simp add: exporting_def)
  have unique: "m' = m \<and> f' = f"
    if "(K', m') \<in> set (layer_modules j')" "exporting E m' ?symbol f'" for K' m' f'
  proof (cases "(K', m') = (K, m)")
    case True
    with assms(4,8) that(2) show ?thesis by (simp add: exporting_def)
  next
    case False
    with that(1) assms(2) have "(K', m') \<in> set (layer_modules j)" by auto
    with assms(9) have "\<not> exports E m' ?symbol" by (auto simp: symbol_free_def list_all_iff)
    with exportsI [OF that(2)] show ?thesis by blast
  qed
  have "(K, m) \<in> set (layer_modules j')" using assms(2) by simp
  from symbolsD [OF assms(1) this exp unique]
  have "lookup_symbol E True (layer_modules j') ?symbol = FunctionSymbol m f" .
  then show ?thesis using assms(3) by (simp add: findSymbol_def)
qed

section \<open>The sessions a program can reach\<close>

inductive jit_reachable :: "third_party \<Rightarrow> jit \<Rightarrow> bool" for E :: third_party where
  reach_new: "JIT_init E native = Inr j \<Longrightarrow> jit_reachable E j"
| reach_add: "jit_reachable E j \<Longrightarrow> addModule E M j = Inr (K, j') \<Longrightarrow> jit_reachable E j'"
| reach_remove: "jit_reachable E j \<Longrightarrow> jit_reachable E (removeModule K j)"

lemma jit_reachable_inv:
  assumes "third_party_ok E" and "jit_reachable E j"
  shows "jit_inv E j"
  using assms(2)
  by (induction rule: jit_reachable.induct)
    (auto simp: JIT_init_inv removeModule_inv addModule_inv [OF assms(1)])

end
