(* ===== verification/Filter_Kernel.thy ===== *)
theory Filter_Kernel
  imports LLVM_Types Jit
begin

text \<open>
  \<^verbatim>\<open>pefa/kernels/filter.cpp\<close>: the visitor that emits the predicate of a kernel, the
  generators of the two filter loops, and the kernel object with its compiled code.
\<close>

section \<open>IrEmitVisitor\<close>

text \<open>
  The fields of the visitor that change, and the basic block its builder appends to:
  \<open>emit_next\<close> is the next free register. A null \<open>m_result\<close> is \<open>None\<close>.
\<close>

record emit_state =
  m_result :: "operand option"
  m_last_op :: predicate_op
  emit_next :: nat
  emit_code :: "instr list"

definition initial_emit_state :: emit_state where
  "initial_emit_state = \<lparr>m_result = None, m_last_op = Op_AND, emit_next = 0, emit_code = []\<rparr>"

text \<open>The builder inserts an instruction that defines the next register.\<close>

definition insert_instr :: "instr \<Rightarrow> emit_state \<Rightarrow> emit_state" where
  "insert_instr x s =
     s\<lparr>m_result := Some (Reg (emit_next s)), emit_next := Suc (emit_next s),
       emit_code := emit_code s @ [x]\<rparr>"

definition emit_predicate :: "(emit_state \<Rightarrow> emit_state result) \<Rightarrow> (emit_state \<Rightarrow> emit_state result) \<Rightarrow>
    predicate_op \<Rightarrow> emit_state \<Rightarrow> emit_state result" where
  "emit_predicate visit_lhs visit_rhs op s =
     bindE (visit_lhs (s\<lparr>m_last_op := op\<rparr>)) (\<lambda>s1. let lhs = m_result s1 in
     bindE (visit_rhs (s1\<lparr>m_last_op := op\<rparr>)) (\<lambda>s2. let rhs = m_result s2 in
     bindE (deref lhs) (\<lambda>l. bindE (deref rhs) (\<lambda>r.
       case op of
         Op_OR \<Rightarrow> Inr (insert_instr (BinOp (emit_next s2) Or l r) s2)
       | Op_AND \<Rightarrow> Inr (insert_instr (BinOp (emit_next s2) And l r) s2)))))"

text \<open>Where \<open>assert(false)\<close> is compiled out, \<open>m_result\<close> stays as it was.\<close>

definition emit_compare :: "third_party \<Rightarrow> field \<Rightarrow>
    (emit_state \<Rightarrow> emit_state result) \<Rightarrow> (emit_state \<Rightarrow> emit_state result) \<Rightarrow>
    column_ref \<Rightarrow> literal_expr \<Rightarrow> compare_op \<Rightarrow> emit_state \<Rightarrow> emit_state result" where
  "emit_compare E fld visit_lhs visit_rhs lhs rhs op s =
     (if column_name lhs = field_name fld then
        let typ = field_type fld in
        bindE (const_from_variant E typ (literal_value rhs)) (\<lambda>constant.
        bindE (create_cmp_op op typ (emit_next s) (Arg 0) (Const constant)) (\<lambda>x.
          Inr (insert_instr x s)))
      else if ndebug E then Inr s
      else Inl AssertionFailure)"

text \<open>The other methods are the inherited ones.\<close>

definition ir_emit_visitor :: "third_party \<Rightarrow> field \<Rightarrow> emit_state expr_visitor" where
  "ir_emit_visitor E fld =
     default_visitor\<lparr>visit_predicate := emit_predicate, visit_compare := emit_compare E fld\<rparr>"

section \<open>The generated functions\<close>

text \<open>
  \<^verbatim>\<open>gen_predicate_func\<close>. A \<open>ret\<close> built from a null value is a \<open>ret void\<close>.
\<close>

definition gen_predicate_func :: "third_party \<Rightarrow> field \<Rightarrow> expr \<Rightarrow> ir_function result" where
  "gen_predicate_func E fld e =
     bindE (from_arrow (field_type fld)) (\<lambda>param_type.
     bindE (accept_expr (ir_emit_visitor E fld) e initial_emit_state) (\<lambda>visitor.
       let create_ret = (case m_result visitor of Some result \<Rightarrow> Ret result | None \<Rightarrow> RetVoid) in Inr
         \<lparr>fn_name = field_name fld @ ''_predicate'', fn_external = False,
          fn_params = [param_type], fn_ret = Some bool_typ,
          fn_blocks = [(''body'', emit_code visitor @ [create_ret])]\<rparr>))"

text \<open>
  The blocks of \<^verbatim>\<open>gen_filter_func\<close>, in the order in which they are created. Registers are
  numbered in the order of the builder calls; those the source keeps in a variable carry its
  name. \<open>CreatePointerCast\<close> to the type that the pointer has, for the columns of 8 bits, returns the
  pointer itself; here it is an instruction that copies it. An address outside of its buffer is
  an error where it is used, not where \<open>CreateInBoundsGEP\<close> computes it.
\<close>

definition filter_blocks :: "string \<Rightarrow> ir_type \<Rightarrow> (string \<times> instr list) list" where
  "filter_blocks name ty =
    (let arg_source = Arg 0; arg_dest = Arg 1; arg_len = Arg 2;
         i = 0; j = 1; tmp_bitmap = 2; source = 3; condition = 6; li = 7; src = 9;
         bit = 16; bit_with_shift = 19; updated_tmp_bitmap = 21;
         dest_val = 26; updated_bitmap = 28 in
     [(''body'',
       [Alloca i i64_typ, Alloca j i8_typ, Alloca tmp_bitmap i8_typ,
        Store (Const (i64val 0)) (Reg i),
        PtrCast source (TPtr ty) arg_source,
        Br ''outerloop.cond'']),
      (''outerloop.cond'',
       [Load 4 (Reg i), BinOp 5 UDiv arg_len (Const (i64val 8)),
        ICmp condition ICMP_SLT (Reg 4) (Reg 5),
        CondBr (Reg condition) ''outerloop.body'' ''outerloop.end'']),
      (''outerloop.body'',
       [Load li (Reg i), BinOp 8 Mul (Reg li) (Const (i64val 8)), GEP src (Reg source) (Reg 8),
        Store (Const (i8val 0)) (Reg tmp_bitmap),
        Store (Const (i8val 0)) (Reg j),
        Br ''innerloop.cond'']),
      (''innerloop.cond'',
       [Load 10 (Reg j), ICmp 11 ICMP_SLT (Reg 10) (Const (i8val 8)),
        CondBr (Reg 11) ''innedloop.body'' ''innerloop.end'']),
      (''innedloop.body'',
       [Load 12 (Reg j), GEP 13 (Reg src) (Reg 12), Load 14 (Reg 13),
        Call 15 (name @ ''_predicate'') [Reg 14], ZExt bit i8_typ (Reg 15),
        Load 17 (Reg j), BinOp 18 Sub (Const (i8val 7)) (Reg 17),
        BinOp bit_with_shift Shl (Reg bit) (Reg 18),
        Load 20 (Reg tmp_bitmap), BinOp updated_tmp_bitmap Or (Reg 20) (Reg bit_with_shift),
        Store (Reg updated_tmp_bitmap) (Reg tmp_bitmap),
        Load 22 (Reg j), BinOp 23 Add (Reg 22) (Const (i8val 1)), Store (Reg 23) (Reg j),
        Br ''innerloop.cond'']),
      (''outerloop.end'', [RetVoid]),
      (''innerloop.end'',
       [Load 24 (Reg i), GEP 25 arg_dest (Reg 24), Load dest_val (Reg 25),
        Load 27 (Reg tmp_bitmap), BinOp updated_bitmap And (Reg dest_val) (Reg 27),
        Load 29 (Reg i), GEP 30 arg_dest (Reg 29), Store (Reg updated_bitmap) (Reg 30),
        Load 31 (Reg i), BinOp 32 Add (Reg 31) (Const (i64val 1)), Store (Reg 32) (Reg i),
        Br ''outerloop.cond''])])"

definition gen_filter_func :: "field \<Rightarrow> ir_function result" where
  "gen_filter_func fld =
     bindE (from_arrow (field_type fld)) (\<lambda>ty. Inr
       \<lparr>fn_name = field_name fld @ ''_filter'', fn_external = True,
        fn_params = [TPtr i8_typ, TPtr i8_typ, i64_typ], fn_ret = None,
        fn_blocks = filter_blocks (field_name fld) ty\<rparr>)"

text \<open>
  The blocks of \<^verbatim>\<open>gen_filter_remaining_func\<close>. \<open>CreateNot\<close> is an exclusive or with all ones.
\<close>

definition filter_remaining_blocks :: "string \<Rightarrow> ir_type \<Rightarrow> (string \<times> instr list) list" where
  "filter_remaining_blocks name ty =
    (let arg_source = Arg 0; arg_dest = Arg 1; arg_len = Arg 2; arg_bit_offset = Arg 3;
         i = 0; source = 1; condition = 3; bit = 8; masked_bit = 15 in
     [(''body'',
       [Alloca i i8_typ, Store (Const (i8val 0)) (Reg i),
        PtrCast source (TPtr ty) arg_source,
        Br ''loop.cond'']),
      (''loop.cond'',
       [Load 2 (Reg i), ICmp condition ICMP_SLT (Reg 2) arg_len,
        CondBr (Reg condition) ''loop.body'' ''loop.end'']),
      (''loop.body'',
       [Load 4 (Reg i), GEP 5 (Reg source) (Reg 4), Load 6 (Reg 5),
        Call 7 (name @ ''_predicate'') [Reg 6], ZExt bit i8_typ (Reg 7),
        BinOp 9 Xor (Reg bit) (Const (i8val (-1))), BinOp 10 And (Reg 9) (Const (i8val 1)),
        Load 11 (Reg i), BinOp 12 Add (Reg 11) arg_bit_offset,
        BinOp 13 Sub (Const (i8val 7)) (Reg 12), BinOp 14 Shl (Reg 10) (Reg 13),
        BinOp masked_bit Xor (Reg 14) (Const (i8val (-1))),
        Load 16 arg_dest, BinOp 17 And (Reg 16) (Reg masked_bit), Store (Reg 17) arg_dest,
        Load 18 (Reg i), BinOp 19 Add (Reg 18) (Const (i8val 1)), Store (Reg 19) (Reg i),
        Br ''loop.cond'']),
      (''loop.end'', [RetVoid])])"

definition gen_filter_remaining_func :: "field \<Rightarrow> ir_function result" where
  "gen_filter_remaining_func fld =
     bindE (from_arrow (field_type fld)) (\<lambda>ty. Inr
       \<lparr>fn_name = field_name fld @ ''_filter_remaining'', fn_external = True,
        fn_params = [TPtr i8_typ, TPtr i8_typ, i8_typ, i8_typ], fn_ret = None,
        fn_blocks = filter_remaining_blocks (field_name fld) ty\<rparr>)"

section \<open>The kernel object\<close>

text \<open>\<^verbatim>\<open>FitlerKernelImpl\<close>. A null function pointer is \<open>None\<close>.\<close>

record filter_kernel =
  k_field :: field
  k_expr :: expr
  k_module_key :: nat
  k_is_compiled :: bool
  k_filter_func :: "(llvm_module \<times> ir_function) option"
  k_filter_remaining_func :: "(llvm_module \<times> ir_function) option"

definition create_cpu :: "field \<Rightarrow> expr \<Rightarrow> filter_kernel" where
  "create_cpu fld e =
     \<lparr>k_field = fld, k_expr = e, k_module_key = 0, k_is_compiled = False,
      k_filter_func = None, k_filter_remaining_func = None\<rparr>"

text \<open>The module with its triple and its three functions.\<close>

definition gen_module :: "third_party \<Rightarrow> field \<Rightarrow> expr \<Rightarrow> ir_module result" where
  "gen_module E fld e =
     bindE (gen_predicate_func E fld e) (\<lambda>p.
     bindE (gen_filter_func fld) (\<lambda>f.
     bindE (gen_filter_remaining_func fld) (\<lambda>r.
       Inr \<lparr>mod_name = field_name fld @ ''_filter_mod'', mod_triple = process_triple E,
            mod_layout = [], mod_functions = [p, f, r]\<rparr>)))"

text \<open>\<open>getAddress().get()\<close>: the address of the null symbol is null, an unchecked error aborts.\<close>

fun symbol_address :: "jit_symbol \<Rightarrow> (llvm_module \<times> ir_function) option result" where
  "symbol_address NoSymbol = Inr None"
| "symbol_address SymbolError = Inl FatalError"
| "symbol_address (FunctionSymbol m f) = Inr (Some (m, f))"

definition compile_kernel :: "third_party \<Rightarrow> filter_kernel \<Rightarrow> jit \<Rightarrow> (filter_kernel \<times> jit) result" where
  "compile_kernel E k j =
     bindE (gen_module E (k_field k) (k_expr k)) (\<lambda>module.
       let machine = getTargetMachine j;
           layout = data_layout machine;
           module = module\<lparr>mod_layout := layout\<rparr>;
           name = field_name (k_field k) in
       bindE (addModule E module j) (\<lambda>(moduleKey, j').
       bindE (symbol_address (findSymbol E (name @ ''_filter'') j')) (\<lambda>filter_func.
       bindE (symbol_address (findSymbol E (name @ ''_filter_remaining'') j')) (\<lambda>filter_remaining_func.
         Inr (k\<lparr>k_module_key := moduleKey,
                k_filter_func := filter_func,
                k_filter_remaining_func := filter_remaining_func,
                k_is_compiled := True\<rparr>, j')))))"

lemma compile_kernel_adds:
  assumes "compile_kernel E k0 j = Inr (k, j')"
  obtains M key where "addModule E M j = Inr (key, j')" and "k_module_key k = key" and "k_is_compiled k"
  using assms by (auto simp: compile_kernel_def Let_def bindE_eq_Inr)

definition destroy_kernel :: "filter_kernel \<Rightarrow> jit \<Rightarrow> jit" where
  "destroy_kernel k j = (if k_is_compiled k then removeModule (k_module_key k) j else j)"

text \<open>
  \<open>column->data()->buffers[1]->data() + ...\<close> and \<open>bitmap + ...\<close> are cells of the data buffer
  and of the bitmap; the caller's bitmap pointer is the byte \<open>base\<close>. The sizes are \<open>size_t\<close>,
  and the difference of the lengths wraps around before it becomes the loop's \<open>int64_t\<close>.
\<close>

definition execute_kernel :: "third_party \<Rightarrow> filter_kernel \<Rightarrow> array \<Rightarrow> byte list \<Rightarrow> nat \<Rightarrow> 64 word \<Rightarrow> byte list result" where
  "execute_kernel E k column bmp base offset =
     (if \<not> k_is_compiled k then Inl (Thrown KernelNotCompiledException)
      else case bit_width (array_type column) of
        None \<Rightarrow> throw_not_implemented ''Variable length type filtering does not implemented yet''
      | Some w \<Rightarrow>
          bindE (deref (data_buffer column)) (\<lambda>buf.
          bindE (deref (k_filter_func k)) (\<lambda>func.
            call_compiled E func
              [VPtr TI8 (Cell Source (uint ((of_nat w * offset) div 8))),
               VPtr TI8 (Cell Bitmap (int base + (if offset \<noteq> 0 then 1 else 0))),
               VI64 (of_nat (array_length column) - offset)] buf bmp)))"

definition remaining_len :: "nat \<Rightarrow> 64 word \<Rightarrow> 8 word \<Rightarrow> 8 word" where
  "remaining_len column_length array_offset bit_offset =
     (if array_offset = 0
      then min (8 - bit_offset) (ucast (of_nat column_length - array_offset :: 64 word))
      else ucast (of_nat column_length - array_offset :: 64 word))"

definition execute_remaining_kernel :: "third_party \<Rightarrow> filter_kernel \<Rightarrow> array \<Rightarrow> byte list \<Rightarrow> nat \<Rightarrow>
    64 word \<Rightarrow> 8 word \<Rightarrow> byte list result" where
  "execute_remaining_kernel E k column bmp base array_offset bit_offset =
     (if \<not> k_is_compiled k then Inl (Thrown KernelNotCompiledException)
      else case bit_width (array_type column) of
        None \<Rightarrow> throw_not_implemented ''Variable length type filtering does not implemented yet''
      | Some w \<Rightarrow>
          bindE (deref (data_buffer column)) (\<lambda>buf.
          bindE (deref (k_filter_remaining_func k)) (\<lambda>func.
            call_compiled E func
              [VPtr TI8 (Cell Source (uint ((of_nat w * array_offset) div 8))),
               VPtr TI8 (Cell Bitmap (int base)),
               VI8 (remaining_len (array_length column) array_offset bit_offset),
               VI8 bit_offset] buf bmp)))"

end
