(* ===== verification/Predicate_Emit.thy ===== *)
theory Predicate_Emit
  imports Filter_Kernel
begin

text \<open>
  The predicate function of a kernel computes the kernel's expression: what
  \<open>IrEmitVisitor\<close> emits for an expression, run on a column element, returns the truth value
  the expression has for that element.
\<close>

section \<open>The expressions a kernel compiles\<close>

text \<open>The truth of one comparison for an element \<open>v\<close> of a column of type \<open>t\<close>.\<close>

definition element_compare :: "third_party \<Rightarrow> data_type \<Rightarrow> ir_value \<Rightarrow>
    column_ref \<Rightarrow> literal_expr \<Rightarrow> compare_op \<Rightarrow> bool" where
  "element_compare E t v c x op =
     (case const_from_variant E t (literal_value x) of
        Inr k \<Rightarrow> compare_values (id_of t) op v k
      | Inl _ \<Rightarrow> False)"

definition element_holds :: "third_party \<Rightarrow> field \<Rightarrow> bool_expr \<Rightarrow> ir_value \<Rightarrow> bool" where
  "element_holds E fld e v = holds (element_compare E (field_type fld) v) e"

text \<open>
  No boolean constants, only comparisons of the kernel's own column, a numeric column, and
  literals of the alternative the column's type needs.
\<close>

definition compilable :: "third_party \<Rightarrow> field \<Rightarrow> bool_expr \<Rightarrow> bool" where
  "compilable E fld e \<longleftrightarrow>
     numeric_case (id_of (field_type fld)) \<and> const_free e \<and>
     (\<forall>(c, x, _) \<in> set (comparisons e).
        column_name c = field_name fld \<and>
        \<not> isl (const_from_variant E (field_type fld) (literal_value x)))"

lemma not_isl_iff: "\<not> isl r \<longleftrightarrow> (\<exists>x. r = Inr x)"
  by (cases r) auto

lemma compilable_PredicateExpr [simp]:
  "compilable E fld (PredicateExpr l r op) \<longleftrightarrow> compilable E fld l \<and> compilable E fld r"
  by (simp add: compilable_def ball_Un) blast

section \<open>Emission\<close>

text \<open>
  \<open>emits s s' ty P\<close>: between \<open>s\<close> and \<open>s'\<close> the visitor appended code that leaves
  \<open>P v\<close> in its result register, for every argument \<open>v\<close> of type \<open>ty\<close>, and does not touch the
  registers that were in use.
\<close>

definition computes :: "instr list \<Rightarrow> nat \<Rightarrow> nat \<Rightarrow> ir_type \<Rightarrow> (ir_value \<Rightarrow> bool) \<Rightarrow> bool" where
  "computes code n r ty P \<longleftrightarrow>
     (\<forall>v call src s. type_of v = ty \<longrightarrow>
        (\<exists>s'. exec_straight call src [v] code s = Inr s' \<and> regs s' r = Some (i1 (P v)) \<and>
              (\<forall>q < n. regs s' q = regs s q) \<and> bitmap s' = bitmap s))"

definition emits :: "emit_state \<Rightarrow> emit_state \<Rightarrow> ir_type \<Rightarrow> (ir_value \<Rightarrow> bool) \<Rightarrow> bool" where
  "emits s s' ty P \<longleftrightarrow>
     (\<exists>code r. emit_code s' = emit_code s @ code \<and> m_result s' = Some (Reg r) \<and>
        emit_next s \<le> r \<and> r < emit_next s' \<and> computes code (emit_next s) r ty P)"

lemma computes_append:
  assumes l: "computes code1 n r1 ty P" and r: "computes code2 m r2 ty Q"
    and "r1 < m" and "n \<le> m" and "r2 < k" and "m \<le> k"
    and f: "(f = And \<and> R = (\<lambda>v. P v \<and> Q v)) \<or> (f = Or \<and> R = (\<lambda>v. P v \<or> Q v))"
  shows "computes (code1 @ code2 @ [BinOp k f (Reg r1) (Reg r2)]) n k ty R"
  unfolding computes_def
proof (intro allI impI)
  fix v call src s
  assume v: "type_of v = ty"
  from l v obtain s1 where s1: "exec_straight call src [v] code1 s = Inr s1"
    "regs s1 r1 = Some (i1 (P v))" "\<forall>q < n. regs s1 q = regs s q" "bitmap s1 = bitmap s"
    unfolding computes_def by blast
  from r v obtain s2 where s2: "exec_straight call src [v] code2 s1 = Inr s2"
    "regs s2 r2 = Some (i1 (Q v))" "\<forall>q < m. regs s2 q = regs s1 q" "bitmap s2 = bitmap s1"
    unfolding computes_def by blast
  from s1 s2 \<open>r1 < m\<close> have "regs s2 r1 = Some (i1 (P v))" by simp
  moreover have "binop_result f (i1 (P v)) (i1 (Q v)) = Inr (i1 (R v))" using f by auto
  ultimately show "\<exists>s'. exec_straight call src [v]
      (code1 @ code2 @ [BinOp k f (Reg r1) (Reg r2)]) s = Inr s' \<and>
      regs s' k = Some (i1 (R v)) \<and> (\<forall>q < n. regs s' q = regs s q) \<and> bitmap s' = bitmap s"
    using s1 s2 \<open>n \<le> m\<close> \<open>m \<le> k\<close> by (simp add: exec_straight_append)
qed

lemma emit_compare_ok:
  assumes "compilable E fld (CompareExpr c x op)" and "from_arrow (field_type fld) = Inr ty"
  shows "\<exists>s'. emit_compare E fld lv rv c x op s = Inr s' \<and>
    emits s s' ty (element_holds E fld (CompareExpr c x op))"
proof -
  let ?t = "field_type fld"
  from assms(1) obtain k where k: "const_from_variant E ?t (literal_value x) = Inr k"
    and col: "column_name c = field_name fld"
    by (auto simp: compilable_def not_isl_iff)
  obtain ins where ins: "create_cmp_op op ?t (emit_next s) (Arg 0) (Const k) = Inr ins"
    using create_cmp_op_total [OF assms(2)] by blast
  have exec: "exec_instr call src [v] ins fr =
      Inr (Continue (set_reg (emit_next s) (i1 (compare_values (id_of ?t) op v k)) fr))"
    if "type_of v = ty" for v call src fr
    using create_cmp_op_exec [OF assms(2) that const_from_variant_type [OF assms(2) k] ins]
    by simp
  have "computes [ins] (emit_next s) (emit_next s) ty (element_holds E fld (CompareExpr c x op))"
    by (auto simp: computes_def exec element_holds_def element_compare_def k)
  then have "emits s (insert_instr ins s) ty (element_holds E fld (CompareExpr c x op))"
    by (simp add: emits_def insert_instr_def)
  then show ?thesis
    using k col ins by (simp add: emit_compare_def Let_def)
qed

lemma emits_combine:
  assumes "emits s s1 ty P" and "emits (s1\<lparr>m_last_op := op\<rparr>) s2 ty Q"
    and f: "(f = And \<and> R = (\<lambda>v. P v \<and> Q v)) \<or> (f = Or \<and> R = (\<lambda>v. P v \<or> Q v))"
    and "m_result s1 = Some l" and "m_result s2 = Some r"
  shows "emits s (insert_instr (BinOp (emit_next s2) f l r) s2) ty R"
proof -
  from assms obtain code1 code2 r1 r2 where
    l: "l = Reg r1" "emit_code s1 = emit_code s @ code1" "emit_next s \<le> r1" "r1 < emit_next s1"
      "computes code1 (emit_next s) r1 ty P"
    and r: "r = Reg r2" "emit_code s2 = emit_code s1 @ code2" "emit_next s1 \<le> r2"
      "r2 < emit_next s2" "computes code2 (emit_next s1) r2 ty Q"
    by (auto simp: emits_def)
  have "computes (code1 @ code2 @ [BinOp (emit_next s2) f l r]) (emit_next s) (emit_next s2) ty R"
    unfolding l(1) r(1) by (rule computes_append [OF l(5) r(5) _ _ _ _ f]) (use l r in auto)
  with l r show ?thesis by (auto simp: emits_def insert_instr_def)
qed

lemma emit_ok:
  assumes "from_arrow (field_type fld) = Inr ty" and "compilable E fld e"
  shows "\<exists>s'. accept (ir_emit_visitor E fld) e s = Inr s' \<and> emits s s' ty (element_holds E fld e)"
  using assms(2)
proof (induction e arbitrary: s)
  case (BooleanConst b)
  then show ?case by (simp add: compilable_def)
next
  case (CompareExpr c x op)
  then show ?case
    using emit_compare_ok [OF _ assms(1)] by (simp add: ir_emit_visitor_def)
next
  case (PredicateExpr l r op)
  let ?v = "ir_emit_visitor E fld"
  from PredicateExpr obtain s1 where
    s1: "accept ?v l (s\<lparr>m_last_op := op\<rparr>) = Inr s1"
      "emits (s\<lparr>m_last_op := op\<rparr>) s1 ty (element_holds E fld l)"
    by (meson compilable_PredicateExpr)
  from PredicateExpr obtain s2 where
    s2: "accept ?v r (s1\<lparr>m_last_op := op\<rparr>) = Inr s2"
      "emits (s1\<lparr>m_last_op := op\<rparr>) s2 ty (element_holds E fld r)"
    by (meson compilable_PredicateExpr)
  from s1 s2 obtain lr rr where res: "m_result s1 = Some lr" "m_result s2 = Some rr"
    by (auto simp: emits_def)
  from s1(2) have "emits s s1 ty (element_holds E fld l)" by (simp add: emits_def)
  note combine = emits_combine [OF this s2(2) _ res]
  have "accept ?v (PredicateExpr l r op) s = Inr (insert_instr
      (BinOp (emit_next s2) (case op of Op_AND \<Rightarrow> And | Op_OR \<Rightarrow> Or) lr rr) s2)"
    using s1 s2 res
    by (simp add: ir_emit_visitor_def emit_predicate_def split: predicate_op.splits)
  moreover have "emits s (insert_instr
      (BinOp (emit_next s2) (case op of Op_AND \<Rightarrow> And | Op_OR \<Rightarrow> Or) lr rr) s2) ty
      (element_holds E fld (PredicateExpr l r op))"
    by (rule combine) (cases op; simp add: element_holds_def fun_eq_iff)
  ultimately show ?case by blast
qed

section \<open>The predicate function\<close>

definition is_predicate_function :: "ir_function \<Rightarrow> string \<Rightarrow> ir_type \<Rightarrow> (ir_value \<Rightarrow> bool) \<Rightarrow> bool" where
  "is_predicate_function f name ty P \<longleftrightarrow>
     fn_name f = name @ ''_predicate'' \<and> \<not> fn_external f \<and>
     (\<forall>call src bmp v n. type_of v = ty \<longrightarrow>
        run_function call (Suc n) f [v] src bmp = Inr (Some (i1 (P v)), bmp))"

lemma gen_predicate_func_ok:
  assumes "compilable E fld e"
  obtains ty f where "from_arrow (field_type fld) = Inr ty"
    and "gen_predicate_func E fld (EBool e) = Inr f"
    and "is_predicate_function f (field_name fld) ty (element_holds E fld e)"
proof -
  from assms obtain ty where ty: "from_arrow (field_type fld) = Inr ty"
    unfolding compilable_def from_arrow_numeric [symmetric] by blast
  from emit_ok [OF ty assms, of initial_emit_state] obtain s' code r where
    s': "accept (ir_emit_visitor E fld) e initial_emit_state = Inr s'"
    and code: "emit_code s' = code" "m_result s' = Some (Reg r)"
      "computes code 0 r ty (element_holds E fld e)"
    by (auto simp: emits_def initial_emit_state_def)
  let ?f = "\<lparr>fn_name = field_name fld @ ''_predicate'', fn_external = False,
    fn_params = [ty], fn_ret = Some bool_typ, fn_blocks = [(''body'', code @ [Ret (Reg r)])]\<rparr>"
  have gen: "gen_predicate_func E fld (EBool e) = Inr ?f"
    using ty s' code by (simp add: gen_predicate_func_def)
  have run: "run_function call (Suc n) ?f [v] src bmp = Inr (Some (i1 (element_holds E fld e v)), bmp)"
    if v: "type_of v = ty" for call n src bmp v
  proof -
    let ?s = "\<lparr>regs = Map.empty, slots = Map.empty, bitmap = bmp\<rparr>"
    from code(3) v obtain fr where fr: "exec_straight call src [v] code ?s = Inr fr"
      "regs fr r = Some (i1 (element_holds E fld e v))" "bitmap fr = bmp"
      unfolding computes_def by (metis frame.select_convs(3))
    with v show ?thesis
      by (simp add: run_function_def exec_block_append [OF fr(1)])
  qed
  show thesis
    by (rule that [OF ty gen]) (use run in \<open>simp add: is_predicate_function_def\<close>)
qed

end
