(* ===== verification/Bitmaps.thy ===== *)
theory Bitmaps
  imports Prelude
begin

text \<open>
  Filter bitmaps: row \<open>r\<close> is bit \<open>7 - r % 8\<close> of byte \<open>r / 8\<close> (the most significant bit comes
  first). The kernel only ever clears bits, so a step is described by the set of rows it looks
  at and the predicate it applies there.
\<close>

definition bm_bit :: "byte list \<Rightarrow> nat \<Rightarrow> bool" where
  "bm_bit B r = bit (B ! (r div 8)) (7 - r mod 8)"

definition restricts :: "byte list \<Rightarrow> byte list \<Rightarrow> nat set \<Rightarrow> (nat \<Rightarrow> bool) \<Rightarrow> bool" where
  "restricts B B' S P \<longleftrightarrow>
     length B' = length B \<and>
     (\<forall>r < 8 * length B. bm_bit B' r \<longleftrightarrow> bm_bit B r \<and> (r \<in> S \<longrightarrow> P r))"

lemma restricts_refl: "restricts B B {} P"
  by (simp add: restricts_def)

lemma restricts_trans:
  "restricts B B' S P \<Longrightarrow> restricts B' B'' S' P \<Longrightarrow> restricts B B'' (S \<union> S') P"
  by (auto simp: restricts_def)

lemma restricts_cong:
  "restricts B B' S P \<Longrightarrow> (\<And>r. r \<in> S \<Longrightarrow> P r = Q r) \<Longrightarrow> restricts B B' S Q"
  by (auto simp: restricts_def)

lemma restricts_length: "restricts B B' S P \<Longrightarrow> length B' = length B"
  by (simp add: restricts_def)

lemma restricts_bit:
  "restricts B B' S P \<Longrightarrow> r < 8 * length B \<Longrightarrow> bm_bit B' r \<longleftrightarrow> bm_bit B r \<and> (r \<in> S \<longrightarrow> P r)"
  by (simp add: restricts_def)

lemma bm_bit_all_ones: "r < 8 * n \<Longrightarrow> bm_bit (replicate n (- 1)) r"
  by (simp add: bm_bit_def less_mult_imp_div_less mult.commute)

lemma row_split: "q < 8 \<Longrightarrow> r = 8 * b + q \<longleftrightarrow> r div 8 = b \<and> r mod 8 = (q::nat)"
  using div_mult_mod_eq [of r 8] by auto

text \<open>A byte is masked in place.\<close>

definition mask_byte :: "byte list \<Rightarrow> nat \<Rightarrow> byte \<Rightarrow> byte list" where
  "mask_byte B i m = B[i := B ! i AND m]"

lemma length_mask_byte [simp]: "length (mask_byte B i m) = length B"
  by (simp add: mask_byte_def)

lemma bm_bit_mask_byte [bitmap_simps]:
  "i < length B \<Longrightarrow>
     bm_bit (mask_byte B i m) r \<longleftrightarrow> bm_bit B r \<and> (r div 8 = i \<longrightarrow> bit m (7 - r mod 8))"
  by (auto simp: bm_bit_def mask_byte_def bit_and_iff nth_list_update)

text \<open>Eight truth values in a byte, the first one in the most significant bit.\<close>

fun pack_bits :: "(nat \<Rightarrow> bool) \<Rightarrow> nat \<Rightarrow> byte" where
  "pack_bits f 0 = 0"
| "pack_bits f (Suc j) = pack_bits f j OR push_bit (7 - j) (of_bool (f j))"

lemma bit_pack_bits:
  assumes "n \<le> 8" and "k < 8"
  shows "bit (pack_bits f n) (7 - k) \<longleftrightarrow> k < n \<and> f k"
  using assms(1)
proof (induction n)
  case (Suc j)
  with assms(2) have "7 - j = 7 - k \<longleftrightarrow> j = k" by auto
  then have "bit (push_bit (7 - j) (of_bool (f j) :: byte)) (7 - k) \<longleftrightarrow> j = k \<and> f j"
    using assms(2) Suc.prems by (auto simp: bit_push_bit_iff bit_of_bool_iff bit_1_iff)
  with Suc show ?case by (auto simp: bit_or_iff less_Suc_eq)
qed simp

text \<open>
  The loop that the comment above \<^verbatim>\<open>gen_filter_func\<close> spells out in C: \<open>n\<close> bytes from
  \<open>base\<close>, eight rows each.
\<close>

fun filter_bytes :: "(nat \<Rightarrow> bool) \<Rightarrow> nat \<Rightarrow> nat \<Rightarrow> byte list \<Rightarrow> byte list" where
  "filter_bytes P base 0 B = B"
| "filter_bytes P base (Suc n) B =
     mask_byte (filter_bytes P base n B) (base + n) (pack_bits (\<lambda>j. P (8 * n + j)) 8)"

lemma length_filter_bytes [simp]: "length (filter_bytes P base n B) = length B"
  by (induction n) auto

lemma filter_bytes_restricts:
  assumes "base + n \<le> length B"
  shows "restricts B (filter_bytes P base n B) {8 * base ..< 8 * (base + n)} (\<lambda>r. P (r - 8 * base))"
  using assms
proof (induction n)
  case 0
  then show ?case by (simp add: restricts_refl)
next
  case (Suc n)
  let ?B = "filter_bytes P base n B"
  let ?I = "{8 * (base + n) ..< 8 * (base + Suc n)}"
  have "restricts ?B (filter_bytes P base (Suc n) B) ?I (\<lambda>r. P (r - 8 * base))"
    unfolding restricts_def
  proof (intro conjI allI impI)
    fix r
    have row: "r \<in> ?I \<longleftrightarrow> r div 8 = base + n" by auto
    have "P (8 * n + r mod 8) = P (r - 8 * base)" if "r div 8 = base + n"
    proof -
      have "r = 8 * (r div 8) + r mod 8" by simp
      with that have "r - 8 * base = 8 * n + r mod 8" by simp
      then show ?thesis by simp
    qed
    with Suc.prems show "bm_bit (filter_bytes P base (Suc n) B) r \<longleftrightarrow>
        bm_bit ?B r \<and> (r \<in> ?I \<longrightarrow> P (r - 8 * base))"
      unfolding row by (simp add: bitmap_simps bit_pack_bits)
  qed simp
  from restricts_trans [OF Suc.IH this] Suc.prems
  have "restricts B (filter_bytes P base (Suc n) B)
      ({8 * base ..< 8 * (base + n)} \<union> ?I) (\<lambda>r. P (r - 8 * base))"
    by simp
  moreover have "{8 * base ..< 8 * (base + n)} \<union> ?I = {8 * base ..< 8 * (base + Suc n)}"
    by auto
  ultimately show ?case by simp
qed

text \<open>
  The loop of \<^verbatim>\<open>gen_filter_remaining_func\<close>: \<open>n\<close> single bits of the byte \<open>base\<close>, from bit
  \<open>offset\<close> (counted from the most significant one) on.
\<close>

definition clear_mask :: "bool \<Rightarrow> nat \<Rightarrow> byte" where
  "clear_mask b q = NOT (push_bit (7 - q) (of_bool (\<not> b)))"

lemma bit_clear_mask:
  assumes "q < 8" and "k < 8"
  shows "bit (clear_mask b q) (7 - k) \<longleftrightarrow> (k = q \<longrightarrow> b)"
proof -
  from assms have "7 - k < LENGTH(8)" and "7 - q \<le> 7 - k \<and> 7 - k - (7 - q) = 0 \<longleftrightarrow> k = q" by auto
  then show ?thesis
    by (auto simp: clear_mask_def bit_not_iff bit_push_bit_iff bit_of_bool_iff possible_bit_def)
qed

fun filter_bits :: "(nat \<Rightarrow> bool) \<Rightarrow> nat \<Rightarrow> nat \<Rightarrow> nat \<Rightarrow> byte list \<Rightarrow> byte list" where
  "filter_bits P base offset 0 B = B"
| "filter_bits P base offset (Suc n) B =
     mask_byte (filter_bits P base offset n B) base (clear_mask (P n) (offset + n))"

lemma length_filter_bits [simp]: "length (filter_bits P base offset n B) = length B"
  by (induction n) auto

lemma filter_bits_restricts:
  assumes "base < length B" and "offset + n \<le> 8"
  shows "restricts B (filter_bits P base offset n B)
    {8 * base + offset ..< 8 * base + offset + n} (\<lambda>r. P (r - (8 * base + offset)))"
  using assms(2)
proof (induction n)
  case 0
  then show ?case by (simp add: restricts_refl)
next
  case (Suc n)
  let ?B = "filter_bits P base offset n B" and ?Q = "\<lambda>r. P (r - (8 * base + offset))"
  have "restricts ?B (filter_bits P base offset (Suc n) B) {8 * base + offset + n} ?Q"
    unfolding restricts_def
  proof (intro conjI allI impI)
    fix r
    have row: "r \<in> {8 * base + offset + n} \<longleftrightarrow> r div 8 = base \<and> r mod 8 = offset + n"
      using row_split [of "offset + n" r base] Suc.prems by (simp add: add.assoc)
    have "P n = ?Q r" if "r div 8 = base" "r mod 8 = offset + n"
    proof -
      from that div_mult_mod_eq [of r 8] have "r = 8 * base + offset + n" by simp
      then show ?thesis by simp
    qed
    with Suc.prems assms(1) show "bm_bit (filter_bits P base offset (Suc n) B) r \<longleftrightarrow>
        bm_bit ?B r \<and> (r \<in> {8 * base + offset + n} \<longrightarrow> ?Q r)"
      unfolding row by (simp add: bitmap_simps bit_clear_mask) blast
  qed simp
  from restricts_trans [OF Suc.IH this] Suc.prems show ?case
    by (simp add: atLeastLessThanSuc)
qed

end
