(* ===== verification/Filter_Loops.thy ===== *)
theory Filter_Loops
  imports Predicate_Emit Bitmaps
begin

text \<open>
  The two functions that \<^verbatim>\<open>gen_filter_func\<close> and \<^verbatim>\<open>gen_filter_remaining_func\<close> emit, run block by
  block: they terminate and compute the loops of the C comment in the source, written as
  \<open>filter_bytes\<close> and \<open>filter_bits\<close>.
\<close>

section \<open>Runs between blocks\<close>

definition reaches :: "(string \<Rightarrow> ir_value list \<Rightarrow> ir_value result) \<Rightarrow> byte list \<Rightarrow> ir_value list \<Rightarrow>
    (string \<times> instr list) list \<Rightarrow> nat \<Rightarrow> string \<Rightarrow> frame \<Rightarrow> string \<Rightarrow> frame \<Rightarrow> bool" where
  "reaches call src args bs k l s l' s' \<longleftrightarrow>
     (\<forall>n. run_blocks call src args bs (k + n) l s = run_blocks call src args bs n l' s')"

lemma reaches_refl: "reaches call src args bs 0 l s l s"
  by (simp add: reaches_def)

lemma reaches_trans:
  assumes "reaches call src args bs k l s l' s'" and "reaches call src args bs k' l' s' l'' s''"
  shows "reaches call src args bs (k + k') l s l'' s''"
  using assms by (simp add: reaches_def add.assoc)

lemma reaches_block:
  assumes "map_of bs l = Some b" and "exec_block call src args b s = Inr (Jump l' s')"
  shows "reaches call src args bs 1 l s l' s'"
  using assms by (simp add: reaches_def)

text \<open>The contract of the predicate function, as the loops see it.\<close>

definition calls_predicate :: "(string \<Rightarrow> ir_value list \<Rightarrow> ir_value result) \<Rightarrow> string \<Rightarrow> ir_type \<Rightarrow>
    (ir_value \<Rightarrow> bool) \<Rightarrow> bool" where
  "calls_predicate call name ty P \<longleftrightarrow>
     (\<forall>v. type_of v = ty \<longrightarrow> call (name @ ''_predicate'') [v] = Inr (i1 (P v)))"

text \<open>Types of column elements, and the element at a byte position of the data buffer.\<close>

definition element_type :: "ir_type \<Rightarrow> bool" where
  "element_type ty \<longleftrightarrow> ty \<in> {TI8, TI16, TI32, TI64, TF16, TF32, TF64}"

definition element_at :: "ir_type \<Rightarrow> byte list \<Rightarrow> nat \<Rightarrow> ir_value" where
  "element_at ty src p = the (decode ty (take (type_size ty) (drop p src)))"

lemma decode_element:
  assumes "element_type ty"
  obtains v where "decode ty bs = Some v" and "type_of v = ty"
  using assms by (auto simp: element_type_def)

lemma from_arrow_element_type: "from_arrow t = Inr ty \<Longrightarrow> element_type ty"
  by (cases "id_of t") (auto simp: from_arrow_def element_type_def llvm_types)

lemma load_element:
  assumes "element_type ty" and "p + type_size ty \<le> length src"
  shows "load_value src s (VPtr ty (Cell Source (int p))) = Inr (element_at ty src p)"
  using decode_element [OF assms(1), of "take (type_size ty) (drop p src)"] assms(2)
  by (metis (mono_tags, lifting) bindE.simps(2) element_at_def load_value.simps(2) option.sel
      read_bytes_ok region.simps(3) well_typed_opt_simps(2))

lemma type_of_element_at: "element_type ty \<Longrightarrow> type_of (element_at ty src p) = ty"
  unfolding element_at_def by (metis decode_element option.sel)

lemma sint_of_nat_small: "n < 2 ^ (LENGTH('a) - 1) \<Longrightarrow> sint (of_nat n :: 'a::len word) = int n"
  by (auto simp: signed_of_nat signed_take_bit_int_eq_self_iff intro: order_trans [of _ 0])

lemma load_byte [simp]:
  assumes "b < length (bitmap s)"
  shows "load_value src s (VPtr TI8 (Cell Bitmap (int b))) = Inr (VI8 (bitmap s ! b))"
proof -
  from assms have "take 1 (drop b (bitmap s)) = [bitmap s ! b]"
    by (simp add: take_Suc_conv_app_nth [of 0, simplified])
  with assms show ?thesis by (simp add: read_bytes_def)
qed

section \<open>The filter loop\<close>

text \<open>
  What a frame holds at the head of the outer loop, and within one of its rounds: \<open>ps\<close> is the
  byte position of the first element, \<open>i\<close> and \<open>j\<close> are the loop counters.
\<close>

definition outer_frame :: "ir_type \<Rightarrow> nat \<Rightarrow> nat \<Rightarrow> byte list \<Rightarrow> frame \<Rightarrow> bool" where
  "outer_frame ty ps i B s \<longleftrightarrow>
     regs s 0 = Some (VPtr TI64 (Slot 0)) \<and> regs s 1 = Some (VPtr TI8 (Slot 1)) \<and>
     regs s 2 = Some (VPtr TI8 (Slot 2)) \<and> regs s 3 = Some (VPtr ty (Cell Source (int ps))) \<and>
     slots s 0 = Some (VI64 (of_nat i)) \<and> bitmap s = B"

definition inner_frame :: "ir_type \<Rightarrow> nat \<Rightarrow> nat \<Rightarrow> byte list \<Rightarrow> nat \<Rightarrow> byte \<Rightarrow> frame \<Rightarrow> bool" where
  "inner_frame ty ps i B j tmp s \<longleftrightarrow>
     outer_frame ty ps i B s \<and>
     regs s 9 = Some (VPtr ty (Cell Source (int (ps + 8 * i * type_size ty)))) \<and>
     slots s 1 = Some (VI8 (of_nat j)) \<and> slots s 2 = Some (VI8 tmp)"

lemmas frame_defs = inner_frame_def outer_frame_def

lemma inner_enter:
  assumes "inner_frame ty ps i B j tmp s" and "j < 8"
  shows "\<exists>s'. reaches call src args (filter_blocks name ty) 1 ''innerloop.cond'' s
      ''innedloop.body'' s' \<and> inner_frame ty ps i B j tmp s'"
proof -
  have "\<exists>b s'. map_of (filter_blocks name ty) ''innerloop.cond'' = Some b \<and>
      exec_block call src args b s = Inr (Jump ''innedloop.body'' s') \<and> inner_frame ty ps i B j tmp s'"
    using assms
    by (simp add: filter_blocks_def Let_def frame_defs llvm_consts i1_def sint_of_nat_small)
  then show ?thesis by (blast intro: reaches_block)
qed

lemma inner_leave:
  assumes "inner_frame ty ps i B 8 tmp s"
  shows "\<exists>s'. reaches call src args (filter_blocks name ty) 1 ''innerloop.cond'' s
      ''innerloop.end'' s' \<and> inner_frame ty ps i B 8 tmp s'"
proof -
  have "\<exists>b s'. map_of (filter_blocks name ty) ''innerloop.cond'' = Some b \<and>
      exec_block call src args b s = Inr (Jump ''innerloop.end'' s') \<and> inner_frame ty ps i B 8 tmp s'"
    using assms by (simp add: filter_blocks_def Let_def frame_defs llvm_consts i1_def)
  then show ?thesis by (blast intro: reaches_block)
qed

text \<open>The arithmetic of one bit, on words.\<close>

lemma gep_index:
  "j < 128 \<Longrightarrow> int a + sint (of_nat j :: 8 word) * int w = int (a + j * w)"
  by (simp add: sint_of_nat_small)

lemma shift_amount: "j < 8 \<Longrightarrow> unat (7 - of_nat j :: 8 word) = 7 - j"
  by (subst unat_sub) (simp_all add: word_le_nat_alt unat_of_nat)

lemma ucast_of_bool: "(ucast (of_bool b :: 1 word) :: 8 word) = of_bool b"
  by (cases b) auto

lemma inner_round:
  assumes s: "inner_frame ty ps i B j tmp s" and j: "j < 8"
    and ty: "element_type ty" and P: "calls_predicate call name ty P"
    and bound: "ps + 8 * i * type_size ty + j * type_size ty + type_size ty \<le> length src"
  shows "\<exists>s'. reaches call src args (filter_blocks name ty) 1 ''innedloop.body'' s
      ''innerloop.cond'' s' \<and>
    inner_frame ty ps i B (Suc j) (tmp OR push_bit (7 - j)
      (of_bool (P (element_at ty src (ps + 8 * i * type_size ty + j * type_size ty))))) s'"
proof -
  let ?p = "ps + 8 * i * type_size ty + j * type_size ty"
  have "load_value src fr (VPtr ty (Cell Source (int (ps + 8 * i * type_size ty)
      + sint (of_nat j :: 8 word) * int (type_size ty)))) = Inr (element_at ty src ?p)" for fr
    using j load_element [OF ty bound] by (subst gep_index) auto
  moreover have "call (name @ ''_predicate'') [element_at ty src ?p] =
      Inr (i1 (P (element_at ty src ?p)))"
    using P type_of_element_at [OF ty] by (simp add: calls_predicate_def)
  ultimately have "\<exists>b s'. map_of (filter_blocks name ty) ''innedloop.body'' = Some b \<and>
      exec_block call src args b s = Inr (Jump ''innerloop.cond'' s') \<and>
      inner_frame ty ps i B (Suc j)
        (tmp OR push_bit (7 - j) (of_bool (P (element_at ty src ?p)))) s'"
    using s j
    by (simp add: filter_blocks_def Let_def frame_defs llvm_consts llvm_types i1_def shift_amount
        ucast_of_bool add.commute [of _ "1 :: 8 word"] del: load_value.simps(2) of_nat_add of_nat_mult)
  then show ?thesis by (blast intro: reaches_block)
qed

definition element_rows :: "ir_type \<Rightarrow> byte list \<Rightarrow> nat \<Rightarrow> (ir_value \<Rightarrow> bool) \<Rightarrow> nat \<Rightarrow> bool" where
  "element_rows ty src ps P k = P (element_at ty src (ps + k * type_size ty))"

text \<open>The first \<open>k\<close> rounds of the inner loop, as far as there are elements.\<close>

lemma inner_loop:
  assumes ty: "element_type ty" and P: "calls_predicate call name ty P"
    and "k \<le> 8" and "k = 0 \<or> ps + (8 * i + k) * type_size ty \<le> length src"
    and s: "inner_frame ty ps i B 0 0 s"
  shows "\<exists>s'. reaches call src args (filter_blocks name ty) (2 * k) ''innerloop.cond'' s
      ''innerloop.cond'' s' \<and>
    inner_frame ty ps i B k (pack_bits (\<lambda>j. element_rows ty src ps P (8 * i + j)) k) s'"
  using assms(3,4)
proof (induction k)
  case 0
  with s show ?case by (auto intro: reaches_refl)
next
  case (Suc k)
  let ?tmp = "pack_bits (\<lambda>j. element_rows ty src ps P (8 * i + j))"
  from Suc.prems have k: "k < 8" and b: "ps + 8 * i * type_size ty + k * type_size ty + type_size ty \<le> length src"
    by (simp_all add: algebra_simps)
  then have "ps + (8 * i + k) * type_size ty \<le> length src" by (simp add: algebra_simps)
  with Suc.IH k obtain s0 where s0:
    "reaches call src args (filter_blocks name ty) (2 * k) ''innerloop.cond'' s ''innerloop.cond'' s0"
    "inner_frame ty ps i B k (?tmp k) s0" by auto
  from inner_enter [OF s0(2) k] obtain s1 where s1:
    "reaches call src args (filter_blocks name ty) 1 ''innerloop.cond'' s0 ''innedloop.body'' s1"
    "inner_frame ty ps i B k (?tmp k) s1" by blast
  from inner_round [OF s1(2) k ty P b] obtain s2 where s2:
    "reaches call src args (filter_blocks name ty) 1 ''innedloop.body'' s1 ''innerloop.cond'' s2"
    "inner_frame ty ps i B (Suc k) (?tmp (Suc k)) s2"
    by (auto simp: element_rows_def algebra_simps)
  from reaches_trans [OF s0(1) reaches_trans [OF s1(1) s2(1)]] s2(2) show ?case by auto
qed

lemma of_nat_div8: "L < 2 ^ 64 \<Longrightarrow> (of_nat L :: 64 word) div 8 = of_nat (L div 8)"
  by (rule word_unat_eq_iff [THEN iffD2]) (simp add: unat_div unat_of_nat)

lemma outer_enter:
  assumes "outer_frame ty ps i B s" and "i < L div 8" and "L < 2 ^ 64" and "i < 2 ^ 60"
    and "args = [a, b, VI64 (of_nat L)]"
  shows "\<exists>s'. reaches call src args (filter_blocks name ty) 2 ''outerloop.cond'' s
      ''innerloop.cond'' s' \<and> inner_frame ty ps i B 0 0 s'"
proof -
  have "\<exists>b s'. map_of (filter_blocks name ty) ''outerloop.cond'' = Some b \<and>
      exec_block call src args b s = Inr (Jump ''outerloop.body'' s') \<and> outer_frame ty ps i B s'"
    using assms
    by (simp add: filter_blocks_def Let_def frame_defs llvm_consts i1_def of_nat_div8
        sint_of_nat_small)
  then obtain s1 where s1: "reaches call src args (filter_blocks name ty) 1 ''outerloop.cond'' s
      ''outerloop.body'' s1" "outer_frame ty ps i B s1"
    by (blast intro: reaches_block)
  have "sint (of_nat i * 8 :: 64 word) = 8 * int i"
    using assms(4) sint_of_nat_small [of "8 * i", where 'a = 64] by (simp add: mult.commute)
  then have "\<exists>b s'. map_of (filter_blocks name ty) ''outerloop.body'' = Some b \<and>
      exec_block call src args b s1 = Inr (Jump ''innerloop.cond'' s') \<and> inner_frame ty ps i B 0 0 s'"
    using s1(2)
    by (simp add: filter_blocks_def Let_def frame_defs llvm_consts llvm_types)
  then obtain s2 where "reaches call src args (filter_blocks name ty) 1 ''outerloop.body'' s1
      ''innerloop.cond'' s2" "inner_frame ty ps i B 0 0 s2"
    by (blast intro: reaches_block)
  with reaches_trans [OF s1(1) this(1), unfolded one_add_one] show ?thesis by blast
qed

lemma outer_mask:
  assumes "inner_frame ty ps i B 8 m s" and "base + i < length B" and "i < 2 ^ 63"
    and "args = [a, VPtr TI8 (Cell Bitmap (int base)), c]"
  shows "\<exists>s'. reaches call src args (filter_blocks name ty) 2 ''innerloop.cond'' s
      ''outerloop.cond'' s' \<and> outer_frame ty ps (Suc i) (mask_byte B (base + i) m) s'"
proof -
  from inner_leave [OF assms(1)] obtain s1 where s1:
    "reaches call src args (filter_blocks name ty) 1 ''innerloop.cond'' s ''innerloop.end'' s1"
    "inner_frame ty ps i B 8 m s1" by blast
  have gep: "int base + sint (of_nat i :: 64 word) = int (base + i)"
    using assms(3) by (simp add: sint_of_nat_small)
  have load: "bitmap fr = B \<Longrightarrow> load_value src fr (VPtr TI8 (Cell Bitmap (int (base + i)))) =
      Inr (VI8 (B ! (base + i)))" for fr
    using assms(2) load_byte by blast
  have "\<exists>b s'. map_of (filter_blocks name ty) ''innerloop.end'' = Some b \<and>
      exec_block call src args b s1 = Inr (Jump ''outerloop.cond'' s') \<and>
      outer_frame ty ps (Suc i) (mask_byte B (base + i) m) s'"
    using s1(2) assms(2,4)
    by (simp add: filter_blocks_def Let_def frame_defs llvm_consts gep load mask_byte_def
        add.commute [of _ "1 :: 64 word"] del: load_value.simps(2) of_nat_add)
  then obtain s2 where "reaches call src args (filter_blocks name ty) 1 ''innerloop.end'' s1
      ''outerloop.cond'' s2" "outer_frame ty ps (Suc i) (mask_byte B (base + i) m) s2"
    by (blast intro: reaches_block)
  with reaches_trans [OF s1(1) this(1), unfolded one_add_one] show ?thesis by blast
qed

text \<open>One round of the outer loop filters one byte of the bitmap.\<close>

lemma outer_round:
  assumes ty: "element_type ty" and P: "calls_predicate call name ty P"
    and s: "outer_frame ty ps i B s" and "i < L div 8" and L: "L < 2 ^ 64" and i: "i < 2 ^ 60"
    and bound: "ps + (8 * i + 8) * type_size ty \<le> length src" and "base + i < length B"
    and args: "args = [a, VPtr TI8 (Cell Bitmap (int base)), VI64 (of_nat L)]"
  shows "\<exists>s'. reaches call src args (filter_blocks name ty) 20 ''outerloop.cond'' s
      ''outerloop.cond'' s' \<and>
    outer_frame ty ps (Suc i) (mask_byte B (base + i)
      (pack_bits (\<lambda>j. element_rows ty src ps P (8 * i + j)) 8)) s'"
proof -
  from outer_enter [OF s assms(4) L i args] obtain s1 where s1:
    "reaches call src args (filter_blocks name ty) 2 ''outerloop.cond'' s ''innerloop.cond'' s1"
    "inner_frame ty ps i B 0 0 s1" by blast
  from inner_loop [OF ty P order_refl disjI2 [OF bound] s1(2)] obtain s2 where s2:
    "reaches call src args (filter_blocks name ty) 16 ''innerloop.cond'' s1 ''innerloop.cond'' s2"
    "inner_frame ty ps i B 8 (pack_bits (\<lambda>j. element_rows ty src ps P (8 * i + j)) 8) s2"
    by auto
  have "i < 2 ^ 63" using i by simp
  from outer_mask [OF s2(2) assms(8) this args] obtain s3 where s3:
    "reaches call src args (filter_blocks name ty) 2 ''innerloop.cond'' s2 ''outerloop.cond'' s3"
    "outer_frame ty ps (Suc i) (mask_byte B (base + i)
      (pack_bits (\<lambda>j. element_rows ty src ps P (8 * i + j)) 8)) s3" by blast
  from reaches_trans [OF reaches_trans [OF s1(1) s2(1)] s3(1)] s3(2) show ?thesis by auto
qed

lemma outer_loop:
  assumes ty: "element_type ty" and P: "calls_predicate call name ty P"
    and s: "outer_frame ty ps 0 B s" and "n \<le> L div 8" and L: "L < 2 ^ 64" and "n \<le> 2 ^ 60"
    and bound: "ps + 8 * n * type_size ty \<le> length src" and "base + n \<le> length B"
    and args: "args = [a, VPtr TI8 (Cell Bitmap (int base)), VI64 (of_nat L)]"
  shows "\<exists>s'. reaches call src args (filter_blocks name ty) (20 * n) ''outerloop.cond'' s
      ''outerloop.cond'' s' \<and>
    outer_frame ty ps n (filter_bytes (element_rows ty src ps P) base n B) s'"
  using assms(4,6,7,8)
proof (induction n)
  case 0
  with s show ?case by (auto intro: reaches_refl)
next
  case (Suc n)
  from Suc.prems(3) have b: "ps + (8 * n + 8) * type_size ty \<le> length src"
    by (simp add: algebra_simps)
  then have "ps + 8 * n * type_size ty \<le> length src" by (simp add: add_mult_distrib)
  with Suc obtain s1 where s1:
    "reaches call src args (filter_blocks name ty) (20 * n) ''outerloop.cond'' s ''outerloop.cond'' s1"
    "outer_frame ty ps n (filter_bytes (element_rows ty src ps P) base n B) s1" by auto
  from Suc.prems have "n < L div 8" and "n < 2 ^ 60"
    and "base + n < length (filter_bytes (element_rows ty src ps P) base n B)" by simp_all
  from outer_round [OF ty P s1(2) this(1) L this(2) b this(3) args] obtain s2 where
    "reaches call src args (filter_blocks name ty) 20 ''outerloop.cond'' s1 ''outerloop.cond'' s2"
    "outer_frame ty ps (Suc n) (filter_bytes (element_rows ty src ps P) base (Suc n) B) s2"
    by auto
  with reaches_trans [OF s1(1) this(1)] show ?case by (auto simp: add.commute)
qed

lemma filter_entry:
  assumes "args = [VPtr TI8 (Cell Source (int ps)), b, c]"
  shows "\<exists>s'. reaches call src args (filter_blocks name ty) 1 ''body''
      \<lparr>regs = Map.empty, slots = Map.empty, bitmap = B\<rparr> ''outerloop.cond'' s' \<and>
    outer_frame ty ps 0 B s'"
proof -
  have "\<exists>b s'. map_of (filter_blocks name ty) ''body'' = Some b \<and>
      exec_block call src args b \<lparr>regs = Map.empty, slots = Map.empty, bitmap = B\<rparr> =
        Inr (Jump ''outerloop.cond'' s') \<and> outer_frame ty ps 0 B s'"
    using assms by (simp add: filter_blocks_def Let_def outer_frame_def llvm_types llvm_consts)
  then show ?thesis by (blast intro: reaches_block)
qed

lemma filter_exit:
  assumes "outer_frame ty ps (L div 8) B s" and "L < 2 ^ 63" and "args = [a, b, VI64 (of_nat L)]"
  shows "run_blocks call src args (filter_blocks name ty) (2 + n) ''outerloop.cond'' s = Inr (None, B)"
proof -
  have "\<exists>b s'. map_of (filter_blocks name ty) ''outerloop.cond'' = Some b \<and>
      exec_block call src args b s = Inr (Jump ''outerloop.end'' s') \<and> outer_frame ty ps (L div 8) B s'"
    using assms
    by (simp add: filter_blocks_def Let_def frame_defs llvm_consts i1_def of_nat_div8
        sint_of_nat_small)
  then obtain s' where "reaches call src args (filter_blocks name ty) 1 ''outerloop.cond'' s
      ''outerloop.end'' s'" "bitmap s' = B"
    unfolding outer_frame_def by (blast intro: reaches_block)
  then show ?thesis by (simp add: reaches_def filter_blocks_def Let_def)
qed

theorem filter_loop_run:
  assumes ty: "element_type ty" and P: "calls_predicate call name ty P" and L: "L < 2 ^ 63"
    and bound: "ps + 8 * (L div 8) * type_size ty \<le> length src" and "base + L div 8 \<le> length B"
    and fuel: "20 * (L div 8) + 3 \<le> fuel"
    and args: "args = [VPtr TI8 (Cell Source (int ps)), VPtr TI8 (Cell Bitmap (int base)), VI64 (of_nat L)]"
  shows "run_blocks call src args (filter_blocks name ty) fuel ''body''
      \<lparr>regs = Map.empty, slots = Map.empty, bitmap = B\<rparr> =
    Inr (None, filter_bytes (element_rows ty src ps P) base (L div 8) B)"
proof -
  let ?bs = "filter_blocks name ty"
  obtain s1 where s1: "reaches call src args ?bs 1 ''body''
      \<lparr>regs = Map.empty, slots = Map.empty, bitmap = B\<rparr> ''outerloop.cond'' s1"
    "outer_frame ty ps 0 B s1"
    using filter_entry [OF args] by blast
  have "L < 2 ^ 64" using L by simp
  moreover have "L div 8 \<le> 2 ^ 60" using L by simp
  ultimately have loop: "\<exists>s'. reaches call src args ?bs (20 * (L div 8)) ''outerloop.cond'' s1 ''outerloop.cond'' s' \<and>
      outer_frame ty ps (L div 8) (filter_bytes (element_rows ty src ps P) base (L div 8) B) s'"
    by (rule outer_loop [OF ty P s1(2) order_refl _ _ bound assms(5) args])
  obtain s2 where s2: "reaches call src args ?bs (20 * (L div 8)) ''outerloop.cond'' s1
      ''outerloop.cond'' s2"
    "outer_frame ty ps (L div 8) (filter_bytes (element_rows ty src ps P) base (L div 8) B) s2"
    using loop by blast
  from fuel obtain n where n: "fuel = 1 + 20 * (L div 8) + (2 + n)"
    using le_Suc_ex [OF fuel] by auto
  from reaches_trans [OF s1(1) s2(1)] have "run_blocks call src args ?bs fuel ''body''
      \<lparr>regs = Map.empty, slots = Map.empty, bitmap = B\<rparr> =
      run_blocks call src args ?bs (2 + n) ''outerloop.cond'' s2"
    unfolding reaches_def n by blast
  with filter_exit [OF s2(2) L args] show ?thesis by simp
qed

section \<open>The loop over single rows\<close>

definition bit_frame :: "ir_type \<Rightarrow> nat \<Rightarrow> nat \<Rightarrow> byte list \<Rightarrow> frame \<Rightarrow> bool" where
  "bit_frame ty ps i B s \<longleftrightarrow>
     regs s 0 = Some (VPtr TI8 (Slot 0)) \<and> regs s 1 = Some (VPtr ty (Cell Source (int ps))) \<and>
     slots s 0 = Some (VI8 (of_nat i)) \<and> bitmap s = B"

lemma negated_bit: "NOT (of_bool b) AND 1 = (of_bool (\<not> b) :: 8 word)"
  by (cases b) auto

lemma bit_shift_amount:
  assumes "i + off < 8"
  shows "unat (7 - (of_nat i + of_nat off) :: 8 word) = 7 - (off + i)"
  using shift_amount [of "off + i"] assms by (simp add: add.commute)

lemma bits_enter:
  assumes "bit_frame ty ps i B s" and "i < L" and "L \<le> 8" and "args = [a, b, VI8 (of_nat L), c]"
  shows "\<exists>s'. reaches call src args (filter_remaining_blocks name ty) 1 ''loop.cond'' s
      ''loop.body'' s' \<and> bit_frame ty ps i B s'"
proof -
  have "\<exists>b s'. map_of (filter_remaining_blocks name ty) ''loop.cond'' = Some b \<and>
      exec_block call src args b s = Inr (Jump ''loop.body'' s') \<and> bit_frame ty ps i B s'"
    using assms
    by (simp add: filter_remaining_blocks_def Let_def bit_frame_def llvm_consts i1_def
        sint_of_nat_small)
  then show ?thesis by (blast intro: reaches_block)
qed

lemma bits_body:
  assumes s: "bit_frame ty ps i B s" and ty: "element_type ty" and P: "calls_predicate call name ty P"
    and bound: "ps + i * type_size ty + type_size ty \<le> length src"
    and base: "base < length B" and i: "i + off < 8"
    and args: "args = [a, VPtr TI8 (Cell Bitmap (int base)), c, VI8 (of_nat off)]"
  shows "\<exists>s'. reaches call src args (filter_remaining_blocks name ty) 1 ''loop.body'' s
      ''loop.cond'' s' \<and>
    bit_frame ty ps (Suc i)
      (mask_byte B base (clear_mask (element_rows ty src ps P i) (off + i))) s'"
proof -
  let ?p = "ps + i * type_size ty"
  have "load_value src fr (VPtr ty (Cell Source (int ps + sint (of_nat i :: 8 word) * int (type_size ty))))
      = Inr (element_at ty src ?p)" for fr
    using i load_element [OF ty bound] by (subst gep_index) auto
  moreover have "call (name @ ''_predicate'') [element_at ty src ?p] =
      Inr (i1 (P (element_at ty src ?p)))"
    using P type_of_element_at [OF ty] by (simp add: calls_predicate_def)
  moreover have "bitmap fr = B \<Longrightarrow> load_value src fr (VPtr TI8 (Cell Bitmap (int base))) =
      Inr (VI8 (B ! base))" for fr
    using base load_byte by blast
  ultimately have "\<exists>b s'. map_of (filter_remaining_blocks name ty) ''loop.body'' = Some b \<and>
      exec_block call src args b s = Inr (Jump ''loop.cond'' s') \<and>
      bit_frame ty ps (Suc i)
        (mask_byte B base (clear_mask (element_rows ty src ps P i) (off + i))) s'"
    using s i base args less_imp_diff_less [of 7 8 "off + i"]
    by (simp add: filter_remaining_blocks_def Let_def bit_frame_def llvm_consts llvm_types i1_def
        ucast_of_bool negated_bit bit_shift_amount element_rows_def mask_byte_def clear_mask_def
        add.commute [of _ "1 :: 8 word"] del: load_value.simps(2) of_nat_add of_nat_mult)
  then show ?thesis by (blast intro: reaches_block)
qed

lemma bits_loop:
  assumes ty: "element_type ty" and P: "calls_predicate call name ty P"
    and s: "bit_frame ty ps 0 B s" and "n \<le> L" and L: "L + off \<le> 8"
    and bound: "ps + n * type_size ty \<le> length src" and base: "base < length B"
    and args: "args = [a, VPtr TI8 (Cell Bitmap (int base)), VI8 (of_nat L), VI8 (of_nat off)]"
  shows "\<exists>s'. reaches call src args (filter_remaining_blocks name ty) (2 * n) ''loop.cond'' s
      ''loop.cond'' s' \<and>
    bit_frame ty ps n (filter_bits (element_rows ty src ps P) base off n B) s'"
  using assms(4) bound
proof (induction n)
  case 0
  with s show ?case by (auto intro: reaches_refl)
next
  case (Suc n)
  let ?B = "filter_bits (element_rows ty src ps P) base off n B"
  from Suc obtain s1 where s1:
    "reaches call src args (filter_remaining_blocks name ty) (2 * n) ''loop.cond'' s ''loop.cond'' s1"
    "bit_frame ty ps n ?B s1" by auto
  from Suc.prems L have n: "n < L" "L \<le> 8" "n + off < 8"
    and b: "ps + n * type_size ty + type_size ty \<le> length src" by simp_all
  from bits_enter [OF s1(2) n(1,2) args] obtain s2 where s2:
    "reaches call src args (filter_remaining_blocks name ty) 1 ''loop.cond'' s1 ''loop.body'' s2"
    "bit_frame ty ps n ?B s2" by blast
  have "base < length ?B" using base by simp
  from bits_body [OF s2(2) ty P b this n(3) args] obtain s3 where s3:
    "reaches call src args (filter_remaining_blocks name ty) 1 ''loop.body'' s2 ''loop.cond'' s3"
    "bit_frame ty ps (Suc n) (filter_bits (element_rows ty src ps P) base off (Suc n) B) s3"
    by auto
  have steps: "2 * n + 1 + 1 = 2 * Suc n" by simp
  from reaches_trans [OF reaches_trans [OF s1(1) s2(1)] s3(1), unfolded steps] s3(2)
  show ?case by blast
qed

theorem remaining_loop_run:
  assumes ty: "element_type ty" and P: "calls_predicate call name ty P" and L: "L + off \<le> 8"
    and bound: "ps + L * type_size ty \<le> length src" and base: "base < length B"
    and fuel: "2 * L + 3 \<le> fuel"
    and args: "args = [VPtr TI8 (Cell Source (int ps)), VPtr TI8 (Cell Bitmap (int base)),
      VI8 (of_nat L), VI8 (of_nat off)]"
  shows "run_blocks call src args (filter_remaining_blocks name ty) fuel ''body''
      \<lparr>regs = Map.empty, slots = Map.empty, bitmap = B\<rparr> =
    Inr (None, filter_bits (element_rows ty src ps P) base off L B)"
proof -
  let ?bs = "filter_remaining_blocks name ty" and ?s = "\<lparr>regs = Map.empty, slots = Map.empty, bitmap = B\<rparr>"
  let ?B = "filter_bits (element_rows ty src ps P) base off L B"
  have "\<exists>b s'. map_of ?bs ''body'' = Some b \<and>
      exec_block call src args b ?s = Inr (Jump ''loop.cond'' s') \<and> bit_frame ty ps 0 B s'"
    using args by (simp add: filter_remaining_blocks_def Let_def bit_frame_def llvm_types llvm_consts)
  then obtain s1 where s1: "reaches call src args ?bs 1 ''body'' ?s ''loop.cond'' s1"
    "bit_frame ty ps 0 B s1" by (blast intro: reaches_block)
  obtain s2 where s2: "reaches call src args ?bs (2 * L) ''loop.cond'' s1 ''loop.cond'' s2"
    "bit_frame ty ps L ?B s2"
    using bits_loop [OF ty P s1(2) order_refl L bound base args] by blast
  have "\<exists>b s'. map_of ?bs ''loop.cond'' = Some b \<and>
      exec_block call src args b s2 = Inr (Jump ''loop.end'' s') \<and> bit_frame ty ps L ?B s'"
    using s2(2) args
    by (simp add: filter_remaining_blocks_def Let_def bit_frame_def llvm_consts i1_def)
  then obtain s3 where s3: "reaches call src args ?bs 1 ''loop.cond'' s2 ''loop.end'' s3"
    "bitmap s3 = ?B"
    unfolding bit_frame_def by (blast intro: reaches_block)
  from fuel obtain n where n: "fuel = 1 + 2 * L + 1 + Suc n"
    using le_Suc_ex [OF fuel] by auto
  from reaches_trans [OF reaches_trans [OF s1(1) s2(1)] s3(1)]
  have "run_blocks call src args ?bs fuel ''body'' ?s =
      run_blocks call src args ?bs (Suc n) ''loop.end'' s3"
    unfolding reaches_def n by blast
  with s3(2) show ?thesis by (simp add: filter_remaining_blocks_def Let_def)
qed

end
