(* ===== verification/Loop_Overrun.thy ===== *)
theory Loop_Overrun
  imports Filter_Loops
begin

text \<open>
  What the filter loop does when its length is larger than its buffers: it runs on until the
  first access outside one of them. The executor gets there with a wrapped length
  (\<open>column->length() - offset\<close> with an offset behind the end of the chunk).
\<close>

lemma run_blocks_fails:
  assumes "map_of bs l = Some b" and "exec_block call src args b s = Inl e"
  shows "run_blocks call src args bs (Suc n) l s = Inl e"
  using assms by simp

lemma reaches_fails:
  assumes "reaches call src args bs k l s l' s'"
    and "\<And>n. run_blocks call src args bs (Suc n) l' s' = Inl e" and "k < fuel"
  shows "run_blocks call src args bs fuel l s = Inl e"
proof -
  obtain n where n: "fuel = k + Suc n" using less_imp_Suc_add [OF assms(3)] by auto
  show ?thesis unfolding n using assms(1,2) by (simp add: reaches_def del: run_blocks.simps add_Suc_right)
qed

lemma load_element_fails:
  assumes "element_type ty" and "length src < p + type_size ty"
  shows "load_value src s (VPtr ty (Cell Source (int p))) = Inl OutOfBounds"
  using assms by (simp add: read_bytes_def)

lemma inner_round_fails:
  assumes s: "inner_frame ty ps i B j tmp s" and j: "j < 8" and ty: "element_type ty"
    and bound: "length src < ps + 8 * i * type_size ty + j * type_size ty + type_size ty"
  shows "run_blocks call src args (filter_blocks name ty) (Suc n) ''innedloop.body'' s = Inl OutOfBounds"
proof -
  have "load_value src fr (VPtr ty (Cell Source (int (ps + 8 * i * type_size ty)
      + sint (of_nat j :: 8 word) * int (type_size ty)))) = Inl OutOfBounds" for fr
    using j load_element_fails [OF ty bound] by (subst gep_index) auto
  then have "\<exists>b. map_of (filter_blocks name ty) ''innedloop.body'' = Some b \<and>
      exec_block call src args b s = Inl OutOfBounds"
    using s j
    by (simp add: filter_blocks_def Let_def frame_defs llvm_consts llvm_types
        del: load_value.simps(2) of_nat_add of_nat_mult)
  then show ?thesis by (blast intro: run_blocks_fails)
qed

lemma outer_mask_fails:
  assumes "inner_frame ty ps i B 8 m s" and "length B \<le> base + i" and "i < 2 ^ 63"
    and "args = [a, VPtr TI8 (Cell Bitmap (int base)), c]"
  shows "run_blocks call src args (filter_blocks name ty) (Suc n) ''innerloop.end'' s = Inl OutOfBounds"
proof -
  have gep: "int base + sint (of_nat i :: 64 word) = int (base + i)"
    using assms(3) by (simp add: sint_of_nat_small)
  have load: "bitmap fr = B \<Longrightarrow> load_value src fr (VPtr TI8 (Cell Bitmap (int (base + i)))) =
      Inl OutOfBounds" for fr
    using assms(2) by (simp add: read_bytes_def)
  have "\<exists>b. map_of (filter_blocks name ty) ''innerloop.end'' = Some b \<and>
      exec_block call src args b s = Inl OutOfBounds"
    using assms(1,4)
    by (simp add: filter_blocks_def Let_def frame_defs llvm_consts gep load del: load_value.simps(2) of_nat_add)
  then show ?thesis by (blast intro: run_blocks_fails)
qed

text \<open>A round of the outer loop that leaves the data or the bitmap.\<close>

lemma outer_round_fails:
  assumes ty: "element_type ty" and P: "calls_predicate call name ty P"
    and s: "outer_frame ty ps i B s" and "i < L div 8" and "L < 2 ^ 64" and "i < 2 ^ 60"
    and start: "i = 0 \<or> ps + 8 * i * type_size ty \<le> length src"
    and over: "length src < ps + (8 * i + 8) * type_size ty \<or> length B \<le> base + i"
    and args: "args = [a, VPtr TI8 (Cell Bitmap (int base)), VI64 (of_nat L)]"
    and fuel: "20 \<le> fuel"
  shows "run_blocks call src args (filter_blocks name ty) fuel ''outerloop.cond'' s = Inl OutOfBounds"
proof -
  let ?bs = "filter_blocks name ty" and ?w = "type_size ty"
  from outer_enter [OF s assms(4-6) args] obtain s1 where s1:
    "reaches call src args ?bs 2 ''outerloop.cond'' s ''innerloop.cond'' s1" "inner_frame ty ps i B 0 0 s1"
    by blast
  define fits where "fits = (\<lambda>k. ps + (8 * i + k) * ?w \<le> length src)"
  show ?thesis
  proof (cases "fits 8")
    case True
    from inner_loop [OF ty P order_refl disjI2 [OF True [unfolded fits_def]] s1(2)] obtain s2 m where s2:
      "reaches call src args ?bs (2 * 8) ''innerloop.cond'' s1 ''innerloop.cond'' s2"
      "inner_frame ty ps i B 8 m s2" by blast
    from inner_leave [OF s2(2)] obtain s3 where s3:
      "reaches call src args ?bs 1 ''innerloop.cond'' s2 ''innerloop.end'' s3" "inner_frame ty ps i B 8 m s3"
      by blast
    have "length B \<le> base + i" "i < 2 ^ 63" using over True assms(6) by (auto simp: fits_def)
    note fails = outer_mask_fails [OF s3(2) this args]
    show ?thesis
      by (rule reaches_fails [OF reaches_trans [OF s1(1) reaches_trans [OF s2(1) s3(1)]] fails])
        (use fuel in simp)
  next
    case False
    obtain k where k: "k < 8" "\<not> fits (Suc k)" "k = 0 \<or> fits k"
      using first_failure [of fits 8] False by auto
    from k(1) have k8: "k \<le> 8" by simp
    from inner_loop [OF ty P k8 k(3) [unfolded fits_def] s1(2)] obtain s2 m where s2:
      "reaches call src args ?bs (2 * k) ''innerloop.cond'' s1 ''innerloop.cond'' s2"
      "inner_frame ty ps i B k m s2" by blast
    from inner_enter [OF s2(2) k(1)] obtain s3 where s3:
      "reaches call src args ?bs 1 ''innerloop.cond'' s2 ''innedloop.body'' s3" "inner_frame ty ps i B k m s3"
      by blast
    have "length src < ps + 8 * i * ?w + k * ?w + ?w" using k(2) by (simp add: fits_def algebra_simps)
    note fails = inner_round_fails [OF s3(2) k(1) ty this]
    show ?thesis
      by (rule reaches_fails [OF reaches_trans [OF s1(1) reaches_trans [OF s2(1) s3(1)]] fails])
        (use fuel k(1) in simp)
  qed
qed

text \<open>The loop as a whole, for a length that the bitmap cannot hold.\<close>

lemma filter_loop_overrun:
  assumes ty: "element_type ty" and P: "calls_predicate call name ty P" and L: "L < 2 ^ 64"
    and long: "length B < L div 8" and B: "length B < 2 ^ 57"
    and fuel: "20 * length B + 21 \<le> fuel"
    and args: "args = [VPtr TI8 (Cell Source (int ps)), VPtr TI8 (Cell Bitmap (int base)), VI64 (of_nat L)]"
  shows "run_blocks call src args (filter_blocks name ty) fuel ''body''
      \<lparr>regs = Map.empty, slots = Map.empty, bitmap = B\<rparr> = Inl OutOfBounds"
proof -
  let ?bs = "filter_blocks name ty" and ?w = "type_size ty"
  define over where "over = (\<lambda>i. length src < ps + (8 * i + 8) * ?w \<or> length B \<le> base + i)"
  define n where "n = (LEAST i. over i)"
  have "over (length B)" by (simp add: over_def)
  then have n: "over n" "n \<le> length B" unfolding n_def by (rule LeastI, rule Least_le)
  have before: "\<not> over i" if "i < n" for i using that not_less_Least unfolding n_def by blast
  obtain s1 where s1: "reaches call src args ?bs 1 ''body''
      \<lparr>regs = Map.empty, slots = Map.empty, bitmap = B\<rparr> ''outerloop.cond'' s1" "outer_frame ty ps 0 B s1"
    using filter_entry [OF args] by blast
  have start: "n = 0 \<or> ps + 8 * n * ?w \<le> length src \<and> base + n \<le> length B"
  proof (cases n)
    case (Suc n')
    with before [of n'] show ?thesis by (simp add: over_def algebra_simps)
  qed simp
  obtain s2 B2 where s2: "reaches call src args ?bs (20 * n) ''outerloop.cond'' s1 ''outerloop.cond'' s2"
    "outer_frame ty ps n B2 s2" "length B2 = length B"
  proof (cases "n = 0")
    case True
    with s1(2) that [OF _ _ refl, of s1] show thesis by (simp add: reaches_refl)
  next
    case False
    with start have "ps + 8 * n * ?w \<le> length src" "base + n \<le> length B" by auto
    moreover have "n \<le> L div 8" "n \<le> 2 ^ 60" using n(2) long B by simp_all
    ultimately show thesis
      using outer_loop [OF ty P s1(2) _ L _ _ _ args] that by (metis length_filter_bytes)
  qed
  have "n < L div 8" "n < 2 ^ 60" using n(2) long B by simp_all
  with outer_round_fails [OF ty P s2(2) _ L _ _ _ args] n(1) start s2(3)
  have fails: "run_blocks call src args ?bs f ''outerloop.cond'' s2 = Inl OutOfBounds" if "20 \<le> f" for f
    using that by (auto simp: over_def)
  obtain f where f: "fuel = (1 + 20 * n) + f" "20 \<le> f"
    using fuel n(2) that [of "fuel - (1 + 20 * n)"] by simp
  from reaches_trans [OF s1(1) s2(1)] fails [OF f(2)] show ?thesis
    unfolding f(1) reaches_def by metis
qed

end
