(* ===== verification/Emit_Typing.thy ===== *)
theory Emit_Typing
  imports Predicate_Emit
begin

text \<open>
  The module that \<^verbatim>\<open>FitlerKernelImpl::compile\<close> generates passes the verifier's rules
  (\<open>wt_module\<close>), whatever the column and the expression, unless the expression is no comparison
  or connective, when the predicate function returns nothing.
\<close>

section \<open>The predicate function\<close>

fun type_straight :: "typing_context \<Rightarrow> type_env \<Rightarrow> instr list \<Rightarrow> type_env option" where
  "type_straight C env [] = Some env"
| "type_straight C env (x # xs) =
     (case type_instr C env x of Some (Next env') \<Rightarrow> type_straight C env' xs | _ \<Rightarrow> None)"

lemma type_straight_append:
  "type_straight C env (xs @ ys) =
     (case type_straight C env xs of None \<Rightarrow> None | Some env' \<Rightarrow> type_straight C env' ys)"
  by (induction xs arbitrary: env) (auto split: option.splits flow.splits)

lemma type_block_append:
  "type_straight C env xs = Some env' \<Longrightarrow> type_block C env (xs @ ys) = type_block C env' ys"
  by (induction xs arbitrary: env) (auto split: option.splits flow.splits)

text \<open>
  The state of the visitor between two calls: the code so far is well typed, defines the
  registers below \<open>emit_next\<close>, and the result is a truth value.
\<close>

definition emit_typed :: "typing_context \<Rightarrow> emit_state \<Rightarrow> bool" where
  "emit_typed C s \<longleftrightarrow>
     concat (map defined_register (emit_code s)) = [0..<emit_next s] \<and>
     concat (map alloca_of (emit_code s)) = [] \<and>
     (\<exists>env. type_straight C [] (emit_code s) = Some env \<and>
        (\<forall>x. m_result s = Some x \<longrightarrow> operand_type C env x = Some (Val TI1)) \<and>
        (\<forall>r. r \<in> fst ` set env \<longrightarrow> r < emit_next s))"

lemma emit_typed_last_op [simp]: "emit_typed C (s\<lparr>m_last_op := op\<rparr>) = emit_typed C s"
  by (simp add: emit_typed_def)

text \<open>
  The expressions whose predicate function returns a value: a comparison of another column,
  where it is not asserted against, emits nothing, as a constant does.
\<close>

fun is_condition :: "field \<Rightarrow> expr \<Rightarrow> bool" where
  "is_condition fld (EBool (CompareExpr c _ _)) = (column_name c = field_name fld)"
| "is_condition fld (EBool (PredicateExpr _ _ _)) = True"
| "is_condition fld _ = False"

text \<open>One more instruction, and what was typed before keeps its type.\<close>

definition types_kept :: "typing_context \<Rightarrow> emit_state \<Rightarrow> emit_state \<Rightarrow> bool" where
  "types_kept C s s' \<longleftrightarrow>
     (\<forall>env env' x T. type_straight C [] (emit_code s) = Some env \<longrightarrow>
        type_straight C [] (emit_code s') = Some env' \<longrightarrow>
        operand_type C env x = Some T \<longrightarrow> operand_type C env' x = Some T)"

lemma types_kept_trans:
  assumes "types_kept C s s1" and "emit_typed C s1" and "types_kept C s1 s2"
  shows "types_kept C s s2"
proof -
  from assms(2) obtain env1 where "type_straight C [] (emit_code s1) = Some env1"
    by (auto simp: emit_typed_def)
  with assms(1,3) show ?thesis by (simp add: types_kept_def)
qed

lemma types_kept_last_op [simp]:
  "types_kept C (s\<lparr>m_last_op := op\<rparr>) s' = types_kept C s s'" "types_kept C s s"
  by (simp_all add: types_kept_def)

lemma insert_instr_typed:
  assumes s: "emit_typed C s" and env: "type_straight C [] (emit_code s) = Some env"
    and ins: "type_instr C env ins = Some (Next ((emit_next s, Val TI1) # env))"
      "defined_register ins = [emit_next s]" "alloca_of ins = []"
  shows "emit_typed C (insert_instr ins s) \<and> types_kept C s (insert_instr ins s)"
proof -
  from s env have below: "\<forall>r. r \<in> fst ` set env \<longrightarrow> r < emit_next s" by (simp add: emit_typed_def)
  have kept: "operand_type C ((emit_next s, Val TI1) # env) x = Some T" if "operand_type C env x = Some T" for x T
    using that below by (cases x) (force dest: map_of_SomeD)+
  have code: "type_straight C [] (emit_code (insert_instr ins s)) = Some ((emit_next s, Val TI1) # env)"
    by (simp add: insert_instr_def type_straight_append env ins)
  then have "types_kept C s (insert_instr ins s)" using kept env by (auto simp: types_kept_def)
  moreover have "emit_typed C (insert_instr ins s)"
    using s ins code below by (auto simp: emit_typed_def insert_instr_def less_Suc_eq)
  ultimately show ?thesis by simp
qed

lemma create_cmp_op_typed:
  assumes "create_cmp_op op t r x y = Inr ins" and "from_arrow t = Inr ty"
    and "operand_type C env x = Some (Val ty)" and "operand_type C env y = Some (Val ty)"
  shows "type_instr C env ins = Some (Next ((r, Val TI1) # env))" "defined_register ins = [r]"
    "alloca_of ins = []"
  using assms
  by (cases op; cases "id_of t"; auto simp: from_arrow_def create_cmps create_cmp_def type_cases llvm_types
      bind_reg_def int_type_def float_type_def)+

lemma from_arrow_loadable: "from_arrow t = Inr ty \<Longrightarrow> loadable ty \<and> \<not> is_pointer ty"
  by (cases "id_of t") (auto simp: from_arrow_def llvm_types loadable_def)

lemma emit_accept_typed:
  assumes "from_arrow (field_type fld) = Inr ty" and "params C = [ty]"
    and "accept (ir_emit_visitor E fld) e s = Inr s'" and "emit_typed C s"
  shows "emit_typed C s' \<and> types_kept C s s' \<and>
    (if is_condition fld (EBool e) then m_result s' \<noteq> None else m_result s' = m_result s)"
  using assms(3,4)
proof (induction e arbitrary: s s')
  case (BooleanConst b)
  then show ?case by (simp add: ir_emit_visitor_def default_visitor_def)
next
  case (CompareExpr c x op)
  show ?case
  proof (cases "column_name c = field_name fld")
    case False
    with CompareExpr have "s' = s"
      by (auto simp: ir_emit_visitor_def emit_compare_def split: if_splits)
    with CompareExpr(2) False show ?thesis by simp
  next
    case True
    with CompareExpr obtain k ins where k: "const_from_variant E (field_type fld) (literal_value x) = Inr k"
      and ins: "create_cmp_op op (field_type fld) (emit_next s) (Arg 0) (Const k) = Inr ins"
      and s': "s' = insert_instr ins s"
      by (auto simp: ir_emit_visitor_def emit_compare_def Let_def bindE_eq_Inr split: if_splits)
    from CompareExpr(2) obtain env where env: "type_straight C [] (emit_code s) = Some env"
      by (auto simp: emit_typed_def)
    note cmp = create_cmp_op_typed [OF ins assms(1), of C env]
    have "operand_type C env (Arg 0) = Some (Val ty)" "operand_type C env (Const k) = Some (Val ty)"
      using assms(2) const_from_variant_type [OF assms(1) k] from_arrow_loadable [OF assms(1)] by auto
    with insert_instr_typed [OF CompareExpr(2) env cmp] s' True show ?thesis
      by (simp add: insert_instr_def)
  qed
next
  case (PredicateExpr l r op)
  from PredicateExpr.prems(1) obtain s1 s2 x y where s1: "accept (ir_emit_visitor E fld) l (s\<lparr>m_last_op := op\<rparr>) = Inr s1"
    and s2: "accept (ir_emit_visitor E fld) r (s1\<lparr>m_last_op := op\<rparr>) = Inr s2"
    and res: "m_result s1 = Some x" "m_result s2 = Some y"
    and s': "s' = insert_instr (BinOp (emit_next s2) (case op of Op_OR \<Rightarrow> Or | Op_AND \<Rightarrow> And) x y) s2"
    by (cases op) (auto simp: ir_emit_visitor_def emit_predicate_def bindE_eq_Inr Let_def deref_eq_Inr)
  have t1: "emit_typed C s1" "types_kept C s s1"
    using PredicateExpr.IH(1) [OF s1] PredicateExpr.prems(2) by simp_all
  have t2: "emit_typed C s2" "types_kept C s1 s2"
    using PredicateExpr.IH(2) [OF s2] t1(1) by simp_all
  obtain env1 env where env: "type_straight C [] (emit_code s1) = Some env1"
      "type_straight C [] (emit_code s2) = Some env"
    and "operand_type C env1 x = Some (Val TI1)" and y: "operand_type C env y = Some (Val TI1)"
    using t1(1) t2(1) res by (auto simp: emit_typed_def)
  with t2(2) have x: "operand_type C env x = Some (Val TI1)" by (simp add: types_kept_def)
  have "type_instr C env (BinOp (emit_next s2) f x y) = Some (Next ((emit_next s2, Val TI1) # env))" for f
    using x y by (simp add: bind_reg_def int_type_def)
  from insert_instr_typed [OF t2(1) env(2) this] s'
  have "emit_typed C s' \<and> types_kept C s2 s'" by simp
  with t1 t2 types_kept_trans show ?case
    unfolding s' by (auto simp: insert_instr_def)
qed

section \<open>The loops\<close>

lemmas block_typing = filter_blocks_def filter_remaining_blocks_def Let_def llvm_types llvm_consts
  bind_reg_def index_type_def int_type_def env_within_def

lemmas certificate_check = check_block_def jump_ok_def

text \<open>The registers available at the entries of the blocks of the filter loop.\<close>

definition at_outer_cond :: "ir_type \<Rightarrow> type_env" where
  "at_outer_cond ty = [(3, Val (TPtr ty)), (2, SlotPtr TI8), (1, SlotPtr TI8), (0, SlotPtr TI64)]"

definition at_outer_body :: "ir_type \<Rightarrow> type_env" where
  "at_outer_body ty = [(6, Val TI1), (5, Val TI64), (4, Val TI64)] @ at_outer_cond ty"

definition at_inner_cond :: "ir_type \<Rightarrow> type_env" where
  "at_inner_cond ty = [(9, Val (TPtr ty)), (8, Val TI64), (7, Val TI64)] @ at_outer_body ty"

definition at_inner_body :: "ir_type \<Rightarrow> type_env" where
  "at_inner_body ty = [(11, Val TI1), (10, Val TI8)] @ at_inner_cond ty"

lemmas at_blocks = at_outer_cond_def at_outer_body_def at_inner_cond_def at_inner_body_def

abbreviation filter_block :: "string \<Rightarrow> ir_type \<Rightarrow> nat \<Rightarrow> instr list" where
  "filter_block name ty i \<equiv> snd (filter_blocks name ty ! i)"

lemma filter_blocks_list:
  "filter_blocks name ty =
     [(''body'', filter_block name ty 0), (''outerloop.cond'', filter_block name ty 1),
      (''outerloop.body'', filter_block name ty 2), (''innerloop.cond'', filter_block name ty 3),
      (''innedloop.body'', filter_block name ty 4), (''outerloop.end'', filter_block name ty 5),
      (''innerloop.end'', filter_block name ty 6)]"
  by (simp add: filter_blocks_def Let_def)

lemma loadable_TI8: "loadable TI8"
  by (simp add: loadable_def)

lemma filter_blocks_typed:
  assumes "loadable ty" and "call_type C (name @ ''_predicate'') [Some (Val ty)] = Some TI1"
    and "params C = [TPtr TI8, TPtr TI8, TI64]" and "ret C = None"
    and "allocas C = [(0, TI64), (1, TI8), (2, TI8)]"
  shows "type_block C [] (filter_block name ty 0) = Some (at_outer_cond ty, [''outerloop.cond''])"
    and "type_block C (at_outer_cond ty) (filter_block name ty 1) =
      Some (at_outer_body ty, [''outerloop.body'', ''outerloop.end''])"
    and "type_block C (at_outer_body ty) (filter_block name ty 2) = Some (at_inner_cond ty, [''innerloop.cond''])"
    and "type_block C (at_inner_cond ty) (filter_block name ty 3) =
      Some (at_inner_body ty, [''innedloop.body'', ''innerloop.end''])"
    and "\<exists>env. type_block C (at_inner_body ty) (filter_block name ty 4) = Some (env, [''innerloop.cond'']) \<and>
      env_within (at_inner_cond ty) env"
    and "type_block C (at_outer_body ty) (filter_block name ty 5) = Some (at_outer_body ty, [])"
    and "\<exists>env. type_block C (at_inner_body ty) (filter_block name ty 6) = Some (env, [''outerloop.cond'']) \<and>
      env_within (at_outer_cond ty) env"
  using loadable_TI8 by (simp_all add: block_typing at_blocks assms)

definition filter_entries :: "ir_type \<Rightarrow> (string \<times> type_env) list" where
  "filter_entries ty =
     [(''body'', []), (''outerloop.cond'', at_outer_cond ty), (''outerloop.body'', at_outer_body ty),
      (''outerloop.end'', at_outer_body ty), (''innerloop.cond'', at_inner_cond ty),
      (''innedloop.body'', at_inner_body ty), (''innerloop.end'', at_inner_body ty)]"

lemma filter_entries_lookup:
  "map_of (filter_entries ty) ''body'' = Some []"
  "map_of (filter_entries ty) ''outerloop.cond'' = Some (at_outer_cond ty)"
  "map_of (filter_entries ty) ''outerloop.body'' = Some (at_outer_body ty)"
  "map_of (filter_entries ty) ''outerloop.end'' = Some (at_outer_body ty)"
  "map_of (filter_entries ty) ''innerloop.cond'' = Some (at_inner_cond ty)"
  "map_of (filter_entries ty) ''innedloop.body'' = Some (at_inner_body ty)"
  "map_of (filter_entries ty) ''innerloop.end'' = Some (at_inner_body ty)"
  by (simp_all add: filter_entries_def)

lemma filter_jump_ok:
  "env_within (at_outer_cond ty) env \<Longrightarrow> jump_ok (filter_blocks name ty) (filter_entries ty) env ''outerloop.cond''"
  "env_within (at_outer_body ty) env \<Longrightarrow> jump_ok (filter_blocks name ty) (filter_entries ty) env ''outerloop.body''"
  "env_within (at_outer_body ty) env \<Longrightarrow> jump_ok (filter_blocks name ty) (filter_entries ty) env ''outerloop.end''"
  "env_within (at_inner_cond ty) env \<Longrightarrow> jump_ok (filter_blocks name ty) (filter_entries ty) env ''innerloop.cond''"
  "env_within (at_inner_body ty) env \<Longrightarrow> jump_ok (filter_blocks name ty) (filter_entries ty) env ''innedloop.body''"
  "env_within (at_inner_body ty) env \<Longrightarrow> jump_ok (filter_blocks name ty) (filter_entries ty) env ''innerloop.end''"
  by (simp_all add: jump_ok_def filter_entries_lookup, simp_all add: filter_blocks_def Let_def)

lemma check_blockI:
  "map_of cert l = Some env \<Longrightarrow> type_block C env b = Some (env', ls) \<Longrightarrow> list_all (jump_ok bs cert env') ls \<Longrightarrow>
   check_block C bs cert (l, b)"
  by (simp add: check_block_def)

lemma filter_function_typed:
  assumes f: "gen_filter_func fld = Inr f" and ty: "from_arrow (field_type fld) = Inr ty"
    and l: "loadable ty"
    and pred: "call_type (function_context M f) (field_name fld @ ''_predicate'') [Some (Val ty)] = Some TI1"
  shows "wt_function M f"
proof -
  let ?C = "function_context M f" and ?name = "field_name fld"
  have bs: "fn_blocks f = filter_blocks ?name ty" and C: "params ?C = [TPtr TI8, TPtr TI8, TI64]"
    "ret ?C = None" "allocas ?C = [(0, TI64), (1, TI8), (2, TI8)]"
    using f ty by (auto simp: function_context_def gen_filter_func_def filter_blocks_def Let_def llvm_types)
  obtain b where b: "\<And>i. filter_block ?name ty i = b i"
    by (rule that [of "\<lambda>i. filter_block ?name ty i"]) (rule refl)
  note typed = filter_blocks_typed [OF l pred C, unfolded b]
  from typed(5,7) obtain env1 env2 where
    jumps: "type_block ?C (at_inner_body ty) (b 4) = Some (env1, [''innerloop.cond''])"
      "env_within (at_inner_cond ty) env1"
      "type_block ?C (at_inner_body ty) (b 6) = Some (env2, [''outerloop.cond''])"
      "env_within (at_outer_cond ty) env2" by blast
  have list: "filter_blocks ?name ty =
     [(''body'', b 0), (''outerloop.cond'', b 1), (''outerloop.body'', b 2), (''innerloop.cond'', b 3),
      (''innedloop.body'', b 4), (''outerloop.end'', b 5), (''innerloop.end'', b 6)]"
    unfolding b [symmetric] by (rule filter_blocks_list)
  have refl: "env_within (at_outer_cond ty) (at_outer_cond ty)" "env_within (at_outer_body ty) (at_outer_body ty)"
    "env_within (at_inner_cond ty) (at_inner_cond ty)" "env_within (at_inner_body ty) (at_inner_body ty)"
    by (simp_all add: at_blocks env_within_def)
  have "distinct (concat (map defined_register (concat (map snd (filter_blocks ?name ty)))))"
    by (simp add: filter_blocks_def Let_def)
  moreover have "infer_entries ?C [(''body'', [])] (filter_blocks ?name ty) = Some (filter_entries ty)"
    unfolding list filter_entries_def by (simp add: typed(1-4,6) jumps del: One_nat_def)
  moreover have "list_all (check_block ?C (filter_blocks ?name ty) (filter_entries ty)) (filter_blocks ?name ty)"
    using jumps(2,4) refl
    by (subst (2) list)
      (simp add: filter_jump_ok check_blockI [OF filter_entries_lookup(1) typed(1)]
        check_blockI [OF filter_entries_lookup(2) typed(2)] check_blockI [OF filter_entries_lookup(3) typed(3)]
        check_blockI [OF filter_entries_lookup(5) typed(4)] check_blockI [OF filter_entries_lookup(6) jumps(1)]
        check_blockI [OF filter_entries_lookup(4) typed(6)] check_blockI [OF filter_entries_lookup(7) jumps(3)]
        del: One_nat_def)
  moreover have "map_of (filter_entries ty) ''body'' = Some []" by (simp add: filter_entries_def)
  moreover have "fst (hd (filter_blocks ?name ty)) = ''body''" "distinct (map fst (filter_blocks ?name ty))"
    "filter_blocks ?name ty \<noteq> []"
    by (simp_all add: list)
  ultimately show ?thesis unfolding wt_function_def bs by simp
qed

lemma remaining_function_typed:
  assumes f: "gen_filter_remaining_func fld = Inr f" and ty: "from_arrow (field_type fld) = Inr ty"
    and l: "loadable ty"
    and pred: "call_type (function_context M f) (field_name fld @ ''_predicate'') [Some (Val ty)] = Some TI1"
  shows "wt_function M f"
proof -
  let ?C = "function_context M f" and ?name = "field_name fld"
  have bs: "fn_blocks f = filter_remaining_blocks ?name ty" and C: "params ?C = [TPtr TI8, TPtr TI8, TI8, TI8]"
    "ret ?C = None" "allocas ?C = [(0, TI8)]"
    using f ty by (auto simp: function_context_def gen_filter_remaining_func_def filter_remaining_blocks_def Let_def llvm_types)
  have "distinct (concat (map defined_register (concat (map snd (filter_remaining_blocks ?name ty)))))"
    by (simp add: filter_remaining_blocks_def Let_def)
  then show ?thesis
    unfolding wt_function_def bs using loadable_TI8
    by (simp add: block_typing C l pred certificate_check)
qed

section \<open>The module\<close>

lemma wt_module_layout [simp]: "wt_module (M\<lparr>mod_layout := L\<rparr>) = wt_module M"
proof -
  have "function_context (M\<lparr>mod_layout := L\<rparr>) f = function_context M f" for f
    by (simp add: function_context_def)
  then have "wt_function (M\<lparr>mod_layout := L\<rparr>) = wt_function M"
    by (intro ext) (simp only: wt_function_def)
  then show ?thesis by (simp add: wt_module_def)
qed

lemma predicate_result:
  assumes "from_arrow (field_type fld) = Inr ty" and "params C = [ty]"
    and "accept_expr (ir_emit_visitor E fld) e initial_emit_state = Inr s"
  shows "emit_typed C s \<and> (m_result s \<noteq> None \<longleftrightarrow> is_condition fld e)"
proof (cases e)
  case (EBool b)
  have "emit_typed C initial_emit_state" by (simp add: emit_typed_def initial_emit_state_def)
  moreover have "m_result initial_emit_state = None" by (simp add: initial_emit_state_def)
  ultimately show ?thesis
    using assms(3) EBool emit_accept_typed [OF assms(1,2), of E b initial_emit_state s]
    by (auto split: if_splits)
qed (use assms(3) in \<open>auto simp: ir_emit_visitor_def default_visitor_def initial_emit_state_def emit_typed_def\<close>)

lemma predicate_function_typed:
  assumes p: "gen_predicate_func E fld e = Inr p" and ty: "from_arrow (field_type fld) = Inr ty"
  shows "wt_function M p \<longleftrightarrow> is_condition fld e"
proof -
  let ?C = "function_context M p"
  from p ty obtain s where s: "accept_expr (ir_emit_visitor E fld) e initial_emit_state = Inr s"
    and fn: "fn_params p = [ty]" "fn_ret p = Some TI1"
      "fn_blocks p = [(''body'', emit_code s @ [case m_result s of Some x \<Rightarrow> Ret x | None \<Rightarrow> RetVoid])]"
    by (auto simp: gen_predicate_func_def bindE_eq_Inr llvm_types Let_def)
  have "params ?C = [ty]" and ret: "ret ?C = Some TI1" by (simp_all add: function_context_def fn)
  from predicate_result [OF ty this(1) s] have typed: "emit_typed ?C s"
    and res: "m_result s \<noteq> None \<longleftrightarrow> is_condition fld e" by blast+
  then obtain env where env: "type_straight ?C [] (emit_code s) = Some env"
    and x: "\<forall>x. m_result s = Some x \<longrightarrow> operand_type ?C env x = Some (Val TI1)"
    and regs: "concat (map defined_register (emit_code s)) = [0..<emit_next s]"
    unfolding emit_typed_def by blast
  have "type_block ?C [] (snd (hd (fn_blocks p))) = (if is_condition fld e then Some (env, []) else None)"
    using x res ret by (cases "m_result s") (auto simp: fn type_block_append [OF env])
  then show ?thesis
    using regs by (auto simp: wt_function_def fn check_block_def split: option.splits)
qed

lemma gen_module_typed:
  assumes "gen_module E fld e = Inr M"
  shows "wt_module M \<longleftrightarrow> is_condition fld e"
proof -
  from assms obtain p f r where p: "gen_predicate_func E fld e = Inr p"
    and f: "gen_filter_func fld = Inr f" and r: "gen_filter_remaining_func fld = Inr r"
    and M: "mod_functions M = [p, f, r]"
    by (auto simp: gen_module_def bindE_eq_Inr)
  from p obtain ty where ty: "from_arrow (field_type fld) = Inr ty"
    by (auto simp: gen_predicate_func_def bindE_eq_Inr)
  then have l: "loadable ty" "\<not> is_pointer ty" using from_arrow_loadable by auto
  have names: "fn_name p = field_name fld @ ''_predicate''" "fn_params p = [ty]" "fn_ret p = Some TI1"
    "fn_name f = field_name fld @ ''_filter''" "fn_name r = field_name fld @ ''_filter_remaining''"
    using p f r ty
    by (auto simp: gen_predicate_func_def gen_filter_func_def gen_filter_remaining_func_def
        bindE_eq_Inr llvm_types Let_def)
  have "call_type (function_context M g) (field_name fld @ ''_predicate'') [Some (Val ty)] = Some TI1" for g
    using l by (simp add: call_type_def function_context_def M names)
  then show ?thesis
    using predicate_function_typed [OF p ty, of M] filter_function_typed [OF f ty l(1), of M]
      remaining_function_typed [OF r ty l(1), of M]
    by (simp add: wt_module_def M names)
qed

end
