(* ===== verification/Kernel_Contract.thy ===== *)
theory Kernel_Contract
  imports Loop_Overrun Emit_Typing
begin

text \<open>
  The interface of \<^verbatim>\<open>FilterKernel\<close> (\<^verbatim>\<open>pefa/kernels/filter.h\<close>) as a locale, and the proof that
  a compiled \<^verbatim>\<open>FitlerKernelImpl\<close> keeps it: the module that \<^verbatim>\<open>compile\<close> hands to the JIT, run
  on the buffers of a column, clears exactly the bits of the rows its expression rejects.
\<close>

section \<open>The interface\<close>

text \<open>
  \<open>ready k\<close>: the kernel is compiled; \<open>fits k a\<close>: it can run on the array \<open>a\<close>;
  \<open>row k a i\<close>: its expression holds for element \<open>i\<close>. \<open>execute\<close> handles the full bytes that
  follow the first \<open>offset\<close> elements, \<open>execute_remaining\<close> a run of elements inside one byte.
\<close>

locale bitmap_filter =
  fixes ready :: "'k \<Rightarrow> bool"
    and fits :: "'k \<Rightarrow> array \<Rightarrow> bool"
    and row :: "'k \<Rightarrow> array \<Rightarrow> nat \<Rightarrow> bool"
    and exec :: "'k \<Rightarrow> array \<Rightarrow> byte list \<Rightarrow> nat \<Rightarrow> 64 word \<Rightarrow> byte list result"
    and exec_remaining :: "'k \<Rightarrow> array \<Rightarrow> byte list \<Rightarrow> nat \<Rightarrow> 64 word \<Rightarrow> 8 word \<Rightarrow> byte list result"
  assumes fits_length: "fits k a \<Longrightarrow> array_length a < 2 ^ 57"
    and exec_law:
      "ready k \<Longrightarrow> fits k a \<Longrightarrow> unat offset \<le> array_length a \<Longrightarrow>
       d = base + of_bool (offset \<noteq> 0) \<Longrightarrow> n = (array_length a - unat offset) div 8 \<Longrightarrow>
       d + n \<le> length B \<Longrightarrow>
       \<exists>B'. exec k a B base offset = Inr B' \<and>
         restricts B B' {8 * d ..< 8 * (d + n)} (\<lambda>r. row k a (r - 8 * d + unat offset))"
    and exec_overrun:
      "ready k \<Longrightarrow> fits k a \<Longrightarrow> array_length a < unat offset \<Longrightarrow> unat offset < 8 \<Longrightarrow>
       length B < 2 ^ 57 \<Longrightarrow> exec k a B base offset = Inl OutOfBounds"
    and exec_remaining_law:
      "ready k \<Longrightarrow> fits k a \<Longrightarrow> n = unat (remaining_len (array_length a) array_offset bit_offset) \<Longrightarrow>
       n + unat bit_offset \<le> 8 \<Longrightarrow> unat array_offset + n \<le> array_length a \<Longrightarrow> base < length B \<Longrightarrow>
       s = 8 * base + unat bit_offset \<Longrightarrow>
       \<exists>B'. exec_remaining k a B base array_offset bit_offset = Inr B' \<and>
         restricts B B' {s ..< s + n} (\<lambda>r. row k a (r - s + unat array_offset))"

section \<open>The compiled kernel\<close>

text \<open>The element of an array's data buffer that the kernel's code reads.\<close>

definition raw_element :: "data_type \<Rightarrow> array \<Rightarrow> nat \<Rightarrow> ir_value" where
  "raw_element t a i =
     (case (from_arrow t, data_buffer a) of
        (Inr ty, Some buf) \<Rightarrow> element_at ty buf (i * type_size ty)
      | _ \<Rightarrow> VI1 0)"

text \<open>A primitive array whose data buffer holds its elements.\<close>

definition array_fits :: "data_type \<Rightarrow> array \<Rightarrow> bool" where
  "array_fits t a \<longleftrightarrow>
     array_length a < 2 ^ 57 \<and>
     (case (primitive_size (id_of t), bit_width (array_type a), data_buffer a) of
        (Some w, Some bits, Some buf) \<Rightarrow> bits = 8 * w \<and> array_length a * w \<le> length buf
      | _ \<Rightarrow> False)"

definition kernel_row :: "third_party \<times> filter_kernel \<Rightarrow> array \<Rightarrow> nat \<Rightarrow> bool" where
  "kernel_row Ek a i =
     (let (E, k) = Ek in
      case k_expr k of
        EBool e \<Rightarrow> element_holds E (k_field k) e (raw_element (field_type (k_field k)) a i)
      | _ \<Rightarrow> False)"

definition kernel_ready :: "third_party \<times> filter_kernel \<Rightarrow> bool" where
  "kernel_ready Ek \<longleftrightarrow>
     (let (E, k) = Ek; fld = k_field k in
      third_party_ok E \<and> k_is_compiled k \<and>
      (\<exists>e M m f r. k_expr k = EBool e \<and> compilable E fld e \<and>
         gen_module E fld (EBool e) = Inr M \<and> refines E (as_emitted (M\<lparr>mod_layout := mod_layout (emitted m)\<rparr>)) m \<and>
         gen_filter_func fld = Inr f \<and> k_filter_func k = Some (m, f) \<and>
         gen_filter_remaining_func fld = Inr r \<and> k_filter_remaining_func k = Some (m, r)))"

lemma gen_module_cases:
  assumes "compilable E fld e"
  obtains ty p f r where "from_arrow (field_type fld) = Inr ty"
    and "gen_predicate_func E fld (EBool e) = Inr p"
    and "is_predicate_function p (field_name fld) ty (element_holds E fld e)"
    and "gen_filter_func fld = Inr f" and "gen_filter_remaining_func fld = Inr r"
    and "gen_module E fld (EBool e) =
      Inr \<lparr>mod_name = field_name fld @ ''_filter_mod'', mod_triple = process_triple E,
        mod_layout = [], mod_functions = [p, f, r]\<rparr>"
proof -
  obtain ty p where ty: "from_arrow (field_type fld) = Inr ty"
    and p: "gen_predicate_func E fld (EBool e) = Inr p"
    and pred: "is_predicate_function p (field_name fld) ty (element_holds E fld e)"
    using gen_predicate_func_ok [OF assms] by blast
  then obtain f r where "gen_filter_func fld = Inr f" and "gen_filter_remaining_func fld = Inr r"
    by (simp add: gen_filter_func_def gen_filter_remaining_func_def)
  with ty p pred show thesis by (intro that) (auto simp: gen_module_def)
qed

lemma gen_func_names:
  "gen_filter_func fld = Inr f \<Longrightarrow> fn_name f = field_name fld @ ''_filter'' \<and> fn_external f"
  "gen_filter_remaining_func fld = Inr r \<Longrightarrow>
     fn_name r = field_name fld @ ''_filter_remaining'' \<and> fn_external r"
  by (auto simp: gen_filter_func_def gen_filter_remaining_func_def bindE_eq_Inr)

text \<open>Inside the module the loops call the predicate.\<close>

lemma module_calls_predicate:
  assumes "is_predicate_function p name ty P"
    and "mod_functions M = p # fs"
  shows "calls_predicate (module_call (Suc n) M) name ty P"
  using assms
  by (auto simp: calls_predicate_def get_function_def is_predicate_function_def)

section \<open>Compilation\<close>

lemma compilable_is_condition: "compilable E fld e \<Longrightarrow> is_condition fld (EBool e)"
  by (cases e) (auto simp: compilable_def)

text \<open>The two symbols of a kernel differ.\<close>

lemma kernel_symbols_differ:
  assumes "third_party_ok E"
  shows "mangle E dl (name @ ''_filter'') \<noteq> mangle E dl (name @ ''_filter_remaining'')"
  using sessionD(2) [OF assms, of dl] by (cases name) fastforce+

text \<open>No live module exports one of the two symbols that a kernel for a column looks up.\<close>

definition names_free :: "third_party \<Rightarrow> jit \<Rightarrow> string \<Rightarrow> bool" where
  "names_free E j name \<longleftrightarrow>
     symbol_free E j (name @ ''_filter'') \<and> symbol_free E j (name @ ''_filter_remaining'')"

lemma names_free_empty [simp]: "layer_modules j = [] \<Longrightarrow> names_free E j name"
  by (simp add: names_free_def)

lemma names_free_cong:
  "layer_modules j = layer_modules j' \<Longrightarrow> m_data_layout j = m_data_layout j' \<Longrightarrow>
   names_free E j name = names_free E j' name"
  by (simp add: names_free_def symbol_free_cong [of j j'])

text \<open>
  Compilation succeeds, leaves the kernel ready and adds one module, provided no live module
  exports its two symbols.
\<close>

lemma compile_kernel_ready:
  assumes E: "third_party_ok E" and e: "compilable E fld e" and j: "jit_inv E j"
    and free: "names_free E j (field_name fld)"
  obtains k M key j' where "compile_kernel E (create_cpu fld (EBool e)) j = Inr (k, j')"
    and "kernel_ready (E, k)" and "k_field k = fld" and "k_expr k = EBool e"
    and "addModule E M j = Inr (key, j')" and "k_module_key k = key"
proof -
  let ?name = "field_name fld" and ?dl = "m_data_layout j"
  obtain ty p f r where gen: "from_arrow (field_type fld) = Inr ty"
    "is_predicate_function p ?name ty (element_holds E fld e)"
    "gen_filter_func fld = Inr f" "gen_filter_remaining_func fld = Inr r"
    "gen_module E fld (EBool e) =
      Inr \<lparr>mod_name = field_name fld @ ''_filter_mod'', mod_triple = process_triple E,
        mod_layout = [], mod_functions = [p, f, r]\<rparr>"
    using gen_module_cases [OF e] by metis
  let ?M0 = "\<lparr>mod_name = field_name fld @ ''_filter_mod'', mod_triple = process_triple E,
      mod_layout = [], mod_functions = [p, f, r]\<rparr>"
  let ?M = "?M0\<lparr>mod_layout := data_layout (getTargetMachine j)\<rparr>"
  have "wt_module ?M"
    unfolding wt_module_layout gen_module_typed [OF gen(5)] by (rule compilable_is_condition [OF e])
  then obtain key m j' where add: "addModule E ?M j = Inr (key, j')"
    and j': "layer_modules j' = layer_modules j @ [(key, m)]" "m_data_layout j' = m_data_layout j"
    and m: "refines E (as_emitted ?M) m"
    by (rule addModule_ok [OF E])
  from j have "data_layout (getTargetMachine j) = m_data_layout j"
    by (simp add: jit_inv_def getTargetMachine_def)
  with m have em: "emitted m = ?M" "mod_layout (emitted m) = m_data_layout j"
    by (simp_all add: refines_def)
  note names = gen_func_names(1) [OF gen(3)] gen_func_names(2) [OF gen(4)]
  have internal: "\<not> fn_external p" using gen(2) by (simp add: is_predicate_function_def)
  have find: "findSymbol E (?name @ ''_filter'') j' = FunctionSymbol m f"
    "findSymbol E (?name @ ''_filter_remaining'') j' = FunctionSymbol m r"
    using names kernel_symbols_differ [OF E, of ?dl ?name] internal em
    by (auto intro!: findSymbol_added [OF E j' em(2) _ _ _ _ conjunct1 [OF free [unfolded names_free_def]]]
        findSymbol_added [OF E j' em(2) _ _ _ _ conjunct2 [OF free [unfolded names_free_def]]])
  let ?k = "(create_cpu fld (EBool e))\<lparr>k_module_key := key, k_filter_func := Some (m, f),
      k_filter_remaining_func := Some (m, r), k_is_compiled := True\<rparr>"
  have "compile_kernel E (create_cpu fld (EBool e)) j = Inr (?k, j')"
    using gen(5) add find by (simp add: compile_kernel_def create_cpu_def Let_def)
  moreover have "kernel_ready (E, ?k)"
    using gen(3-5) e E m em by (simp add: kernel_ready_def create_cpu_def)
  ultimately show thesis using add by (intro that) (auto simp: create_cpu_def)
qed

section \<open>The two methods of a compiled kernel\<close>

lemma kernel_readyE:
  assumes "kernel_ready (E, k)"
  obtains e ty m f r where "k_is_compiled k" and "k_expr k = EBool e"
    and "from_arrow (field_type (k_field k)) = Inr ty"
    and "k_filter_func k = Some (m, f)" and "k_filter_remaining_func k = Some (m, r)"
    and "gen_filter_func (k_field k) = Inr f" and "gen_filter_remaining_func (k_field k) = Inr r"
    and "\<And>n. calls_predicate (module_call (Suc n) (emitted m)) (field_name (k_field k)) ty
        (element_holds E (k_field k) e)"
    and "\<And>g args src B B'. g \<in> {f, r} \<Longrightarrow> invoke (kernel_fuel B) (emitted m) g args src B = Inr B' \<Longrightarrow>
      call_compiled E (m, g) args src B = Inr B'"
proof -
  from assms obtain e M m f r where E: "third_party_ok E" and k: "k_is_compiled k" "k_expr k = EBool e"
    "compilable E (k_field k) e" "gen_module E (k_field k) (EBool e) = Inr M"
    "gen_filter_func (k_field k) = Inr f" "k_filter_func k = Some (m, f)"
    "gen_filter_remaining_func (k_field k) = Inr r" "k_filter_remaining_func k = Some (m, r)"
    and m: "refines E (as_emitted (M\<lparr>mod_layout := mod_layout (emitted m)\<rparr>)) m"
    by (auto simp: kernel_ready_def Let_def)
  let ?M = "M\<lparr>mod_layout := mod_layout (emitted m)\<rparr>"
  obtain ty p where ty: "from_arrow (field_type (k_field k)) = Inr ty"
    and p: "is_predicate_function p (field_name (k_field k)) ty (element_holds E (k_field k) e)"
    and M: "mod_functions ?M = p # [f, r]"
  proof -
    obtain ty p f' r' where "from_arrow (field_type (k_field k)) = Inr ty"
      "is_predicate_function p (field_name (k_field k)) ty (element_holds E (k_field k) e)"
      "gen_filter_func (k_field k) = Inr f'" "gen_filter_remaining_func (k_field k) = Inr r'"
      "gen_module E (k_field k) (EBool e) = Inr \<lparr>mod_name = field_name (k_field k) @ ''_filter_mod'',
        mod_triple = process_triple E, mod_layout = [], mod_functions = [p, f', r']\<rparr>"
      using gen_module_cases [OF k(3)] by metis
    with k(4,5,7) show thesis by (intro that [of ty p]) auto
  qed
  have "wt_module ?M"
    unfolding wt_module_layout gen_module_typed [OF k(4)] by (rule compilable_is_condition [OF k(3)])
  note native = call_compiled_refines [OF E this m]
  show thesis
  proof (rule that [OF k(1,2) ty k(6,8,5,7)])
    have em: "emitted m = ?M" using m by (simp add: refines_def)
    show "calls_predicate (module_call (Suc n) (emitted m)) (field_name (k_field k)) ty (element_holds E (k_field k) e)" for n
      by (rule module_calls_predicate [OF p]) (subst em, rule M)
    show "call_compiled E (m, g) args src B = Inr B'"
      if "g \<in> {f, r}" "invoke (kernel_fuel B) (emitted m) g args src B = Inr B'" for g args src B B'
      using native [of g B args src B'] that em M gen_func_names(1) [OF k(5)] gen_func_names(2) [OF k(7)] by auto
  qed
qed

lemma array_fitsE:
  assumes "array_fits t a" and "from_arrow t = Inr ty"
  obtains buf where "data_buffer a = Some buf" and "bit_width (array_type a) = Some (8 * type_size ty)"
    and "array_length a * type_size ty \<le> length buf" and "array_length a < 2 ^ 57"
  using assms from_arrow_size [OF assms(2)]
  by (auto simp: array_fits_def split: option.splits)

lemma type_size_le: "element_type ty \<Longrightarrow> type_size ty \<le> 8"
  by (auto simp: element_type_def)

text \<open>The displacement \<open>bit_width * offset / 8\<close> is the byte position of element \<open>offset\<close>.\<close>

lemma displacement:
  assumes "w \<le> 8" and "unat offset < 2 ^ 57"
  shows "uint ((of_nat (8 * w) * offset) div 8 :: 64 word) = int (unat offset * w)"
proof -
  have "8 * w * unat offset \<le> 64 * unat offset" using assms(1) by (intro mult_right_mono) auto
  also have "\<dots> < 2 ^ 64" using assms(2) by simp
  finally have "8 * w * unat offset < 2 ^ 64" .
  then have "unat (of_nat (8 * w) * offset :: 64 word) = 8 * w * unat offset"
    using assms(1) by (simp add: unat_word_ariths(2) unat_of_nat mod_mult_left_eq flip: take_bit_eq_mod)
  then have "unat ((of_nat (8 * w) * offset) div 8 :: 64 word) = unat offset * w"
    by (simp add: unat_div)
  then show ?thesis by (metis uint_nat)
qed

lemma size_difference:
  assumes "unat offset \<le> n" and "n < 2 ^ 64"
  shows "(of_nat n - offset :: 64 word) = of_nat (n - unat offset)"
  using assms by (simp add: of_nat_diff)

text \<open>
  What the two methods come to on an array: calls of the compiled functions, whose outcome is that
  of their blocks.
\<close>

definition body_outcome :: "ir_module \<Rightarrow> (string \<times> instr list) list \<Rightarrow> ir_value list \<Rightarrow> byte list \<Rightarrow>
    byte list \<Rightarrow> (ir_value option \<times> byte list) result" where
  "body_outcome M bs args src B =
     run_blocks (module_call (kernel_fuel B) M) src args bs (kernel_fuel B) ''body''
       \<lparr>regs = Map.empty, slots = Map.empty, bitmap = B\<rparr>"

lemma invoke_filter:
  assumes "from_arrow (field_type fld) = Inr ty"
  shows "gen_filter_func fld = Inr f \<Longrightarrow>
      invoke (kernel_fuel B) M f [VPtr TI8 p, VPtr TI8 q, VI64 l] src B =
        bindE (body_outcome M (filter_blocks (field_name fld) ty) [VPtr TI8 p, VPtr TI8 q, VI64 l] src B)
          (\<lambda>(_, B'). Inr B')"
    and "gen_filter_remaining_func fld = Inr r \<Longrightarrow>
      invoke (kernel_fuel B) M r [VPtr TI8 p, VPtr TI8 q, VI8 len, VI8 b] src B =
        bindE (body_outcome M (filter_remaining_blocks (field_name fld) ty)
          [VPtr TI8 p, VPtr TI8 q, VI8 len, VI8 b] src B) (\<lambda>(_, B'). Inr B')"
proof -
  have "fst (hd (filter_blocks (field_name fld) ty)) = ''body''" "filter_blocks (field_name fld) ty \<noteq> []"
    "fst (hd (filter_remaining_blocks (field_name fld) ty)) = ''body''"
    "filter_remaining_blocks (field_name fld) ty \<noteq> []"
    by (simp_all add: filter_blocks_def filter_remaining_blocks_def Let_def)
  with assms show "gen_filter_func fld = Inr f \<Longrightarrow>
      invoke (kernel_fuel B) M f [VPtr TI8 p, VPtr TI8 q, VI64 l] src B =
        bindE (body_outcome M (filter_blocks (field_name fld) ty) [VPtr TI8 p, VPtr TI8 q, VI64 l] src B)
          (\<lambda>(_, B'). Inr B')"
    and "gen_filter_remaining_func fld = Inr r \<Longrightarrow>
      invoke (kernel_fuel B) M r [VPtr TI8 p, VPtr TI8 q, VI8 len, VI8 b] src B =
        bindE (body_outcome M (filter_remaining_blocks (field_name fld) ty)
          [VPtr TI8 p, VPtr TI8 q, VI8 len, VI8 b] src B) (\<lambda>(_, B'). Inr B')"
    by (auto simp: invoke_def run_function_def body_outcome_def gen_filter_func_def
        gen_filter_remaining_func_def llvm_types)
qed

lemma kernel_on_array:
  assumes ready: "kernel_ready (E, k)" and fits: "array_fits (field_type (k_field k)) a"
  obtains P ty M buf where "element_type ty" and "array_length a * type_size ty \<le> length buf"
    and "\<And>n. calls_predicate (module_call (Suc n) M) (field_name (k_field k)) ty P"
    and "\<And>p. element_rows ty buf (p * type_size ty) P = (\<lambda>i. kernel_row (E, k) a (i + p))"
    and "\<And>B base offset out. unat offset < 2 ^ 57 \<Longrightarrow>
      body_outcome M (filter_blocks (field_name (k_field k)) ty)
        [VPtr TI8 (Cell Source (int (unat offset * type_size ty))),
         VPtr TI8 (Cell Bitmap (int (base + of_bool (offset \<noteq> 0)))),
         VI64 (of_nat (array_length a) - offset)] buf B = out \<Longrightarrow>
      execute_kernel E k a B base offset = map_sum id snd out"
    and "\<And>B base offset b out. unat offset < 2 ^ 57 \<Longrightarrow>
      body_outcome M (filter_remaining_blocks (field_name (k_field k)) ty)
        [VPtr TI8 (Cell Source (int (unat offset * type_size ty))), VPtr TI8 (Cell Bitmap (int base)),
         VI8 (remaining_len (array_length a) offset b), VI8 b] buf B = out \<Longrightarrow>
      execute_remaining_kernel E k a B base offset b = map_sum id snd out"
proof -
  from ready obtain e ty m f r where k: "k_is_compiled k" "k_expr k = EBool e"
    and ty: "from_arrow (field_type (k_field k)) = Inr ty"
    and f: "k_filter_func k = Some (m, f)" and r: "k_filter_remaining_func k = Some (m, r)"
    and gen: "gen_filter_func (k_field k) = Inr f" "gen_filter_remaining_func (k_field k) = Inr r"
    and P: "\<And>n. calls_predicate (module_call (Suc n) (emitted m)) (field_name (k_field k)) ty
        (element_holds E (k_field k) e)"
    and native: "\<And>g args src B B'. g \<in> {f, r} \<Longrightarrow> invoke (kernel_fuel B) (emitted m) g args src B = Inr B' \<Longrightarrow>
      call_compiled E (m, g) args src B = Inr B'"
    by (rule kernel_readyE) (rule that, assumption+)
  from fits ty obtain buf where buf: "data_buffer a = Some buf"
    "bit_width (array_type a) = Some (8 * type_size ty)"
    "array_length a * type_size ty \<le> length buf" "array_length a < 2 ^ 57"
    by (rule array_fitsE)
  note el = from_arrow_element_type [OF ty]
  have call: "call_compiled E (m, g) args src B = invoke (kernel_fuel B) (emitted m) g args src B"
    if "g \<in> {f, r}" for g args src B
    using native [OF that, of B args src]
    by (cases "invoke (kernel_fuel B) (emitted m) g args src B") (simp_all add: call_compiled_def)
  have snd_bind: "bindE out (\<lambda>(_, B'). Inr B') = map_sum id snd out"
    for out :: "(ir_value option \<times> byte list) result" by (cases out) auto
  note calls = call invoke_filter(1) [OF ty gen(1)] invoke_filter(2) [OF ty gen(2)] snd_bind
  show thesis
  proof (rule that [OF el buf(3) P])
    show "element_rows ty buf (p * type_size ty) (element_holds E (k_field k) e) =
        (\<lambda>i. kernel_row (E, k) a (i + p))" for p
      by (simp add: element_rows_def kernel_row_def raw_element_def ty buf(1) k(2) fun_eq_iff
          add_mult_distrib add.commute)
    show "execute_kernel E k a B base offset = map_sum id snd out"
      if "unat offset < 2 ^ 57" "body_outcome (emitted m) (filter_blocks (field_name (k_field k)) ty)
        [VPtr TI8 (Cell Source (int (unat offset * type_size ty))),
         VPtr TI8 (Cell Bitmap (int (base + of_bool (offset \<noteq> 0)))),
         VI64 (of_nat (array_length a) - offset)] buf B = out" for B base offset out
      using that displacement [OF type_size_le [OF el] that(1)]
      by (cases "offset = 0") (simp_all add: execute_kernel_def k(1) f buf(1,2) calls add.commute)
    show "execute_remaining_kernel E k a B base offset b = map_sum id snd out"
      if "unat offset < 2 ^ 57" "body_outcome (emitted m) (filter_remaining_blocks (field_name (k_field k)) ty)
        [VPtr TI8 (Cell Source (int (unat offset * type_size ty))), VPtr TI8 (Cell Bitmap (int base)),
         VI8 (remaining_len (array_length a) offset b), VI8 b] buf B = out" for B base offset b out
      using that displacement [OF type_size_le [OF el] that(1)]
      by (simp add: execute_remaining_kernel_def k(1) r buf(1,2) calls)
  qed
qed

lemma kernel_fuel_Suc: obtains u where "kernel_fuel B = Suc u"
  by (simp add: kernel_fuel_def)

lemma execute_kernel_law:
  assumes ready: "kernel_ready (E, k)" and fits: "array_fits (field_type (k_field k)) a"
    and off: "unat offset \<le> array_length a" and d: "d = base + of_bool (offset \<noteq> 0)"
    and n: "n = (array_length a - unat offset) div 8" and B: "d + n \<le> length B"
  shows "execute_kernel E k a B base offset =
    Inr (filter_bytes (\<lambda>i. kernel_row (E, k) a (i + unat offset)) d n B)"
  using ready fits
proof (rule kernel_on_array)
  fix P ty M buf
  assume el: "element_type ty" and buf: "array_length a * type_size ty \<le> length buf"
    and P: "\<And>n. calls_predicate (module_call (Suc n) M) (field_name (k_field k)) ty P"
    and rows: "\<And>p. element_rows ty buf (p * type_size ty) P = (\<lambda>i. kernel_row (E, k) a (i + p))"
    and run: "\<And>B base offset out. unat offset < 2 ^ 57 \<Longrightarrow>
      body_outcome M (filter_blocks (field_name (k_field k)) ty)
        [VPtr TI8 (Cell Source (int (unat offset * type_size ty))),
         VPtr TI8 (Cell Bitmap (int (base + of_bool (offset \<noteq> 0)))),
         VI64 (of_nat (array_length a) - offset)] buf B = out \<Longrightarrow>
      execute_kernel E k a B base offset = map_sum id snd out"
  let ?L = "array_length a - unat offset" and ?w = "type_size ty"
  have len: "array_length a < 2 ^ 57" using fits by (simp add: array_fits_def)
  have "(unat offset + 8 * n) * ?w \<le> array_length a * ?w"
    using off unfolding n by (intro mult_right_mono) auto
  with buf have bound: "unat offset * ?w + 8 * (?L div 8) * ?w \<le> length buf"
    unfolding n by (simp add: add_mult_distrib)
  obtain u where u: "kernel_fuel B = Suc u" by (rule kernel_fuel_Suc)
  have "(of_nat (array_length a) - offset :: 64 word) = of_nat ?L"
    using size_difference [OF off] len by simp
  moreover have "body_outcome M (filter_blocks (field_name (k_field k)) ty)
      [VPtr TI8 (Cell Source (int (unat offset * ?w))), VPtr TI8 (Cell Bitmap (int d)), VI64 (of_nat ?L)] buf B =
    Inr (None, filter_bytes (\<lambda>i. kernel_row (E, k) a (i + unat offset)) d n B)"
    unfolding rows [symmetric] n u body_outcome_def
    by (rule filter_loop_run [OF el P _ bound])
      (use B n len u in \<open>auto simp: kernel_fuel_def\<close>)
  ultimately show ?thesis using run [of offset base B] off len by (simp add: d)
qed

text \<open>An offset behind the end of the array: the wrapped length leads out of the buffers.\<close>

lemma wrapped_difference:
  assumes "n < unat (offset :: 64 word)"
  shows "(of_nat n - offset) = of_nat (2 ^ 64 - (unat offset - n))"
proof -
  have lt: "unat offset < 2 ^ 64" by (rule order.strict_trans2 [OF unsigned_less]) simp
  have "2 ^ 64 - (unat offset - n) = 2 ^ 64 + n - unat offset"
    using assms lt by simp
  moreover have "(of_nat (2 ^ 64 + n - unat offset) :: 64 word) = of_nat (2 ^ 64 + n) - of_nat (unat offset)"
    using assms lt by (intro of_nat_diff) simp
  ultimately show ?thesis by simp
qed

lemma execute_kernel_overrun:
  assumes ready: "kernel_ready (E, k)" and fits: "array_fits (field_type (k_field k)) a"
    and off: "array_length a < unat offset" "unat offset < 2 ^ 57" and B: "length B < 2 ^ 57"
  shows "execute_kernel E k a B base offset = Inl OutOfBounds"
  using ready fits
proof (rule kernel_on_array)
  fix P ty M buf
  assume el: "element_type ty"
    and P: "\<And>n. calls_predicate (module_call (Suc n) M) (field_name (k_field k)) ty P"
    and run: "\<And>B base offset out. unat offset < 2 ^ 57 \<Longrightarrow>
      body_outcome M (filter_blocks (field_name (k_field k)) ty)
        [VPtr TI8 (Cell Source (int (unat offset * type_size ty))),
         VPtr TI8 (Cell Bitmap (int (base + of_bool (offset \<noteq> 0)))),
         VI64 (of_nat (array_length a) - offset)] buf B = out \<Longrightarrow>
      execute_kernel E k a B base offset = map_sum id snd out"
  obtain u where u: "kernel_fuel B = Suc u" by (rule kernel_fuel_Suc)
  have "body_outcome M (filter_blocks (field_name (k_field k)) ty)
      [VPtr TI8 (Cell Source (int (unat offset * type_size ty))),
       VPtr TI8 (Cell Bitmap (int (base + of_bool (offset \<noteq> 0)))),
       VI64 (of_nat (2 ^ 64 - (unat offset - array_length a)))] buf B = Inl OutOfBounds"
    unfolding body_outcome_def u
    by (rule filter_loop_overrun [OF el P _ _ B _ refl]) (use off B u in \<open>auto simp: kernel_fuel_def\<close>)
  with run [OF off(2), of base B] show ?thesis by (simp add: wrapped_difference [OF off(1)])
qed

lemma execute_remaining_kernel_law:
  assumes ready: "kernel_ready (E, k)" and fits: "array_fits (field_type (k_field k)) a"
    and n: "n = unat (remaining_len (array_length a) array_offset bit_offset)"
    and byte: "n + unat bit_offset \<le> 8" and off: "unat array_offset + n \<le> array_length a"
    and base: "base < length B"
  shows "execute_remaining_kernel E k a B base array_offset bit_offset =
    Inr (filter_bits (\<lambda>i. kernel_row (E, k) a (i + unat array_offset)) base (unat bit_offset) n B)"
  using ready fits
proof (rule kernel_on_array)
  fix P ty M buf
  assume el: "element_type ty" and buf: "array_length a * type_size ty \<le> length buf"
    and P: "\<And>n. calls_predicate (module_call (Suc n) M) (field_name (k_field k)) ty P"
    and rows: "\<And>p. element_rows ty buf (p * type_size ty) P = (\<lambda>i. kernel_row (E, k) a (i + p))"
    and run: "\<And>B base offset b out. unat offset < 2 ^ 57 \<Longrightarrow>
      body_outcome M (filter_remaining_blocks (field_name (k_field k)) ty)
        [VPtr TI8 (Cell Source (int (unat offset * type_size ty))), VPtr TI8 (Cell Bitmap (int base)),
         VI8 (remaining_len (array_length a) offset b), VI8 b] buf B = out \<Longrightarrow>
      execute_remaining_kernel E k a B base offset b = map_sum id snd out"
  let ?w = "type_size ty"
  have "(unat array_offset + n) * ?w \<le> array_length a * ?w"
    using off by (intro mult_right_mono) auto
  with buf have bound: "unat array_offset * ?w + n * ?w \<le> length buf" by (simp add: add_mult_distrib)
  have "array_length a < 2 ^ 57" using fits by (simp add: array_fits_def)
  with off have small: "unat array_offset < 2 ^ 57" by simp
  obtain u where u: "kernel_fuel B = Suc u" by (rule kernel_fuel_Suc)
  have "body_outcome M (filter_remaining_blocks (field_name (k_field k)) ty)
      [VPtr TI8 (Cell Source (int (unat array_offset * ?w))), VPtr TI8 (Cell Bitmap (int base)),
       VI8 (of_nat n), VI8 (of_nat (unat bit_offset))] buf B =
    Inr (None, filter_bits (\<lambda>i. kernel_row (E, k) a (i + unat array_offset)) base (unat bit_offset) n B)"
    unfolding rows [symmetric] u body_outcome_def
    by (rule remaining_loop_run [OF el P byte bound base])
      (use byte u in \<open>auto simp: kernel_fuel_def\<close>)
  with run [OF small, of base bit_offset B] show ?thesis by (simp add: n)
qed

section \<open>The interpretation\<close>

definition kernel_fits :: "third_party \<times> filter_kernel \<Rightarrow> array \<Rightarrow> bool" where
  "kernel_fits Ek a = array_fits (field_type (k_field (snd Ek))) a"

interpretation fk: bitmap_filter kernel_ready kernel_fits kernel_row
  "\<lambda>Ek. execute_kernel (fst Ek) (snd Ek)" "\<lambda>Ek. execute_remaining_kernel (fst Ek) (snd Ek)"
proof (unfold_locales, goal_cases)
  case (1 Ek a)
  then show ?case by (auto simp: kernel_fits_def array_fits_def)
next
  case (2 Ek a offset d base n B)
  obtain E k where Ek: "Ek = (E, k)" by fastforce
  from 2 have "execute_kernel E k a B base offset =
      Inr (filter_bytes (\<lambda>i. kernel_row (E, k) a (i + unat offset)) d n B)"
    unfolding Ek kernel_fits_def snd_conv by (intro execute_kernel_law)
  with filter_bytes_restricts [OF 2(6)] Ek show ?case by simp
next
  case (3 Ek a offset B base)
  then show ?case
    using execute_kernel_overrun [of "fst Ek" "snd Ek" a offset B base] by (simp add: kernel_fits_def)
next
  case (4 Ek a n array_offset bit_offset base B s)
  obtain E k where Ek: "Ek = (E, k)" by fastforce
  from 4 have "execute_remaining_kernel E k a B base array_offset bit_offset = Inr (filter_bits
      (\<lambda>i. kernel_row (E, k) a (i + unat array_offset)) base (unat bit_offset) n B)"
    unfolding Ek kernel_fits_def snd_conv by (intro execute_remaining_kernel_law)
  moreover from 4(4) have "unat bit_offset + n \<le> 8" by simp
  ultimately show ?case
    using filter_bits_restricts [OF 4(6)] Ek 4(7) by simp
qed

end
