(* ===== verification/Chunk_Passes.thy ===== *)
theory Chunk_Passes
  imports Kernel_Contract
begin

text \<open>
  The two passes over the chunks of a column in \<^verbatim>\<open>FilterExprExecutor::visit(const CompareExpr&)\<close>
  (\<^verbatim>\<open>pefa/execution/execution.cpp\<close>), written over the virtual methods of the kernel they call.
  Inside the kernel's interface they are shown to filter every row exactly once, for the chunk
  layouts that keep the kernel within its buffers.
\<close>

section \<open>The passes\<close>

text \<open>The inner loop that adds up the lengths of the chunks before \<open>chunk_num\<close>.\<close>

definition preceding_length :: "array list \<Rightarrow> nat \<Rightarrow> 64 word" where
  "preceding_length cs chunk_num =
     fold (\<lambda>i offset. offset + of_nat (array_length (cs ! i))) [0..<chunk_num] 0"

definition main_pass_step :: "(array \<Rightarrow> byte list \<Rightarrow> nat \<Rightarrow> 64 word \<Rightarrow> byte list result) \<Rightarrow>
    array list \<Rightarrow> nat \<Rightarrow> byte list \<Rightarrow> byte list result" where
  "main_pass_step exec cs chunk_num buffer =
     (let offset = preceding_length cs chunk_num;
          prev_bits = offset mod 8;
          remaining_bits = (8 - prev_bits) mod 8
      in exec (cs ! chunk_num) buffer (unat (offset div 8)) remaining_bits)"

definition main_pass :: "(array \<Rightarrow> byte list \<Rightarrow> nat \<Rightarrow> 64 word \<Rightarrow> byte list result) \<Rightarrow>
    array list \<Rightarrow> byte list \<Rightarrow> byte list result" where
  "main_pass exec cs buffer = foldE (main_pass_step exec cs) [0..<length cs] buffer"

definition remaining_pass_step ::
  "(array \<Rightarrow> byte list \<Rightarrow> nat \<Rightarrow> 64 word \<Rightarrow> 8 word \<Rightarrow> byte list result) \<Rightarrow>
    array list \<Rightarrow> nat \<Rightarrow> byte list \<times> 64 word \<Rightarrow> (byte list \<times> 64 word) result" where
  "remaining_pass_step exec_remaining cs chunk_num st =
     (let (buffer, offset) = st; chunk = cs ! chunk_num in
      bindE (if offset mod 8 \<noteq> 0
             then exec_remaining chunk buffer (unat (offset div 8)) 0 (ucast (offset mod 8))
             else Inr buffer) (\<lambda>buffer'.
      let offset' = offset + of_nat (array_length chunk) in
      bindE (if offset' mod 8 \<noteq> 0
             then exec_remaining chunk buffer' (unat (offset' div 8))
                    (of_nat (array_length chunk) - offset' mod 8) 0
             else Inr buffer') (\<lambda>buffer''.
      Inr (buffer'', offset'))))"

definition remaining_pass ::
  "(array \<Rightarrow> byte list \<Rightarrow> nat \<Rightarrow> 64 word \<Rightarrow> 8 word \<Rightarrow> byte list result) \<Rightarrow>
    array list \<Rightarrow> byte list \<Rightarrow> byte list result" where
  "remaining_pass exec_remaining cs buffer =
     bindE (foldE (remaining_pass_step exec_remaining cs) [0..<length cs] (buffer, 0))
       (\<lambda>(buffer', _). Inr buffer')"

section \<open>Rows of a chunked column\<close>

definition chunk_start :: "array list \<Rightarrow> nat \<Rightarrow> nat" where
  "chunk_start cs n = sum_list (map array_length (take n cs))"

definition total_rows :: "array list \<Rightarrow> nat" where
  "total_rows cs = sum_list (map array_length cs)"

definition chunk_rows :: "(array \<Rightarrow> nat \<Rightarrow> 'b) \<Rightarrow> array list \<Rightarrow> 'b list" where
  "chunk_rows f cs = concat (map (\<lambda>a. map (f a) [0..<array_length a]) cs)"

text \<open>
  The layouts the kernel handles: a chunk that does not start on a byte boundary of the bitmap
  holds the rest of the byte it starts in, also after its length has been cut to eight bits.
\<close>

definition layout_ok :: "array list \<Rightarrow> bool" where
  "layout_ok cs \<longleftrightarrow> (\<forall>n < length cs. chunk_start cs n mod 8 \<noteq> 0 \<longrightarrow>
     8 - chunk_start cs n mod 8 \<le> array_length (cs ! n) mod 256)"

text \<open>What the main pass alone needs: the chunk's head lies inside the chunk.\<close>

definition head_fits :: "array list \<Rightarrow> nat \<Rightarrow> bool" where
  "head_fits cs n \<longleftrightarrow>
     (chunk_start cs n mod 8 \<noteq> 0 \<longrightarrow> 8 - chunk_start cs n mod 8 \<le> array_length (cs ! n))"

lemma layout_head_fits: "layout_ok cs \<Longrightarrow> n < length cs \<Longrightarrow> head_fits cs n"
  using mod_less_eq_dividend [of "array_length (cs ! n)" 256]
  by (auto simp: layout_ok_def head_fits_def intro: order_trans)

lemma chunk_start_0 [simp]: "chunk_start cs 0 = 0"
  by (simp add: chunk_start_def)

lemma chunk_start_Suc [simp]:
  "n < length cs \<Longrightarrow> chunk_start cs (Suc n) = chunk_start cs n + array_length (cs ! n)"
  by (simp add: chunk_start_def take_Suc_conv_app_nth)

lemma chunk_start_total: "chunk_start cs (length cs) = total_rows cs"
  by (simp add: chunk_start_def total_rows_def)

lemma chunk_start_mono: "m \<le> n \<Longrightarrow> chunk_start cs m \<le> chunk_start cs n"
proof -
  assume "m \<le> n"
  then have "take n cs = take m cs @ take (n - m) (drop m cs)"
    by (metis le_add_diff_inverse take_add)
  then show ?thesis by (simp add: chunk_start_def)
qed

lemma chunk_end_le: "n < length cs \<Longrightarrow> chunk_start cs n + array_length (cs ! n) \<le> total_rows cs"
  using chunk_start_mono [of "Suc n" "length cs" cs] by (simp add: chunk_start_total)

lemma length_chunk_rows [simp]: "length (chunk_rows f cs) = total_rows cs"
  by (simp add: chunk_rows_def total_rows_def length_concat comp_def)

lemma chunk_rows_append: "chunk_rows f (as @ bs) = chunk_rows f as @ chunk_rows f bs"
  by (simp add: chunk_rows_def)

lemma nth_chunk_rows:
  assumes "n < length cs" and "i < array_length (cs ! n)"
  shows "chunk_rows f cs ! (chunk_start cs n + i) = f (cs ! n) i"
proof -
  have "chunk_rows f cs = chunk_rows f (take n cs @ cs ! n # drop (Suc n) cs)"
    using id_take_nth_drop [OF assms(1)] by (rule arg_cong)
  also have "\<dots> = chunk_rows f (take n cs) @ map (f (cs ! n)) [0..<array_length (cs ! n)]
        @ chunk_rows f (drop (Suc n) cs)"
    by (simp only: chunk_rows_def map_append concat_append list.map concat.simps append_assoc)
  finally have rows: "chunk_rows f cs = \<dots>" .
  have "length (chunk_rows f (take n cs)) = chunk_start cs n"
    by (simp add: total_rows_def chunk_start_def)
  with assms(2) show ?thesis unfolding rows by (simp add: nth_append)
qed

lemma preceding_length_eq:
  "n \<le> length cs \<Longrightarrow> preceding_length cs n = of_nat (chunk_start cs n)"
  unfolding preceding_length_def by (induction n) simp_all

section \<open>The arithmetic of byte boundaries\<close>

lemma unat_of_nat_small: "n < 2 ^ 57 \<Longrightarrow> unat (of_nat n :: 64 word) = n"
  by (simp add: unat_of_nat)

lemma unat_mod_8:
  assumes "n < 2 ^ 57"
  shows "unat (of_nat n mod 8 :: 64 word) = n mod 8" and "unat (of_nat n div 8 :: 64 word) = n div 8"
  using unat_of_nat_small [OF assms] by (simp_all add: unat_mod unat_div)

lemma mod_8_nonzero: "n < 2 ^ 57 \<Longrightarrow> (of_nat n mod 8 :: 64 word) \<noteq> 0 \<longleftrightarrow> n mod 8 \<noteq> 0"
  using unat_mod_8(1) [of n] by (metis unat_eq_zero)

lemma remaining_bits_unat:
  assumes "n < 2 ^ 57"
  shows "unat ((8 - of_nat n mod 8) mod 8 :: 64 word) = (8 - n mod 8) mod 8"
proof -
  have "unat (8 - of_nat n mod 8 :: 64 word) = 8 - n mod 8"
    using unat_mod_8(1) [OF assms] by (subst unat_sub) (auto simp: word_le_nat_alt)
  then show ?thesis by (simp add: unat_mod)
qed

lemma ucast_mod_8:
  assumes "n < 2 ^ 57"
  shows "unat (ucast (of_nat n mod 8 :: 64 word) :: 8 word) = n mod 8"
  using unat_mod_8(1) [OF assms] by (simp add: unsigned_ucast_eq take_bit_eq_mod)

text \<open>The rows each call looks at, for a chunk of \<open>l\<close> rows from row \<open>s\<close> on.\<close>

definition main_rows :: "nat \<Rightarrow> nat \<Rightarrow> nat set" where
  "main_rows s l = (let o8 = (8 - s mod 8) mod 8 in {s + o8 ..< s + o8 + 8 * ((l - o8) div 8)})"

definition head_rows :: "nat \<Rightarrow> nat set" where
  "head_rows s = (if s mod 8 \<noteq> 0 then {s ..< s + (8 - s mod 8)} else {})"

definition tail_rows :: "nat \<Rightarrow> nat set" where
  "tail_rows t = {t - t mod 8 ..< t}"

lemma boundary: "s + (8 - s mod 8) mod 8 = 8 * (s div 8 + of_bool (s mod 8 \<noteq> (0::nat)))"
  by (cases "s mod 8 = 0"; simp; presburger)

lemma boundary_nonzero: "(8 - s mod 8) mod 8 = 0 \<longleftrightarrow> s mod 8 = (0::nat)"
proof -
  have "s mod 8 < 8" by simp
  then show ?thesis by (cases "s mod 8 = 0") auto
qed

lemma chunk_rows_cover:
  assumes "s mod 8 \<noteq> 0 \<longrightarrow> 8 - s mod 8 \<le> l"
  shows "main_rows s l \<union> (head_rows s \<union> tail_rows (s + l)) = {s ..< s + l}"
proof -
  define o8 where "o8 = (8 - s mod 8) mod 8"
  have o8: "o8 \<le> l" "head_rows s = {s ..< s + o8}"
    using assms by (auto simp: o8_def head_rows_def)
  define m where "m = (l - o8) div 8"
  obtain k where k: "s + o8 = 8 * k" unfolding o8_def using boundary by blast
  with o8(1) have "s + l = (l - o8) + 8 * k" by linarith
  then have "(s + l) mod 8 = (l - o8) mod 8" by simp
  moreover have "l - o8 = 8 * m + (l - o8) mod 8" by (simp add: m_def)
  ultimately have "s + l - (s + l) mod 8 = s + o8 + 8 * m" and "s + o8 + 8 * m \<le> s + l"
    using o8(1) by linarith+
  moreover from this have "tail_rows (s + l) = {s + o8 + 8 * m ..< s + l}"
    by (simp add: tail_rows_def)
  moreover have "main_rows s l = {s + o8 ..< s + o8 + 8 * m}"
    by (simp add: main_rows_def Let_def o8_def m_def)
  moreover have "{s + o8 ..< s + o8 + 8 * m} \<union> ({s ..< s + o8} \<union> {s + o8 + 8 * m ..< t}) = {s ..< t}"
    if "s + o8 + 8 * m \<le> t" for t using that by auto
  ultimately show ?thesis using o8(2) by simp
qed

text \<open>The number of rows of the two calls for the remaining rows.\<close>

lemma unat_min: "unat (min a b) = min (unat a) (unat b)" for a b :: "'a::len word"
  by (simp add: min_def word_le_nat_alt)

lemma remaining_len_head:
  assumes "s < 2 ^ 57" and "l < 2 ^ 57" and "8 - s mod 8 \<le> l mod 256"
  shows "unat (remaining_len l 0 (ucast (of_nat s mod 8 :: 64 word))) = 8 - s mod 8"
proof -
  have "unat (8 - ucast (of_nat s mod 8 :: 64 word) :: 8 word) = 8 - s mod 8"
    using ucast_mod_8 [OF assms(1)] by (subst unat_sub) (auto simp: word_le_nat_alt)
  moreover have "unat (ucast (of_nat l :: 64 word) :: 8 word) = l mod 256"
    using unat_of_nat_small [OF assms(2)] by (simp add: unsigned_ucast_eq take_bit_eq_mod)
  ultimately show ?thesis
    using assms(3) by (simp add: remaining_len_def unat_min)
qed

lemma tail_offset:
  assumes "t < 2 ^ 57" and "l < 2 ^ 57" and "t mod 8 \<le> l"
  shows "unat (of_nat l - of_nat t mod 8 :: 64 word) = l - t mod 8"
  using assms unat_mod_8(1) [OF assms(1)] unat_of_nat_small [OF assms(2)]
  by (subst unat_sub) (auto simp: word_le_nat_alt)

lemma remaining_len_tail:
  assumes "t < 2 ^ 57" and "l < 2 ^ 57" and "t mod 8 \<le> l"
  shows "unat (remaining_len l (of_nat l - of_nat t mod 8) 0) = t mod 8"
proof -
  let ?off = "of_nat l - of_nat t mod 8 :: 64 word"
  have "of_nat l - ?off = of_nat t mod 8" by simp
  then have cut: "unat (ucast (of_nat l - ?off) :: 8 word) = t mod 8"
    using ucast_mod_8 [OF assms(1)] by simp
  then show ?thesis
    using ucast_mod_8 [OF assms(1)] by (simp add: remaining_len_def unat_min)
qed

lemma tail_in_chunk:
  fixes s l :: nat
  assumes "s mod 8 \<noteq> 0 \<longrightarrow> 8 - s mod 8 \<le> l"
  shows "(s + l) mod 8 \<le> l"
proof (cases "s mod 8 = 0")
  case True
  then have "(s + l) mod 8 = l mod 8" by (metis add_0 mod_add_left_eq)
  then show ?thesis by simp
next
  case False
  define r where "r = s mod 8"
  have r: "r < 8" "8 \<le> r + l" using False assms by (simp_all add: r_def)
  have "(s + l) mod 8 = (r + l) mod 8" by (simp add: r_def mod_add_left_eq)
  also have "\<dots> = (r + l - 8) mod 8" using r(2) by (simp add: le_mod_geq)
  also have "\<dots> \<le> r + l - 8" by simp
  finally show ?thesis using r by linarith
qed

section \<open>The passes inside the interface\<close>

context bitmap_filter begin

lemma main_pass_step_ok:
  assumes k: "ready k" "\<forall>a \<in> set cs. fits k a" and cs: "total_rows cs < 2 ^ 57"
    and n: "n < length cs" "head_fits cs n" and B: "total_rows cs \<le> 8 * length B"
  shows "\<exists>B'. main_pass_step (exec k) cs n B = Inr B' \<and>
    restricts B B' (main_rows (chunk_start cs n) (array_length (cs ! n)))
      (\<lambda>r. chunk_rows (row k) cs ! r)"
proof -
  define s l offset where "s = chunk_start cs n" and "l = array_length (cs ! n)"
    and "offset = ((8 - of_nat s mod 8) mod 8 :: 64 word)"
  define o8 d m where "o8 = (8 - s mod 8) mod 8" and "d = s div 8 + of_bool (offset \<noteq> 0)"
    and "m = (l - unat offset) div 8"
  have fits: "fits k (cs ! n)" using k(2) n(1) by simp
  have s: "s < 2 ^ 57" using cs chunk_end_le [OF n(1)] by (simp add: s_def)
  have o8: "unat offset = o8" using remaining_bits_unat [OF s] by (simp add: offset_def o8_def)
  have "8 - x mod 8 \<le> l \<Longrightarrow> (8 - x mod 8) mod 8 \<le> l" for x :: nat
    using mod_less_eq_dividend [of "8 - x mod 8" 8] by (rule order_trans)
  then have "o8 \<le> l" using n(2) by (cases "s mod 8 = 0") (auto simp: head_fits_def s_def l_def o8_def)
  have nz: "offset \<noteq> 0 \<longleftrightarrow> s mod 8 \<noteq> 0"
    using o8 unfolding o8_def by (metis boundary_nonzero unat_eq_zero)
  have d8: "8 * d = s + o8" using boundary [of s] by (simp add: d_def nz o8_def)
  have "8 * (d + m) \<le> s + l"
    using d8 \<open>o8 \<le> l\<close> o8 times_div_less_eq_dividend [of 8 "l - o8"]
    unfolding m_def add_mult_distrib2 by linarith
  then have "d + m \<le> length B"
    using B chunk_end_le [OF n(1)] by (simp add: s_def l_def)
  with exec_law [OF k(1) fits _ d_def m_def [unfolded l_def]] o8 \<open>o8 \<le> l\<close> obtain B' where
    B': "exec k (cs ! n) B (s div 8) offset = Inr B'"
      "restricts B B' {8 * d ..< 8 * (d + m)} (\<lambda>r. row k (cs ! n) (r - 8 * d + unat offset))"
    by (auto simp: l_def)
  have rows: "{8 * d ..< 8 * (d + m)} = main_rows s l"
    by (simp add: main_rows_def Let_def o8_def [symmetric] d8 [symmetric] m_def o8)
  have "row k (cs ! n) (r - 8 * d + unat offset) = chunk_rows (row k) cs ! r"
    if "r \<in> main_rows s l" for r
  proof -
    from that rows [symmetric] \<open>8 * (d + m) \<le> s + l\<close> d8 have "s + o8 \<le> r" "r < s + l" by auto
    then show ?thesis
      using nth_chunk_rows [OF n(1), of "r - s" "row k"] by (simp add: o8 d8 s_def l_def)
  qed
  with B'(2) have "restricts B B' (main_rows s l) (\<lambda>r. chunk_rows (row k) cs ! r)"
    unfolding rows by (rule restricts_cong)
  moreover have "main_pass_step (exec k) cs n B = Inr B'"
    using B'(1) n(1) unat_mod_8(2) [OF s]
    by (simp add: main_pass_step_def Let_def preceding_length_eq offset_def s_def)
  ultimately show ?thesis unfolding s_def l_def by blast
qed

lemma main_pass_ok:
  assumes k: "ready k" "\<forall>a \<in> set cs. fits k a" and cs: "total_rows cs < 2 ^ 57"
    and B: "total_rows cs \<le> 8 * length B" and n: "n \<le> length cs" "\<forall>i < n. head_fits cs i"
  shows "\<exists>B'. foldE (main_pass_step (exec k) cs) [0..<n] B = Inr B' \<and>
    restricts B B' (\<Union>i < n. main_rows (chunk_start cs i) (array_length (cs ! i)))
      (\<lambda>r. chunk_rows (row k) cs ! r)"
  using n
proof (induction n)
  case 0
  then show ?case by (simp add: restricts_refl)
next
  case (Suc n)
  then obtain B1 where B1: "foldE (main_pass_step (exec k) cs) [0..<n] B = Inr B1"
    "restricts B B1 (\<Union>i < n. main_rows (chunk_start cs i) (array_length (cs ! i)))
      (\<lambda>r. chunk_rows (row k) cs ! r)" by auto
  from Suc.prems have "n < length cs" "head_fits cs n" by simp_all
  moreover have "total_rows cs \<le> 8 * length B1" using B restricts_length [OF B1(2)] by simp
  ultimately obtain B2 where B2: "main_pass_step (exec k) cs n B1 = Inr B2"
    "restricts B1 B2 (main_rows (chunk_start cs n) (array_length (cs ! n)))
      (\<lambda>r. chunk_rows (row k) cs ! r)"
    using main_pass_step_ok [OF k cs] by blast
  from restricts_trans [OF B1(2) B2(2)] B1(1) B2(1) show ?case
    by (auto simp: foldE_append lessThan_Suc Un_commute)
qed

text \<open>The first chunk whose head does not lie inside it stops the pass.\<close>

lemma main_pass_overrun:
  assumes k: "ready k" "\<forall>a \<in> set cs. fits k a" and cs: "total_rows cs < 2 ^ 57"
    and B: "total_rows cs \<le> 8 * length B" "length B < 2 ^ 57" and "\<exists>n < length cs. \<not> head_fits cs n"
  shows "main_pass (exec k) cs B = Inl OutOfBounds"
proof -
  define n where "n = (LEAST n. n < length cs \<and> \<not> head_fits cs n)"
  have n: "n < length cs \<and> \<not> head_fits cs n"
    unfolding n_def by (rule LeastI_ex) (use assms(6) in blast)
  have "\<forall>i < n. head_fits cs i"
  proof (intro allI impI)
    fix i assume i: "i < n"
    then have "\<not> (i < length cs \<and> \<not> head_fits cs i)" unfolding n_def by (rule not_less_Least)
    with i n show "head_fits cs i" by simp
  qed
  then obtain B1 where B1: "foldE (main_pass_step (exec k) cs) [0..<n] B = Inr B1" "length B1 = length B"
    using main_pass_ok [OF k cs B(1), of n] n restricts_length by (metis less_imp_le)
  let ?s = "chunk_start cs n" and ?l = "array_length (cs ! n)"
  let ?offset = "(8 - of_nat ?s mod 8) mod 8 :: 64 word"
  from n have n: "n < length cs" "\<not> head_fits cs n" by simp_all
  have s: "?s < 2 ^ 57" using cs chunk_end_le [OF n(1)] by simp
  from n(2) have short: "?s mod 8 \<noteq> 0" "?l < 8 - ?s mod 8" by (auto simp: head_fits_def)
  have "unat ?offset = 8 - ?s mod 8" using remaining_bits_unat [OF s] short(1) by simp
  moreover have "fits k (cs ! n)" using k(2) n(1) by simp
  ultimately have "exec k (cs ! n) B1 (unat (of_nat ?s div 8 :: 64 word)) ?offset = Inl OutOfBounds"
    using exec_overrun [OF k(1)] short B1(2) B(2) by simp
  then have step: "main_pass_step (exec k) cs n B1 = Inl OutOfBounds"
    using n(1) by (simp add: main_pass_step_def Let_def preceding_length_eq)
  have "[0..<length cs] = [0..<n] @ n # [Suc n..<length cs]"
    using n(1) upt_add_eq_append [of 0 n "length cs - n"] by (simp add: upt_conv_Cons)
  then show ?thesis using B1(1) step by (simp add: main_pass_def foldE_append)
qed

lemma head_call_ok:
  assumes k: "ready k" "fits k (cs ! n)" and cs: "layout_ok cs" "total_rows cs < 2 ^ 57"
    and n: "n < length cs" and B: "total_rows cs \<le> 8 * length B"
    and s: "s = chunk_start cs n" "s mod 8 \<noteq> 0"
  shows "\<exists>B'. exec_remaining k (cs ! n) B (s div 8) 0 (ucast (of_nat s mod 8 :: 64 word)) = Inr B' \<and>
    restricts B B' (head_rows s) (\<lambda>r. chunk_rows (row k) cs ! r)"
proof -
  let ?l = "array_length (cs ! n)" and ?q = "ucast (of_nat s mod 8 :: 64 word) :: 8 word"
  let ?n = "8 - s mod 8"
  from cs(1) n s have fit: "?n \<le> ?l mod 256" by (simp add: layout_ok_def)
  with mod_less_eq_dividend [of ?l 256] have "?n \<le> ?l" by linarith
  have s57: "s < 2 ^ 57" "?l < 2 ^ 57" using cs(2) chunk_end_le [OF n] s(1) by simp_all
  note q = ucast_mod_8 [OF s57(1)]
  have "s mod 8 < 8" by simp
  moreover have "s div 8 < length B"
    using B chunk_end_le [OF n] s(1) \<open>?n \<le> ?l\<close> \<open>s mod 8 < 8\<close> by linarith
  moreover have "s = 8 * (s div 8) + unat ?q" unfolding q by simp
  ultimately obtain B' where B': "exec_remaining k (cs ! n) B (s div 8) 0 ?q = Inr B'"
    "restricts B B' {s ..< s + ?n} (\<lambda>r. row k (cs ! n) (r - s))"
    using exec_remaining_law [OF k, of ?n 0 ?q "s div 8" B s] remaining_len_head [OF s57 fit]
      \<open>?n \<le> ?l\<close> q by auto
  have "row k (cs ! n) (r - s) = chunk_rows (row k) cs ! r" if "r \<in> {s ..< s + ?n}" for r
    using nth_chunk_rows [OF n, of "r - s" "row k"] that \<open>?n \<le> ?l\<close> s(1) by auto
  from restricts_cong [OF B'(2) this] have "restricts B B' (head_rows s) (\<lambda>r. chunk_rows (row k) cs ! r)"
    using s(2) by (simp add: head_rows_def)
  with B'(1) show ?thesis by blast
qed

lemma tail_call_ok:
  assumes k: "ready k" "fits k (cs ! n)" and cs: "layout_ok cs" "total_rows cs < 2 ^ 57"
    and n: "n < length cs" and B: "total_rows cs \<le> 8 * length B"
    and t: "t = chunk_start cs n + array_length (cs ! n)" "t mod 8 \<noteq> 0"
  shows "\<exists>B'. exec_remaining k (cs ! n) B (t div 8)
      (of_nat (array_length (cs ! n)) - of_nat t mod 8) 0 = Inr B' \<and>
    restricts B B' (tail_rows t) (\<lambda>r. chunk_rows (row k) cs ! r)"
proof -
  let ?s = "chunk_start cs n" and ?l = "array_length (cs ! n)" and ?q = "t mod 8"
  let ?off = "of_nat ?l - of_nat t mod 8 :: 64 word"
  have t57: "t < 2 ^ 57" "?l < 2 ^ 57" using cs(2) chunk_end_le [OF n] t(1) by simp_all
  have "8 - ?s mod 8 \<le> ?l" if "?s mod 8 \<noteq> 0"
    using cs(1) n that mod_less_eq_dividend [of ?l 256] unfolding layout_ok_def by fastforce
  then have q: "?q \<le> ?l" using tail_in_chunk [of ?s ?l] t(1) by blast
  note off = tail_offset [OF t57 q] and len = remaining_len_tail [OF t57 q]
  have start: "8 * (t div 8) = t - ?q" by (simp add: minus_mod_eq_mult_div)
  have "?q < 8" by simp
  moreover have "t div 8 < length B" using B chunk_end_le [OF n] t start by linarith
  ultimately obtain B' where B': "exec_remaining k (cs ! n) B (t div 8) ?off 0 = Inr B'"
    "restricts B B' {t - ?q ..< t - ?q + ?q} (\<lambda>r. row k (cs ! n) (r - (t - ?q) + unat ?off))"
    using exec_remaining_law [OF k, of ?q ?off 0 "t div 8" B "t - ?q"] len off q start by auto
  have "row k (cs ! n) (r - (t - ?q) + unat ?off) = chunk_rows (row k) cs ! r"
    if "r \<in> {t - ?q ..< t - ?q + ?q}" for r
  proof -
    from that q t(1) have "r - (t - ?q) + (?l - ?q) = r - ?s" "?s \<le> r" "r - ?s < ?l" by auto
    then show ?thesis using nth_chunk_rows [OF n, of "r - ?s" "row k"] off by simp
  qed
  from restricts_cong [OF B'(2) this] have "restricts B B' (tail_rows t) (\<lambda>r. chunk_rows (row k) cs ! r)"
    by (simp add: tail_rows_def)
  with B'(1) show ?thesis by blast
qed

lemma remaining_pass_step_ok:
  assumes k: "ready k" "\<forall>a \<in> set cs. fits k a" and cs: "layout_ok cs" "total_rows cs < 2 ^ 57"
    and n: "n < length cs" and B: "total_rows cs \<le> 8 * length B"
  defines "s \<equiv> chunk_start cs n" and "t \<equiv> chunk_start cs (Suc n)"
  shows "\<exists>B'. remaining_pass_step (exec_remaining k) cs n (B, of_nat s) = Inr (B', of_nat t) \<and>
    restricts B B' (head_rows s \<union> tail_rows t) (\<lambda>r. chunk_rows (row k) cs ! r)"
proof -
  let ?P = "\<lambda>r. chunk_rows (row k) cs ! r" and ?a = "cs ! n"
  have fits: "fits k ?a" using k(2) n by simp
  have t: "t = s + array_length ?a" using n by (simp add: s_def t_def)
  have st: "s < 2 ^ 57" "t < 2 ^ 57"
    using cs(2) chunk_end_le [OF n] by (simp_all add: s_def t)
  obtain B1 where B1: "(if (of_nat s mod 8 :: 64 word) \<noteq> 0
      then exec_remaining k ?a B (unat (of_nat s div 8 :: 64 word)) 0 (ucast (of_nat s mod 8 :: 64 word))
      else Inr B) = Inr B1" "restricts B B1 (head_rows s) ?P"
  proof (cases "s mod 8 = 0")
    case True
    then show ?thesis
      using that [of B] mod_8_nonzero [OF st(1)] by (simp add: head_rows_def restricts_refl)
  next
    case False
    with head_call_ok [OF k(1) fits cs n B s_def [THEN meta_eq_to_obj_eq]] that
      mod_8_nonzero [OF st(1)] unat_mod_8(2) [OF st(1)] show ?thesis by auto
  qed
  have "total_rows cs \<le> 8 * length B1" using B restricts_length [OF B1(2)] by simp
  note tail = tail_call_ok [OF k(1) fits cs n this t [unfolded s_def]]
  obtain B2 where B2: "(if (of_nat t mod 8 :: 64 word) \<noteq> 0
      then exec_remaining k ?a B1 (unat (of_nat t div 8 :: 64 word))
        (of_nat (array_length ?a) - of_nat t mod 8) 0
      else Inr B1) = Inr B2" "restricts B1 B2 (tail_rows t) ?P"
  proof (cases "t mod 8 = 0")
    case True
    then show ?thesis
      using that [of B1] mod_8_nonzero [OF st(2)] by (simp add: tail_rows_def restricts_refl)
  next
    case False
    with tail that mod_8_nonzero [OF st(2)] unat_mod_8(2) [OF st(2)] show ?thesis by auto
  qed
  have "remaining_pass_step (exec_remaining k) cs n (B, of_nat s) = Inr (B2, of_nat t)"
    using B1(1) B2(1) by (simp only: remaining_pass_step_def Let_def prod.case bindE.simps
        t [THEN arg_cong [where f = of_nat], symmetric, unfolded of_nat_add])
  with restricts_trans [OF B1(2) B2(2)] show ?thesis by blast
qed

lemma remaining_pass_fold_ok:
  assumes k: "ready k" "\<forall>a \<in> set cs. fits k a" and cs: "layout_ok cs" "total_rows cs < 2 ^ 57"
    and B: "total_rows cs \<le> 8 * length B" and n: "n \<le> length cs"
  shows "\<exists>B'. foldE (remaining_pass_step (exec_remaining k) cs) [0..<n] (B, 0) =
      Inr (B', of_nat (chunk_start cs n)) \<and>
    restricts B B' (\<Union>i < n. head_rows (chunk_start cs i) \<union> tail_rows (chunk_start cs (Suc i)))
      (\<lambda>r. chunk_rows (row k) cs ! r)"
  using n
proof (induction n)
  case 0
  then show ?case by (simp add: restricts_refl)
next
  case (Suc n)
  then obtain B1 where B1: "foldE (remaining_pass_step (exec_remaining k) cs) [0..<n] (B, 0) =
      Inr (B1, of_nat (chunk_start cs n))"
    "restricts B B1 (\<Union>i < n. head_rows (chunk_start cs i) \<union> tail_rows (chunk_start cs (Suc i)))
      (\<lambda>r. chunk_rows (row k) cs ! r)" by auto
  from Suc.prems have n: "n < length cs" by simp
  have "total_rows cs \<le> 8 * length B1" using B restricts_length [OF B1(2)] by simp
  from remaining_pass_step_ok [OF k cs n this] obtain B2 where
    B2: "remaining_pass_step (exec_remaining k) cs n (B1, of_nat (chunk_start cs n)) =
      Inr (B2, of_nat (chunk_start cs (Suc n)))"
    "restricts B1 B2 (head_rows (chunk_start cs n) \<union> tail_rows (chunk_start cs (Suc n)))
      (\<lambda>r. chunk_rows (row k) cs ! r)" by blast
  have "(\<Union>i < Suc n. head_rows (chunk_start cs i) \<union> tail_rows (chunk_start cs (Suc i))) =
      (\<Union>i < n. head_rows (chunk_start cs i) \<union> tail_rows (chunk_start cs (Suc i))) \<union>
      (head_rows (chunk_start cs n) \<union> tail_rows (chunk_start cs (Suc n)))"
    by (simp add: lessThan_Suc Un_commute)
  with restricts_trans [OF B1(2) B2(2)] B1(1) B2(1) show ?case
    by (simp add: foldE_append)
qed

text \<open>Every row of the column is looked at.\<close>

lemma passes_cover:
  assumes "layout_ok cs"
  shows "(\<Union>i < length cs. main_rows (chunk_start cs i) (array_length (cs ! i))) \<union>
      (\<Union>i < length cs. head_rows (chunk_start cs i) \<union> tail_rows (chunk_start cs (Suc i))) =
    {0 ..< total_rows cs}"
proof -
  have cover: "main_rows (chunk_start cs i) (array_length (cs ! i)) \<union>
      (head_rows (chunk_start cs i) \<union> tail_rows (chunk_start cs (Suc i))) =
      {chunk_start cs i ..< chunk_start cs (Suc i)}" if "i < length cs" for i
  proof -
    have "8 - chunk_start cs i mod 8 \<le> array_length (cs ! i)" if "chunk_start cs i mod 8 \<noteq> 0"
      using assms that \<open>i < length cs\<close> mod_less_eq_dividend [of "array_length (cs ! i)" 256]
      unfolding layout_ok_def by fastforce
    with chunk_rows_cover [of "chunk_start cs i" "array_length (cs ! i)"] that show ?thesis by simp
  qed
  have "(\<Union>i < n. {chunk_start cs i ..< chunk_start cs (Suc i)}) = {0 ..< chunk_start cs n}" for n
  proof (induction n)
    case (Suc n)
    then show ?case
      using chunk_start_mono [of n "Suc n" cs]
      by (simp add: lessThan_Suc ivl_disj_un_two(3) Un_commute del: chunk_start_Suc)
  qed simp
  then have "(\<Union>i < length cs. main_rows (chunk_start cs i) (array_length (cs ! i)) \<union>
      (head_rows (chunk_start cs i) \<union> tail_rows (chunk_start cs (Suc i)))) = {0 ..< total_rows cs}"
    using cover by (simp add: chunk_start_total del: chunk_start_Suc)
  then show ?thesis by (simp add: UN_Un_distrib Un_commute Un_left_commute)
qed

text \<open>The two passes together filter the column.\<close>

lemma filter_column_ok:
  assumes k: "ready k" "\<forall>a \<in> set cs. fits k a" and cs: "layout_ok cs" "total_rows cs < 2 ^ 57"
    and B: "total_rows cs \<le> 8 * length B"
  obtains B1 B2 where "main_pass (exec k) cs B = Inr B1"
    and "remaining_pass (exec_remaining k) cs B1 = Inr B2"
    and "restricts B B2 {0 ..< total_rows cs} (\<lambda>r. chunk_rows (row k) cs ! r)"
proof -
  have "\<forall>i < length cs. head_fits cs i" using layout_head_fits [OF cs(1)] by blast
  from main_pass_ok [OF k cs(2) B order_refl this] obtain B1 where B1: "main_pass (exec k) cs B = Inr B1"
    "restricts B B1 (\<Union>i < length cs. main_rows (chunk_start cs i) (array_length (cs ! i)))
      (\<lambda>r. chunk_rows (row k) cs ! r)"
    by (auto simp: main_pass_def)
  have "total_rows cs \<le> 8 * length B1" using B restricts_length [OF B1(2)] by simp
  from remaining_pass_fold_ok [OF k cs this order_refl] obtain B2 where
    B2: "remaining_pass (exec_remaining k) cs B1 = Inr B2"
    "restricts B1 B2 (\<Union>i < length cs. head_rows (chunk_start cs i) \<union> tail_rows (chunk_start cs (Suc i)))
      (\<lambda>r. chunk_rows (row k) cs ! r)"
    by (auto simp: remaining_pass_def)
  from restricts_trans [OF B1(2) B2(2)] have "restricts B B2 {0 ..< total_rows cs}
      (\<lambda>r. chunk_rows (row k) cs ! r)"
    unfolding passes_cover [OF cs(1)] .
  with B1(1) B2(1) show thesis by (rule that)
qed

end

end
