(* ===== verification/Execution_Context.thy ===== *)
theory Execution_Context
  imports Third_Party
begin

text \<open>
  \<^verbatim>\<open>pefa/execution/execution_context.h\<close> and \<^verbatim>\<open>.cpp\<close>: the table a plan is executed on, with
  the metadata record the constructor builds for it.
\<close>

text \<open>
  \<^verbatim>\<open>NullChunkMetadata\<close>, and \<^verbatim>\<open>TypedChunkMetadata<T>\<close> for the \<open>T\<close> of an Arrow type. Its
  members \<open>min\<close> and \<open>max\<close> are never set.
\<close>

datatype chunk_metadata = NullChunkMetadata | TypedChunkMetadata type_id

record column_metadata =
  metadata_chunks :: "chunk_metadata list"

record table_metadata =
  metadata_columns :: "column_metadata list"
  filter_bitmap :: "byte list option"

record execution_context =
  ctx_table :: table
  ctx_metadata :: table_metadata

definition create_empty_chunk_metadata :: "data_type \<Rightarrow> chunk_metadata result" where
  "create_empty_chunk_metadata typ =
     (if id_of typ \<in> {UINT8, INT8, UINT16, INT16, UINT32, INT32, UINT64, INT64, FLOAT, DOUBLE,
        STRING, BOOL}
      then Inr (TypedChunkMetadata (id_of typ))
      else if id_of typ = NA then Inr NullChunkMetadata
      else throw_not_implemented (to_string typ @ '' type does not supported yet''))"

definition create_column_metadata :: "chunked_array \<Rightarrow> column_metadata result" where
  "create_column_metadata col =
     bindE (mapE (\<lambda>_. create_empty_chunk_metadata (chunked_type col)) (chunks col))
       (\<lambda>ms. Inr \<lparr>metadata_chunks = ms\<rparr>)"

text \<open>The constructor \<^verbatim>\<open>ExecutionContext(std::shared_ptr<arrow::Table>)\<close>.\<close>

definition new_context :: "table \<Rightarrow> execution_context result" where
  "new_context t =
     bindE (mapE create_column_metadata (columns t)) (\<lambda>ms. Inr
       \<lparr>ctx_table = t, ctx_metadata = \<lparr>metadata_columns = ms, filter_bitmap = None\<rparr>\<rparr>)"

section \<open>When a context can be built\<close>

definition supported_type :: "type_id \<Rightarrow> bool" where
  "supported_type t \<longleftrightarrow> t \<in> {UINT8, INT8, UINT16, INT16, UINT32, INT32, UINT64, INT64, FLOAT,
     DOUBLE, STRING, BOOL, NA}"

definition column_supported :: "chunked_array \<Rightarrow> bool" where
  "column_supported c \<longleftrightarrow> chunks c = [] \<or> supported_type (id_of (chunked_type c))"

definition table_supported :: "table \<Rightarrow> bool" where
  "table_supported t \<longleftrightarrow> (\<forall>c \<in> set (columns t). column_supported c)"

lemma create_empty_chunk_metadata_ok:
  "supported_type (id_of typ) \<Longrightarrow> \<exists>m. create_empty_chunk_metadata typ = Inr m"
  by (auto simp: create_empty_chunk_metadata_def supported_type_def)

lemma create_empty_chunk_metadata_error:
  "\<not> supported_type (id_of typ) \<Longrightarrow> create_empty_chunk_metadata typ =
     throw_not_implemented (to_string typ @ '' type does not supported yet'')"
  by (auto simp: create_empty_chunk_metadata_def supported_type_def)

lemma create_column_metadata_ok:
  assumes "column_supported c"
  shows "\<exists>m. create_column_metadata c = Inr m \<and> length (metadata_chunks m) = length (chunks c)"
proof (cases "chunks c = []")
  case True
  then show ?thesis by (simp add: create_column_metadata_def)
next
  case False
  with assms obtain m where m: "create_empty_chunk_metadata (chunked_type c) = Inr m"
    using create_empty_chunk_metadata_ok by (auto simp: column_supported_def)
  then have "mapE (\<lambda>_. create_empty_chunk_metadata (chunked_type c)) (chunks c) =
      Inr (map (\<lambda>_. m) (chunks c))"
    by (intro mapE_all_Inr)
  then show ?thesis by (simp add: create_column_metadata_def)
qed

lemma create_column_metadata_error:
  assumes "\<not> column_supported c"
  shows "create_column_metadata c =
    throw_not_implemented (to_string (chunked_type c) @ '' type does not supported yet'')"
  using assms
  by (cases "chunks c")
    (auto simp: column_supported_def create_column_metadata_def create_empty_chunk_metadata_error)

text \<open>The metadata of a fresh context has the shape of the table and no bitmap.\<close>

lemma new_context_ok:
  assumes "table_supported t"
  obtains ctx where "new_context t = Inr ctx" and "ctx_table ctx = t"
    and "filter_bitmap (ctx_metadata ctx) = None"
    and "map (length \<circ> metadata_chunks) (metadata_columns (ctx_metadata ctx)) =
      map (length \<circ> chunks) (columns t)"
proof -
  have "\<forall>c \<in> set (columns t). \<exists>m. create_column_metadata c = Inr m \<and>
      length (metadata_chunks m) = length (chunks c)"
    using assms create_column_metadata_ok by (auto simp: table_supported_def)
  then obtain g where g: "\<forall>c \<in> set (columns t). create_column_metadata c = Inr (g c) \<and>
      length (metadata_chunks (g c)) = length (chunks c)"
    by metis
  then have "mapE create_column_metadata (columns t) = Inr (map g (columns t))"
    by (intro mapE_all_Inr) auto
  with g show thesis by (intro that) (auto simp: new_context_def)
qed

lemma new_context_iff: "(\<exists>ctx. new_context t = Inr ctx) \<longleftrightarrow> table_supported t"
proof
  assume "\<exists>ctx. new_context t = Inr ctx"
  then obtain ms where "mapE create_column_metadata (columns t) = Inr ms"
    by (auto simp: new_context_def bindE_eq_Inr)
  then have "\<forall>c \<in> set (columns t). \<exists>m. create_column_metadata c = Inr m"
    unfolding mapE_eq_Inr by (auto simp: list_all2_conv_all_nth in_set_conv_nth)
  then show "table_supported t"
    unfolding table_supported_def using create_column_metadata_error by fastforce
next
  assume "table_supported t"
  then show "\<exists>ctx. new_context t = Inr ctx" by (rule new_context_ok) blast
qed

lemma new_context_table: "new_context t = Inr ctx \<Longrightarrow> ctx_table ctx = t"
  by (auto simp: new_context_def bindE_eq_Inr)

end
