(* ===== verification/Filter_Executor.thy ===== *)
theory Filter_Executor
  imports Chunk_Passes Execution_Context
begin

text \<open>
  \<^verbatim>\<open>FilterExprExecutor\<close> and \<^verbatim>\<open>generate_filter_bitmap\<close> (\<^verbatim>\<open>pefa/execution/execution.cpp\<close>): an
  expression over a table is evaluated to a bitmap. Buffers are shared and changed in place, so
  they live in a store and the visitor's \<open>m_buffer\<close> is an address in it.
\<close>

section \<open>The visitor\<close>

record executor_state =
  buffers :: "byte list list"
  m_buffer :: "nat option"
  the_jit :: jit

definition initial_executor :: "jit \<Rightarrow> executor_state" where
  "initial_executor j = \<lparr>buffers = [], m_buffer = None, the_jit = j\<rparr>"

definition GetColumnByName :: "third_party \<Rightarrow> table \<Rightarrow> string \<Rightarrow> chunked_array option" where
  "GetColumnByName E t name =
     Option.bind (get_field_index E (map field_name (schema t)) name)
       (\<lambda>i. if i < length (columns t) then Some (columns t ! i) else None)"

definition GetFieldByName :: "third_party \<Rightarrow> table \<Rightarrow> string \<Rightarrow> field option" where
  "GetFieldByName E t name =
     Option.bind (get_field_index E (map field_name (schema t)) name)
       (\<lambda>i. if i < length (schema t) then Some (schema t ! i) else None)"

text \<open>One round of the loop that joins two bitmaps; the two addresses may be equal.\<close>

definition combine_byte :: "predicate_op \<Rightarrow> nat \<Rightarrow> nat \<Rightarrow> nat \<Rightarrow> byte list list \<Rightarrow> byte list list result" where
  "combine_byte op lhs rhs i bufs =
     (if i < length (bufs ! lhs) \<and> i < length (bufs ! rhs)
      then Inr (bufs[lhs := (bufs ! lhs)[i :=
             (case op of Op_AND \<Rightarrow> bufs ! lhs ! i AND bufs ! rhs ! i
                       | Op_OR \<Rightarrow> bufs ! lhs ! i OR bufs ! rhs ! i)]])
      else Inl OutOfBounds)"

definition execute_predicate :: "(executor_state \<Rightarrow> executor_state result) \<Rightarrow>
    (executor_state \<Rightarrow> executor_state result) \<Rightarrow> predicate_op \<Rightarrow>
    executor_state \<Rightarrow> executor_state result" where
  "execute_predicate visit_lhs visit_rhs op s =
     bindE (visit_lhs s) (\<lambda>s1. let lhs_buf = m_buffer s1 in
     bindE (visit_rhs s1) (\<lambda>s2. let rhs_buf = m_buffer s2 in
     bindE (deref lhs_buf) (\<lambda>l. bindE (deref rhs_buf) (\<lambda>r.
     bindE (foldE (combine_byte op l r) [0..<length (buffers s2 ! l)] (buffers s2)) (\<lambda>bufs.
       Inr (s2\<lparr>buffers := bufs, m_buffer := lhs_buf\<rparr>))))))"

definition execute_compare :: "third_party \<Rightarrow> table \<Rightarrow>
    (executor_state \<Rightarrow> executor_state result) \<Rightarrow> (executor_state \<Rightarrow> executor_state result) \<Rightarrow>
    column_ref \<Rightarrow> literal_expr \<Rightarrow> compare_op \<Rightarrow> executor_state \<Rightarrow> executor_state result" where
  "execute_compare E t visit_lhs visit_rhs lhs rhs op s =
     (let buffer = replicate (length (allocate_bitmap E (num_rows t))) 255;
          field_ptr = GetFieldByName E t (column_name lhs);
          column_ptr = GetColumnByName E t (column_name lhs) in
      bindE (deref field_ptr) (\<lambda>fld.
      bindE (compile_kernel E (create_cpu fld (EBool (CompareExpr lhs rhs op))) (the_jit s)) (\<lambda>(kernel, j).
      bindE (deref column_ptr) (\<lambda>column.
      bindE (main_pass (execute_kernel E kernel) (chunks column) buffer) (\<lambda>buffer1.
      bindE (remaining_pass (execute_remaining_kernel E kernel) (chunks column) buffer1) (\<lambda>buffer2.
        Inr (s\<lparr>buffers := buffers s @ [buffer2], m_buffer := Some (length (buffers s)),
               the_jit := destroy_kernel kernel j\<rparr>)))))))"

text \<open>The methods for columns, literals and constants are the inherited ones.\<close>

definition filter_expr_executor :: "third_party \<Rightarrow> table \<Rightarrow> executor_state expr_visitor" where
  "filter_expr_executor E t =
     default_visitor\<lparr>visit_predicate := execute_predicate, visit_compare := execute_compare E t\<rparr>"

definition executor_result :: "executor_state \<Rightarrow> byte list option" where
  "executor_result s = map_option ((!) (buffers s)) (m_buffer s)"

section \<open>generate_filter_bitmap\<close>

definition generate_filter_bitmap :: "third_party \<Rightarrow> execution_context \<Rightarrow> bool_expr \<Rightarrow> jit \<Rightarrow>
    (execution_context \<times> jit) result" where
  "generate_filter_bitmap E ctx e j =
     (let t = ctx_table ctx in
      if columns t = [] \<or> chunks (columns t ! 0) = []
      then bindE (new_context t) (\<lambda>res. Inr (res, j))
      else
        bindE (accept (filter_expr_executor E t) e (initial_executor j)) (\<lambda>executor.
        bindE (new_context t) (\<lambda>res.
          Inr (res\<lparr>ctx_metadata := (ctx_metadata res)\<lparr>filter_bitmap := executor_result executor\<rparr>\<rparr>,
               the_jit executor))))"

section \<open>Joining bitmaps\<close>

lemma combine_bytes:
  assumes "l < length bufs" and "r < length bufs" and "l \<noteq> r"
    and "length (bufs ! l) = length (bufs ! r)" and "n \<le> length (bufs ! l)"
  shows "foldE (combine_byte op l r) [0..<n] bufs =
    Inr (bufs[l := map (\<lambda>i. if i < n then (case op of Op_AND \<Rightarrow> bufs ! l ! i AND bufs ! r ! i
                                    | Op_OR \<Rightarrow> bufs ! l ! i OR bufs ! r ! i) else bufs ! l ! i)
      [0..<length (bufs ! l)]])"
  using assms(5)
proof (induction n)
  case 0
  have "map (\<lambda>i. bufs ! l ! i) [0..<length (bufs ! l)] = bufs ! l" by (rule map_nth)
  then show ?case by simp
next
  case (Suc n)
  let ?f = "\<lambda>n i. if i < n then (case op of Op_AND \<Rightarrow> bufs ! l ! i AND bufs ! r ! i
      | Op_OR \<Rightarrow> bufs ! l ! i OR bufs ! r ! i) else bufs ! l ! i"
  let ?bufs = "bufs[l := map (?f n) [0..<length (bufs ! l)]]"
  from Suc have IH: "foldE (combine_byte op l r) [0..<n] bufs = Inr ?bufs" by simp
  have "(map (?f n) [0..<length (bufs ! l)])[n := ?f (Suc n) n] = map (?f (Suc n)) [0..<length (bufs ! l)]"
    using Suc.prems by (intro nth_equalityI; cases op) (auto simp: nth_list_update)
  with assms Suc.prems have "combine_byte op l r n ?bufs =
      Inr (bufs[l := map (?f (Suc n)) [0..<length (bufs ! l)]])"
    by (cases op) (simp_all add: combine_byte_def)
  with IH show ?case by (simp add: foldE_append)
qed

definition join_bitmaps :: "predicate_op \<Rightarrow> byte list \<Rightarrow> byte list \<Rightarrow> byte list" where
  "join_bitmaps op L R =
     map (\<lambda>i. case op of Op_AND \<Rightarrow> L ! i AND R ! i | Op_OR \<Rightarrow> L ! i OR R ! i) [0..<length L]"

lemma combine_all:
  assumes "l < length bufs" and "r < length bufs" and "l \<noteq> r"
    and "length (bufs ! l) = length (bufs ! r)"
  shows "foldE (combine_byte op l r) [0..<length (bufs ! l)] bufs =
    Inr (bufs[l := join_bitmaps op (bufs ! l) (bufs ! r)])"
proof -
  have "map (\<lambda>i. if i < length (bufs ! l) then (case op of Op_AND \<Rightarrow> bufs ! l ! i AND bufs ! r ! i
      | Op_OR \<Rightarrow> bufs ! l ! i OR bufs ! r ! i) else bufs ! l ! i) [0..<length (bufs ! l)] =
      join_bitmaps op (bufs ! l) (bufs ! r)"
    unfolding join_bitmaps_def by (rule map_cong) auto
  with combine_bytes [OF assms order_refl] show ?thesis by simp
qed

text \<open>The two addresses may be equal.\<close>

lemma combine_same:
  "a < length bufs \<Longrightarrow> n \<le> length (bufs ! a) \<Longrightarrow> foldE (combine_byte op a a) [0..<n] bufs = Inr bufs"
proof (induction n)
  case (Suc n)
  have "combine_byte op a a n bufs = Inr bufs" using Suc.prems by (cases op) (simp_all add: combine_byte_def)
  with Suc show ?case by (simp add: foldE_append)
qed simp

lemma length_join_bitmaps [simp]: "length (join_bitmaps op L R) = length L"
  by (simp add: join_bitmaps_def)

lemma bm_bit_join:
  assumes "r < 8 * length L"
  shows "bm_bit (join_bitmaps op L R) r \<longleftrightarrow>
    (case op of Op_AND \<Rightarrow> bm_bit L r \<and> bm_bit R r | Op_OR \<Rightarrow> bm_bit L r \<or> bm_bit R r)"
  using assms
  by (cases op) (auto simp: bm_bit_def join_bitmaps_def bit_and_iff bit_or_iff
      less_mult_imp_div_less mult.commute)

section \<open>What the visitor computes\<close>

text \<open>
  The value of a comparison in row \<open>r\<close> of a table: the element in that row of the concatenated
  chunks, compared at the column's type.
\<close>

definition compare_row :: "third_party \<Rightarrow> table \<Rightarrow> nat \<Rightarrow> column_ref \<Rightarrow> literal_expr \<Rightarrow> compare_op \<Rightarrow> bool" where
  "compare_row E t r c x op =
     (case (GetFieldByName E t (column_name c), GetColumnByName E t (column_name c)) of
        (Some fld, Some column) \<Rightarrow>
          element_compare E (field_type fld)
            (chunk_rows (raw_element (field_type fld)) (chunks column) ! r) c x op
      | _ \<Rightarrow> False)"

definition row_holds :: "third_party \<Rightarrow> table \<Rightarrow> bool_expr \<Rightarrow> nat \<Rightarrow> bool" where
  "row_holds E t e r = holds (compare_row E t r) e"

text \<open>The comparisons the executor can evaluate on a table.\<close>

definition column_ok :: "table \<Rightarrow> data_type \<Rightarrow> chunked_array \<Rightarrow> bool" where
  "column_ok t typ column \<longleftrightarrow>
     layout_ok (chunks column) \<and> total_rows (chunks column) = num_rows t \<and>
     (\<forall>a \<in> set (chunks column). array_fits typ a)"

definition comparison_ok :: "third_party \<Rightarrow> table \<Rightarrow> column_ref \<Rightarrow> literal_expr \<Rightarrow> bool" where
  "comparison_ok E t c x \<longleftrightarrow>
     (case (GetFieldByName E t (column_name c), GetColumnByName E t (column_name c)) of
        (Some fld, Some column) \<Rightarrow>
          numeric_case (id_of (field_type fld)) \<and>
          \<not> isl (const_from_variant E (field_type fld) (literal_value x)) \<and>
          column_ok t (field_type fld) column
      | _ \<Rightarrow> False)"

definition evaluable :: "third_party \<Rightarrow> table \<Rightarrow> bool_expr \<Rightarrow> bool" where
  "evaluable E t e \<longleftrightarrow>
     num_rows t < 2 ^ 57 \<and> const_free e \<and>
     (\<forall>(c, x, _) \<in> set (comparisons e). comparison_ok E t c x)"

text \<open>No live module of the session exports one of the symbols the kernels of \<open>e\<close> look up.\<close>

definition symbols_free :: "third_party \<Rightarrow> jit \<Rightarrow> bool_expr \<Rightarrow> bool" where
  "symbols_free E j e \<longleftrightarrow>
     (\<forall>name \<in> set (expr_columns e). names_free E j name)"

definition bitmap_of :: "table \<Rightarrow> (nat \<Rightarrow> bool) \<Rightarrow> byte list \<Rightarrow> bool" where
  "bitmap_of t P B \<longleftrightarrow>
     length B = (num_rows t + 7) div 8 \<and> (\<forall>r < num_rows t. bm_bit B r \<longleftrightarrow> P r)"

text \<open>
  \<open>evaluates t s s' P\<close>: the visit added buffers to the store, left the ones that were there
  alone, points \<open>m_buffer\<close> at a new one whose bits are \<open>P\<close>, and left no module behind.
\<close>

definition evaluates :: "third_party \<Rightarrow> table \<Rightarrow> executor_state \<Rightarrow> executor_state \<Rightarrow> (nat \<Rightarrow> bool) \<Rightarrow> bool" where
  "evaluates E t s s' P \<longleftrightarrow>
     (\<exists>bs a. buffers s' = buffers s @ bs \<and> m_buffer s' = Some a \<and>
        length (buffers s) \<le> a \<and> a < length (buffers s') \<and> bitmap_of t P (buffers s' ! a)) \<and>
     layer_modules (the_jit s') = layer_modules (the_jit s) \<and>
     m_data_layout (the_jit s') = m_data_layout (the_jit s) \<and> jit_inv E (the_jit s')"

lemma chunk_rows_map: "chunk_rows (\<lambda>a i. f (g a i)) cs = map f (chunk_rows g cs)"
  by (simp add: chunk_rows_def map_concat comp_def)

lemma GetFieldByName_name:
  assumes "third_party_ok E" and "GetFieldByName E t name = Some fld"
  shows "field_name fld = name"
  using assms third_party_okD(3) [OF assms(1)]
  by (auto simp: GetFieldByName_def bind_eq_Some_conv split: if_splits)

lemma all_ones_byte: "(255 :: byte) = - 1"
  by simp

text \<open>The two passes of a compiled comparison over its column.\<close>

lemma compare_bitmap:
  assumes E: "third_party_ok E" and k: "kernel_ready (E, k)" "k_field k = fld" "k_expr k = EBool (CompareExpr c x op)"
    and t: "GetFieldByName E t (column_name c) = Some fld" "GetColumnByName E t (column_name c) = Some column"
      "column_ok t (field_type fld) column" "num_rows t < 2 ^ 57"
    and B: "B = replicate (length (allocate_bitmap E (num_rows t))) 255"
  obtains B1 B2 where "main_pass (execute_kernel E k) (chunks column) B = Inr B1"
    and "remaining_pass (execute_remaining_kernel E k) (chunks column) B1 = Inr B2"
    and "bitmap_of t (\<lambda>r. compare_row E t r c x op) B2"
proof -
  let ?cs = "chunks column"
  have len: "length B = (num_rows t + 7) div 8" by (simp add: B third_party_okD(1) [OF E])
  then have bits: "num_rows t \<le> 8 * length B" by simp
  have rows: "total_rows ?cs = num_rows t" using t(3) by (simp add: column_ok_def)
  obtain B1 B2 where pass: "main_pass (execute_kernel E k) ?cs B = Inr B1"
    "remaining_pass (execute_remaining_kernel E k) ?cs B1 = Inr B2"
    "restricts B B2 {0 ..< num_rows t} (\<lambda>r. chunk_rows (kernel_row (E, k)) ?cs ! r)"
    using fk.filter_column_ok [of "(E, k)" ?cs B] k(1,2) t(3,4) rows bits
    by (auto simp: column_ok_def kernel_fits_def)
  have "kernel_row (E, k) = (\<lambda>a i. element_compare E (field_type fld) (raw_element (field_type fld) a i) c x op)"
    by (simp add: kernel_row_def k element_holds_def fun_eq_iff)
  then have "chunk_rows (kernel_row (E, k)) ?cs ! r = compare_row E t r c x op" if "r < num_rows t" for r
    using that t(1,2) rows
      chunk_rows_map [of "\<lambda>v. element_compare E (field_type fld) v c x op"
        "raw_element (field_type fld)" ?cs]
    by (simp add: compare_row_def)
  moreover have "bm_bit B r" if "r < num_rows t" for r
    using that bits bm_bit_all_ones [of r "length B"] by (simp add: B all_ones_byte)
  ultimately have "bitmap_of t (\<lambda>r. compare_row E t r c x op) B2"
    using restricts_bit [OF pass(3)] restricts_length [OF pass(3)] len bits by (simp add: bitmap_of_def)
  with pass(1,2) show thesis by (rule that)
qed

text \<open>One comparison.\<close>

lemma execute_compare_ok:
  assumes E: "third_party_ok E" and c: "comparison_ok E t c x" and t: "num_rows t < 2 ^ 57"
    and free: "symbols_free E (the_jit s) (CompareExpr c x op)" and inv: "jit_inv E (the_jit s)"
  obtains s' where "execute_compare E t vl vr c x op s = Inr s'"
    and "evaluates E t s s' (\<lambda>r. compare_row E t r c x op)"
proof -
  obtain fld column where fld: "GetFieldByName E t (column_name c) = Some fld"
    and column: "GetColumnByName E t (column_name c) = Some column"
    and num: "numeric_case (id_of (field_type fld))"
    and lit: "\<not> isl (const_from_variant E (field_type fld) (literal_value x))"
    and ok: "column_ok t (field_type fld) column"
    using c by (auto simp: comparison_ok_def split: option.splits)
  have name: "field_name fld = column_name c" by (rule GetFieldByName_name [OF E fld])
  let ?e = "CompareExpr c x op"
  have comp: "compilable E fld ?e" using num lit name by (simp add: compilable_def)
  obtain k M key j' where k: "compile_kernel E (create_cpu fld (EBool ?e)) (the_jit s) = Inr (k, j')"
    "kernel_ready (E, k)" "k_field k = fld" "k_expr k = EBool ?e"
    "addModule E M (the_jit s) = Inr (key, j')" "k_module_key k = key"
    by (rule compile_kernel_ready [OF E comp inv])
      (use free name in \<open>auto simp: symbols_free_def expr_columns_def\<close>)
  define B where "B = replicate (length (allocate_bitmap E (num_rows t))) (255 :: byte)"
  obtain B1 B2 where pass: "main_pass (execute_kernel E k) (chunks column) B = Inr B1"
    "remaining_pass (execute_remaining_kernel E k) (chunks column) B1 = Inr B2"
    "bitmap_of t (\<lambda>r. compare_row E t r c x op) B2"
    by (rule compare_bitmap [OF E k(2-4) fld column ok t B_def])
  let ?s' = "s\<lparr>buffers := buffers s @ [B2], m_buffer := Some (length (buffers s)), the_jit := destroy_kernel k j'\<rparr>"
  have "jit_inv E (destroy_kernel k j')"
    and "layer_modules (destroy_kernel k j') = layer_modules (the_jit s)"
    and "m_data_layout (destroy_kernel k j') = m_data_layout (the_jit s)"
    using addModule_inv [OF E inv k(5)] removeModule_inv remove_addModule [OF E inv k(5)] k(2,6)
      addModule_data_layout [OF k(5)]
    by (auto simp: destroy_kernel_def kernel_ready_def Let_def)
  then have "evaluates E t s ?s' (\<lambda>r. compare_row E t r c x op)"
    using pass(3) by (simp add: evaluates_def)
  moreover have "execute_compare E t vl vr c x op s = Inr ?s'"
    using fld column k(1) pass(1,2) by (simp add: execute_compare_def B_def Let_def)
  ultimately show thesis by (rule that [rotated])
qed

text \<open>A conjunction or disjunction: the two bitmaps live at different addresses.\<close>

lemma execute_predicate_ok:
  assumes l: "vl s = Inr s1" "evaluates E t s s1 P" and r: "vr s1 = Inr s2" "evaluates E t s1 s2 Q"
  obtains s' where "execute_predicate vl vr op s = Inr s'"
    and "evaluates E t s s' (\<lambda>r. case op of Op_AND \<Rightarrow> P r \<and> Q r | Op_OR \<Rightarrow> P r \<or> Q r)"
proof -
  from l(2) obtain bs1 a1 where 1: "buffers s1 = buffers s @ bs1" "m_buffer s1 = Some a1"
    "length (buffers s) \<le> a1" "a1 < length (buffers s1)" "bitmap_of t P (buffers s1 ! a1)"
    by (auto simp: evaluates_def)
  from r(2) obtain bs2 a2 where 2: "buffers s2 = buffers s1 @ bs2" "m_buffer s2 = Some a2"
    "length (buffers s1) \<le> a2" "a2 < length (buffers s2)" "bitmap_of t Q (buffers s2 ! a2)"
    by (auto simp: evaluates_def)
  define L R where "L = buffers s2 ! a1" and "R = buffers s2 ! a2"
  have L: "bitmap_of t P L" using 1(4,5) 2(1) by (simp add: L_def nth_append)
  have R: "bitmap_of t Q R" using 2(5) by (simp add: R_def)
  have len: "length L = length R" using L R by (simp add: bitmap_of_def)
  define s' where "s' = s2\<lparr>buffers := (buffers s2)[a1 := join_bitmaps op L R], m_buffer := Some a1\<rparr>"
  have "foldE (combine_byte op a1 a2) [0..<length (buffers s2 ! a1)] (buffers s2) =
      Inr ((buffers s2)[a1 := join_bitmaps op L R])"
    unfolding L_def R_def by (rule combine_all) (use 1(4) 2 len in \<open>auto simp: L_def R_def\<close>)
  then have "execute_predicate vl vr op s = Inr s'"
    using l(1) r(1) 1(2) 2(2) by (simp add: execute_predicate_def s'_def)
  moreover have "bitmap_of t (\<lambda>r. case op of Op_AND \<Rightarrow> P r \<and> Q r | Op_OR \<Rightarrow> P r \<or> Q r) (join_bitmaps op L R)"
    using L R bm_bit_join [of _ L op R] by (cases op) (auto simp: bitmap_of_def)
  moreover have "buffers s' = buffers s @ (bs1 @ bs2)[a1 - length (buffers s) := join_bitmaps op L R]"
    using 1(1,3) 2(1) by (simp add: s'_def list_update_append)
  moreover have "m_buffer s' = Some a1" "a1 < length (buffers s')"
    "buffers s' ! a1 = join_bitmaps op L R"
    using 1(4) 2(1) by (simp_all add: s'_def)
  moreover have "layer_modules (the_jit s') = layer_modules (the_jit s)" "jit_inv E (the_jit s')"
    "m_data_layout (the_jit s') = m_data_layout (the_jit s)"
    using l(2) r(2) by (simp_all add: evaluates_def s'_def)
  ultimately show thesis using 1(3)
    by (intro that [of s']) (simp_all add: evaluates_def del: nth_append list_update_append)
qed

lemma evaluable_parts:
  "evaluable E t (PredicateExpr l r op) \<longleftrightarrow> evaluable E t l \<and> evaluable E t r"
  "symbols_free E j (PredicateExpr l r op) \<longleftrightarrow> symbols_free E j l \<and> symbols_free E j r"
proof -
  have "expr_columns (PredicateExpr l r op) = expr_columns l @ expr_columns r"
    by (simp add: expr_columns_def)
  then show "symbols_free E j (PredicateExpr l r op) \<longleftrightarrow> symbols_free E j l \<and> symbols_free E j r"
    unfolding symbols_free_def by (simp add: ball_Un)
  show "evaluable E t (PredicateExpr l r op) \<longleftrightarrow> evaluable E t l \<and> evaluable E t r"
    unfolding evaluable_def by (simp add: ball_Un) blast
qed

lemma symbols_free_cong:
  "layer_modules j = layer_modules j' \<Longrightarrow> m_data_layout j = m_data_layout j' \<Longrightarrow>
   symbols_free E j e = symbols_free E j' e"
  by (simp add: symbols_free_def names_free_cong [of j j'])

text \<open>The whole expression.\<close>

lemma filter_expr_executor_ok:
  assumes "third_party_ok E" and "evaluable E t e" and "symbols_free E (the_jit s) e"
    and "jit_inv E (the_jit s)"
  shows "\<exists>s'. accept (filter_expr_executor E t) e s = Inr s' \<and> evaluates E t s s' (row_holds E t e)"
  using assms(2-)
proof (induction e arbitrary: s)
  case (BooleanConst b)
  then show ?case by (simp add: evaluable_def)
next
  case (PredicateExpr l r op)
  obtain s1 where s1: "accept (filter_expr_executor E t) l s = Inr s1" "evaluates E t s s1 (row_holds E t l)"
    using PredicateExpr.IH(1) [of s] PredicateExpr.prems unfolding evaluable_parts by blast
  then have j1: "layer_modules (the_jit s1) = layer_modules (the_jit s)" "jit_inv E (the_jit s1)"
    "m_data_layout (the_jit s1) = m_data_layout (the_jit s)"
    by (simp_all add: evaluates_def)
  then have "symbols_free E (the_jit s1) r" "evaluable E t r"
    using PredicateExpr.prems symbols_free_cong [OF j1(1,3)] unfolding evaluable_parts by blast+
  then obtain s2 where s2: "accept (filter_expr_executor E t) r s1 = Inr s2"
    "evaluates E t s1 s2 (row_holds E t r)"
    using PredicateExpr.IH(2) [of s1] j1(2) by blast
  obtain s' where "execute_predicate (accept (filter_expr_executor E t) l)
      (accept (filter_expr_executor E t) r) op s = Inr s'"
    "evaluates E t s s' (\<lambda>q. case op of Op_AND \<Rightarrow> row_holds E t l q \<and> row_holds E t r q
       | Op_OR \<Rightarrow> row_holds E t l q \<or> row_holds E t r q)"
    by (rule execute_predicate_ok [where vl = "accept (filter_expr_executor E t) l"
          and vr = "accept (filter_expr_executor E t) r", OF s1 s2])
  moreover have "(\<lambda>q. case op of Op_AND \<Rightarrow> row_holds E t l q \<and> row_holds E t r q
       | Op_OR \<Rightarrow> row_holds E t l q \<or> row_holds E t r q) = row_holds E t (PredicateExpr l r op)"
    by (cases op) (simp_all add: row_holds_def fun_eq_iff)
  ultimately show ?case by (simp add: filter_expr_executor_def default_visitor_def)
next
  case (CompareExpr c x op)
  have "comparison_ok E t c x" "num_rows t < 2 ^ 57"
    using CompareExpr.prems by (auto simp: evaluable_def)
  from execute_compare_ok [OF assms(1) this CompareExpr.prems(2,3)] obtain s' where
    "execute_compare E t (visit_column (filter_expr_executor E t) c)
       (visit_literal (filter_expr_executor E t) x) c x op s = Inr s'"
    "evaluates E t s s' (\<lambda>r. compare_row E t r c x op)" by blast
  moreover have "(\<lambda>r. compare_row E t r c x op) = row_holds E t (CompareExpr c x op)"
    by (simp add: row_holds_def fun_eq_iff)
  ultimately show ?case by (simp add: filter_expr_executor_def default_visitor_def)
qed

text \<open>\<open>generate_filter_bitmap\<close> attaches the bitmap of the rows where the expression holds.\<close>

lemma generate_filter_bitmap_rows:
  assumes E: "third_party_ok E" and e: "evaluable E (ctx_table ctx) e" and j: "symbols_free E j e" "jit_inv E j"
    and t: "table_supported (ctx_table ctx)" "columns (ctx_table ctx) \<noteq> []"
      "chunks (hd (columns (ctx_table ctx))) \<noteq> []"
  obtains ctx' j' B where "generate_filter_bitmap E ctx e j = Inr (ctx', j')"
    and "ctx_table ctx' = ctx_table ctx" and "filter_bitmap (ctx_metadata ctx') = Some B"
    and "bitmap_of (ctx_table ctx) (row_holds E (ctx_table ctx) e) B"
    and "layer_modules j' = layer_modules j" and "jit_inv E j'"
proof -
  let ?t = "ctx_table ctx"
  obtain s' where s': "accept (filter_expr_executor E ?t) e (initial_executor j) = Inr s'"
    "evaluates E ?t (initial_executor j) s' (row_holds E ?t e)"
    using filter_expr_executor_ok [OF E e, of "initial_executor j"] j by (auto simp: initial_executor_def)
  obtain res where res: "new_context ?t = Inr res" "ctx_table res = ?t"
    by (rule new_context_ok [OF t(1)]) blast
  from s'(2) obtain a where a: "m_buffer s' = Some a" "bitmap_of ?t (row_holds E ?t e) (buffers s' ! a)"
    "layer_modules (the_jit s') = layer_modules j" "jit_inv E (the_jit s')"
    by (auto simp: evaluates_def initial_executor_def)
  have "generate_filter_bitmap E ctx e j =
      Inr (res\<lparr>ctx_metadata := (ctx_metadata res)\<lparr>filter_bitmap := Some (buffers s' ! a)\<rparr>\<rparr>, the_jit s')"
    using s'(1) res(1) t(2,3) a(1)
    by (simp add: generate_filter_bitmap_def Let_def executor_result_def hd_conv_nth)
  from that [OF this] a res(2) show thesis by simp
qed

end
