(* ===== verification/Materialize.thy ===== *)
theory Materialize
  imports Filter_Executor
begin

text \<open>
  \<^verbatim>\<open>project\<close>, \<^verbatim>\<open>materialize_column\<close> and \<^verbatim>\<open>materialize_filter\<close>
  (\<^verbatim>\<open>pefa/execution/execution.cpp\<close>): the selection of columns, and the copy of the rows a
  bitmap selects into fresh chunks of \<^verbatim>\<open>2 << 13\<close> elements.
\<close>

section \<open>project\<close>

definition project_column :: "third_party \<Rightarrow> table \<Rightarrow> string \<Rightarrow> (field \<times> chunked_array) result" where
  "project_column E t name =
     bindE (deref (GetColumnByName E t name)) (\<lambda>col.
       Inr (\<lparr>field_name = name, field_type = chunked_type col\<rparr>, col))"

definition make_table :: "third_party \<Rightarrow> field list \<Rightarrow> chunked_array list \<Rightarrow> table" where
  "make_table E fs cs = \<lparr>schema = fs, columns = cs, num_rows = inferred_rows E cs\<rparr>"

definition project :: "third_party \<Rightarrow> execution_context \<Rightarrow> string list \<Rightarrow> execution_context result" where
  "project E ctx column_names =
     bindE (mapE (project_column E (ctx_table ctx)) column_names) (\<lambda>cols.
       new_context (make_table E (map fst cols) (map snd cols)))"

section \<open>materialize_column\<close>

definition chunk_size :: nat where
  "chunk_size = push_bit 13 2"

text \<open>The variables of the loops: three positions in the input, one in the output chunk.\<close>

record cursor =
  current_chunk :: nat
  current_chunk_pos :: nat
  total_elements_pos :: nat
  new_chunk_pos :: nat
  data_out :: "byte list"

definition read_elem :: "nat \<Rightarrow> byte list \<Rightarrow> nat \<Rightarrow> byte list result" where
  "read_elem w buf k = (if k * w + w \<le> length buf then Inr (elem w buf k) else Inl OutOfBounds)"

definition write_elem :: "nat \<Rightarrow> byte list \<Rightarrow> nat \<Rightarrow> byte list \<Rightarrow> byte list result" where
  "write_elem w buf k v = (if k * w + w \<le> length buf then Inr (put_elem w buf k v) else Inl OutOfBounds)"

definition selection_bit :: "byte list \<Rightarrow> nat \<Rightarrow> nat result" where
  "selection_bit bm t =
     (if t div 8 < length bm then Inr (unat (drop_bit (7 - t mod 8) (bm ! (t div 8)) AND 1))
      else Inl OutOfBounds)"

text \<open>The inner \<^verbatim>\<open>for\<close>: it writes every element and moves on only behind the selected ones.\<close>

definition copy_step :: "nat \<Rightarrow> byte list \<Rightarrow> byte list option \<Rightarrow> cursor \<Rightarrow> cursor result" where
  "copy_step w bm chunk_data s =
     bindE (deref chunk_data) (\<lambda>src.
     bindE (read_elem w src (current_chunk_pos s)) (\<lambda>v.
     bindE (write_elem w (data_out s) (new_chunk_pos s) v) (\<lambda>out.
     bindE (selection_bit bm (total_elements_pos s)) (\<lambda>b.
     bindE (int_succ (current_chunk_pos s)) (\<lambda>c.
     bindE (int_succ (total_elements_pos s)) (\<lambda>t.
       Inr (s\<lparr>current_chunk_pos := c, total_elements_pos := t,
              new_chunk_pos := new_chunk_pos s + b, data_out := out\<rparr>)))))))"

lemma copy_step_pos: "copy_step w bm src s = Inr s' \<Longrightarrow> current_chunk_pos s' = Suc (current_chunk_pos s)"
  by (auto simp: copy_step_def bindE_eq_Inr dest: int_succ_Inr)

function copy_rows :: "nat \<Rightarrow> byte list \<Rightarrow> byte list option \<Rightarrow> nat \<Rightarrow> cursor \<Rightarrow> cursor result" where
  "copy_rows w bm chunk_data n s =
     (if new_chunk_pos s < chunk_size \<and> current_chunk_pos s < n
      then bindE (copy_step w bm chunk_data s) (copy_rows w bm chunk_data n)
      else Inr s)"
  by pat_completeness auto
termination
  by (relation "measure (\<lambda>(w, bm, src, n, s). n - current_chunk_pos s)") (auto dest: copy_step_pos)

declare copy_rows.simps [simp del]

text \<open>
  The body of the \<^verbatim>\<open>while\<close>. The input is read through \<open>mutable_data()\<close>: of a buffer that may not
  be written that is null, and the first element that is read dereferences it.
\<close>

definition fill_step :: "nat \<Rightarrow> byte list \<Rightarrow> array list \<Rightarrow> cursor \<Rightarrow> cursor result" where
  "fill_step w bm cs s =
     (if current_chunk s < length cs
      then let chunk = cs ! current_chunk s in
        bindE (deref (data_buffer chunk)) (\<lambda>buf.
        let chunk_data = (if data_mutable chunk then Some buf else None) in
        bindE (copy_rows w bm chunk_data (array_length chunk) s) (\<lambda>s1.
        if current_chunk_pos s1 = array_length chunk
        then bindE (int_succ (current_chunk s1)) (\<lambda>i.
               Inr (s1\<lparr>current_chunk := i, current_chunk_pos := 0\<rparr>))
        else Inr s1))
      else Inl OutOfBounds)"

fun fill_chunk :: "nat \<Rightarrow> nat \<Rightarrow> byte list \<Rightarrow> array list \<Rightarrow> cursor \<Rightarrow> cursor result" where
  "fill_chunk 0 w bm cs s = Inl OutOfFuel"
| "fill_chunk (Suc fuel) w bm cs s =
     (if new_chunk_pos s < chunk_size \<and> total_elements_pos s < total_rows cs
      then bindE (fill_step w bm cs s) (fill_chunk fuel w bm cs)
      else Inr s)"

text \<open>The \<^verbatim>\<open>do\<close> loop: one output chunk per round, at least one round.\<close>

definition new_chunk :: "data_type \<Rightarrow> cursor \<Rightarrow> array" where
  "new_chunk typ s =
     \<lparr>array_type = typ, array_length = new_chunk_pos s, slice_offset = 0, validity_buffer = None,
      data_buffer = Some (data_out s), data_mutable = True\<rparr>"

fun materialize_chunks :: "nat \<Rightarrow> third_party \<Rightarrow> data_type \<Rightarrow> nat \<Rightarrow> byte list \<Rightarrow> array list \<Rightarrow> cursor \<Rightarrow>
    array list \<Rightarrow> array list result" where
  "materialize_chunks 0 E typ w bm cs s new_column = Inl OutOfFuel"
| "materialize_chunks (Suc fuel) E typ w bm cs s new_column =
     bindE (fill_chunk (length cs + 2) w bm cs
              (s\<lparr>new_chunk_pos := 0, data_out := allocate_buffer E (w * chunk_size)\<rparr>)) (\<lambda>s'.
       let new_column' = new_column @ [new_chunk typ s'] in
       if total_elements_pos s' < total_rows cs
       then materialize_chunks fuel E typ w bm cs s' new_column'
       else Inr new_column')"

definition materialize_column :: "third_party \<Rightarrow> nat \<Rightarrow> chunked_array \<Rightarrow> byte list \<Rightarrow> chunked_array result" where
  "materialize_column E w column bm =
     bindE (materialize_chunks (total_rows (chunks column) + 1) E (chunked_type column) w bm (chunks column)
              \<lparr>current_chunk = 0, current_chunk_pos = 0, total_elements_pos = 0, new_chunk_pos = 0,
               data_out = []\<rparr> []) (\<lambda>new_column.
       Inr \<lparr>chunked_type = chunked_type column, chunks = new_column\<rparr>)"

section \<open>materialize_filter\<close>

text \<open>The switch over the column's type: the \<^verbatim>\<open>sizeof(T)\<close> of the instance it calls.\<close>

definition materialize_typed :: "third_party \<Rightarrow> byte list \<Rightarrow> chunked_array \<Rightarrow> chunked_array result" where
  "materialize_typed E bm column =
     (case id_of (chunked_type column) of
        INT8 \<Rightarrow> materialize_column E 1 column bm
      | INT16 \<Rightarrow> materialize_column E 2 column bm
      | INT32 \<Rightarrow> materialize_column E 4 column bm
      | INT64 \<Rightarrow> materialize_column E 8 column bm
      | UINT8 \<Rightarrow> materialize_column E 1 column bm
      | UINT16 \<Rightarrow> materialize_column E 2 column bm
      | UINT32 \<Rightarrow> materialize_column E 4 column bm
      | UINT64 \<Rightarrow> materialize_column E 8 column bm
      | FLOAT \<Rightarrow> materialize_column E 4 column bm
      | DOUBLE \<Rightarrow> materialize_column E 8 column bm
      | _ \<Rightarrow> throw_not_implemented
               (''Type '' @ to_string (chunked_type column) @ '' is not supported yet''))"

definition materialize_filter :: "third_party \<Rightarrow> execution_context \<Rightarrow> execution_context result" where
  "materialize_filter E ctx =
     (case filter_bitmap (ctx_metadata ctx) of
        None \<Rightarrow> Inl (Thrown UnreachableException)
      | Some bm \<Rightarrow>
          bindE (mapE (materialize_typed E bm) (columns (ctx_table ctx))) (\<lambda>new_columns.
            new_context (make_table E (schema (ctx_table ctx)) new_columns)))"

section \<open>The rows a bitmap selects\<close>

definition selected :: "(nat \<Rightarrow> 'a) \<Rightarrow> byte list \<Rightarrow> nat \<Rightarrow> nat \<Rightarrow> 'a list" where
  "selected F bm a b = map F (filter (bm_bit bm) [a..<b])"

lemma selected_empty [simp]: "selected F bm a a = []"
  by (simp add: selected_def)

lemma selected_Suc:
  "a \<le> b \<Longrightarrow> selected F bm a (Suc b) = selected F bm a b @ (if bm_bit bm b then [F b] else [])"
  by (simp add: selected_def)

lemma selected_append:
  "a \<le> b \<Longrightarrow> b \<le> c \<Longrightarrow> selected F bm a b @ selected F bm b c = selected F bm a c"
  unfolding selected_def by (metis filter_append map_append upt_add_eq_append le_add_diff_inverse)

lemma length_selected_le: "length (selected F bm a b) \<le> b - a"
  unfolding selected_def using length_filter_le [of "bm_bit bm" "[a..<b]"] by simp

text \<open>The elements in front of position \<open>p\<close> of a buffer.\<close>

definition elems :: "nat \<Rightarrow> byte list \<Rightarrow> nat \<Rightarrow> byte list list" where
  "elems w buf p = map (elem w buf) [0..<p]"

lemma length_elems [simp]: "length (elems w buf p) = p"
  by (simp add: elems_def)

lemma elems_put_same:
  assumes "p * w + w \<le> length buf" and "length v = w"
  shows "elems w (put_elem w buf p v) (Suc p) = elems w buf p @ [v]"
    and "elems w (put_elem w buf p v) p = elems w buf p"
proof -
  show "elems w (put_elem w buf p v) p = elems w buf p"
    using assms(1) elem_put_less by (auto simp: elems_def)
  then show "elems w (put_elem w buf p v) (Suc p) = elems w buf p @ [v]"
    using elem_put_same [OF assms] by (simp add: elems_def)
qed

lemma selection_bit_eq:
  assumes "t < 8 * length bm"
  shows "selection_bit bm t = Inr (of_bool (bm_bit bm t))"
proof -
  have "drop_bit k x AND 1 = of_bool (bit x k)" for x :: byte and k
    by (simp add: and_one_eq mod_2_eq_odd bit_iff_odd_drop_bit)
  then show ?thesis
    using assms by (simp add: selection_bit_def bm_bit_def less_mult_imp_div_less mult.commute)
qed

lemma chunk_size_pos [simp]: "0 < chunk_size"
  by (simp add: chunk_size_def)

lemma chunk_size_eq: "chunk_size = 16384"
  by (simp add: chunk_size_def push_bit_eq_mult)

section \<open>One chunk of the output\<close>

text \<open>
  \<open>filled w F bm T s\<close>: the output chunk holds the elements that the bitmap selects from row
  \<open>T\<close> up to the current row.
\<close>

definition filled :: "nat \<Rightarrow> (nat \<Rightarrow> byte list) \<Rightarrow> byte list \<Rightarrow> nat \<Rightarrow> cursor \<Rightarrow> bool" where
  "filled w F bm T s \<longleftrightarrow>
     new_chunk_pos s \<le> chunk_size \<and> length (data_out s) = w * chunk_size \<and>
     T \<le> total_elements_pos s \<and>
     elems w (data_out s) (new_chunk_pos s) = selected F bm T (total_elements_pos s)"

definition holds_elements :: "nat \<Rightarrow> (nat \<Rightarrow> byte list) \<Rightarrow> nat \<Rightarrow> nat \<Rightarrow> byte list \<Rightarrow> bool" where
  "holds_elements w F start n src \<longleftrightarrow> n * w \<le> length src \<and> (\<forall>i < n. elem w src i = F (start + i))"

lemma copy_step_ok:
  assumes src: "holds_elements w F start n src" and bm: "start + n \<le> 8 * length bm"
    and small: "start + n < 2 ^ 31"
    and s: "filled w F bm T s" "new_chunk_pos s < chunk_size" "current_chunk_pos s < n"
      "total_elements_pos s = start + current_chunk_pos s"
  obtains s' where "copy_step w bm (Some src) s = Inr s'" and "filled w F bm T s'"
    and "current_chunk_pos s' = Suc (current_chunk_pos s)"
    and "total_elements_pos s' = start + current_chunk_pos s'" and "current_chunk s' = current_chunk s"
proof -
  let ?c = "current_chunk_pos s" and ?p = "new_chunk_pos s" and ?t = "total_elements_pos s"
  have c: "?c * w + w \<le> length src"
    using elem_end_le [OF s(3), of w] src by (simp add: holds_elements_def)
  have F: "elem w src ?c = F ?t" using src s(3,4) by (simp add: holds_elements_def)
  with length_elem [OF c] have v: "length (F ?t) = w" by simp
  have p: "?p * w + w \<le> length (data_out s)"
    using elem_end_le [OF s(2), of w] s(1) by (simp add: filled_def mult.commute)
  have step: "copy_step w bm (Some src) s = Inr (s\<lparr>current_chunk_pos := Suc ?c, total_elements_pos := Suc ?t,
      new_chunk_pos := ?p + of_bool (bm_bit bm ?t), data_out := put_elem w (data_out s) ?p (F ?t)\<rparr>)"
    using c p F s(3,4) small bm
    by (simp add: copy_step_def read_elem_def write_elem_def selection_bit_eq int_succ_ok)
  have "filled w F bm T (s\<lparr>current_chunk_pos := Suc ?c, total_elements_pos := Suc ?t,
      new_chunk_pos := ?p + of_bool (bm_bit bm ?t), data_out := put_elem w (data_out s) ?p (F ?t)\<rparr>)"
    using s(1,2) elems_put_same [OF p v] length_put_elem [OF p v]
    by (cases "bm_bit bm ?t") (simp_all add: filled_def selected_Suc)
  from that [OF step this] s(4) show thesis by simp
qed

lemma copy_rows_ok:
  assumes src: "holds_elements w F start n src" and bm: "start + n \<le> 8 * length bm"
    and small: "start + n < 2 ^ 31"
  shows "filled w F bm T s \<Longrightarrow> current_chunk_pos s \<le> n \<Longrightarrow>
    total_elements_pos s = start + current_chunk_pos s \<Longrightarrow>
    \<exists>s'. copy_rows w bm (Some src) n s = Inr s' \<and> filled w F bm T s' \<and> current_chunk_pos s' \<le> n \<and>
      total_elements_pos s' = start + current_chunk_pos s' \<and> current_chunk s' = current_chunk s \<and>
      (current_chunk_pos s' = n \<or> new_chunk_pos s' = chunk_size)"
proof (induction "n - current_chunk_pos s" arbitrary: s)
  case 0
  then show ?case by (subst copy_rows.simps) simp
next
  case (Suc m)
  show ?case
  proof (cases "new_chunk_pos s < chunk_size")
    case True
    have c: "current_chunk_pos s < n" using Suc.hyps(2) by simp
    from copy_step_ok [OF src bm small Suc.prems(1) True c Suc.prems(3)] obtain s1 where
      s1: "copy_step w bm (Some src) s = Inr s1" "filled w F bm T s1"
        "current_chunk_pos s1 = Suc (current_chunk_pos s)"
        "total_elements_pos s1 = start + current_chunk_pos s1" "current_chunk s1 = current_chunk s"
      by blast
    have "m = n - current_chunk_pos s1" "current_chunk_pos s1 \<le> n" using Suc.hyps(2) c s1(3) by simp_all
    from Suc.hyps(1) [OF this(1) s1(2) this(2) s1(4)] show ?thesis
      using s1(1,5) True c by (subst copy_rows.simps) auto
  next
    case False
    then show ?thesis using Suc.prems
      by (subst copy_rows.simps) (auto simp: filled_def)
  qed
qed

text \<open>The cursor is at the row that its chunk and its position in the chunk say.\<close>

definition cursor_ok :: "array list \<Rightarrow> cursor \<Rightarrow> bool" where
  "cursor_ok cs s \<longleftrightarrow>
     current_chunk s \<le> length cs \<and>
     total_elements_pos s = chunk_start cs (current_chunk s) + current_chunk_pos s \<and>
     (if current_chunk s < length cs
      then current_chunk_pos s \<le> array_length (cs ! current_chunk s) else current_chunk_pos s = 0)"

text \<open>
  A column whose data buffers hold elements of \<open>w\<close> bytes and may be written: the loop asks for
  their \<open>mutable_data()\<close>, although it only reads them.
\<close>

definition byte_rows :: "nat \<Rightarrow> array \<Rightarrow> nat \<Rightarrow> byte list" where
  "byte_rows w a i = elem w (the (data_buffer a)) i"

definition sized_column :: "nat \<Rightarrow> array list \<Rightarrow> bool" where
  "sized_column w cs \<longleftrightarrow>
     (\<forall>a \<in> set cs. data_mutable a \<and> (\<exists>buf. data_buffer a = Some buf \<and> array_length a * w \<le> length buf)) \<and>
     total_rows cs < 2 ^ 31 \<and> length cs < 2 ^ 31"

lemma byte_rows_elem: "byte_rows w a = elem w (the (data_buffer a))"
  by (rule ext) (rule byte_rows_def)

abbreviation column_bytes :: "nat \<Rightarrow> array list \<Rightarrow> nat \<Rightarrow> byte list" where
  "column_bytes w cs r \<equiv> chunk_rows (byte_rows w) cs ! r"

lemma sized_column_chunk:
  assumes "sized_column w cs" and "n < length cs"
  obtains buf where "data_buffer (cs ! n) = Some buf" and "data_mutable (cs ! n)"
    and "holds_elements w (column_bytes w cs) (chunk_start cs n) (array_length (cs ! n)) buf"
  using assms nth_mem [OF assms(2)] nth_chunk_rows [OF assms(2), of _ "byte_rows w"]
  by (fastforce simp: sized_column_def holds_elements_def byte_rows_def)

lemma fill_step_ok:
  assumes cs: "sized_column w cs" and bm: "total_rows cs \<le> 8 * length bm"
    and s: "cursor_ok cs s" "filled w (column_bytes w cs) bm T s" "total_elements_pos s < total_rows cs"
  obtains s' where "fill_step w bm cs s = Inr s'" and "cursor_ok cs s'"
    and "filled w (column_bytes w cs) bm T s'"
    and "current_chunk s' = Suc (current_chunk s) \<or> new_chunk_pos s' = chunk_size"
proof -
  let ?n = "current_chunk s"
  have n: "?n < length cs"
    using s(1,3) by (auto simp: cursor_ok_def chunk_start_total split: if_splits dest: le_neq_implies_less)
  obtain buf where buf: "data_buffer (cs ! ?n) = Some buf" "data_mutable (cs ! ?n)"
    "holds_elements w (column_bytes w cs) (chunk_start cs ?n) (array_length (cs ! ?n)) buf"
    by (rule sized_column_chunk [OF cs n])
  note end_le = chunk_end_le [OF n]
  have "chunk_start cs ?n + array_length (cs ! ?n) < 2 ^ 31"
    using end_le cs by (simp add: sized_column_def)
  from copy_rows_ok [OF buf(3) _ this s(2)] s(1) n end_le bm obtain s1 where
    s1: "copy_rows w bm (Some buf) (array_length (cs ! ?n)) s = Inr s1" "filled w (column_bytes w cs) bm T s1"
      "current_chunk_pos s1 \<le> array_length (cs ! ?n)"
      "total_elements_pos s1 = chunk_start cs ?n + current_chunk_pos s1" "current_chunk s1 = ?n"
      "current_chunk_pos s1 = array_length (cs ! ?n) \<or> new_chunk_pos s1 = chunk_size"
    by (auto simp: cursor_ok_def)
  show thesis
  proof (cases "current_chunk_pos s1 = array_length (cs ! ?n)")
    case True
    have "int_succ ?n = Inr (Suc ?n)"
      using n cs by (intro int_succ_ok) (simp add: sized_column_def)
    with True have "fill_step w bm cs s = Inr (s1\<lparr>current_chunk := Suc ?n, current_chunk_pos := 0\<rparr>)"
      using n buf(1,2) s1(1,5) by (simp add: fill_step_def Let_def)
    with True show thesis using n s1(2,4)
      by (intro that) (auto simp: cursor_ok_def filled_def)
  next
    case False
    then have "fill_step w bm cs s = Inr s1" using n buf(1,2) s1(1) by (simp add: fill_step_def Let_def)
    with False show thesis using n s1 by (intro that) (auto simp: cursor_ok_def)
  qed
qed

text \<open>The \<^verbatim>\<open>while\<close> ends within one round per chunk, with a full chunk or at the last row.\<close>

lemma fill_chunk_ok:
  assumes cs: "sized_column w cs" and bm: "total_rows cs \<le> 8 * length bm"
  shows "cursor_ok cs s \<Longrightarrow> filled w (column_bytes w cs) bm T s \<Longrightarrow>
    length cs - current_chunk s + 1 < fuel \<Longrightarrow>
    \<exists>s'. fill_chunk fuel w bm cs s = Inr s' \<and> cursor_ok cs s' \<and> filled w (column_bytes w cs) bm T s' \<and>
      (new_chunk_pos s' = chunk_size \<or> total_elements_pos s' = total_rows cs)"
proof (induction fuel arbitrary: s)
  case (Suc fuel)
  have le: "total_elements_pos s \<le> total_rows cs"
    using Suc.prems(1) chunk_end_le [of "current_chunk s" cs]
    by (auto simp: cursor_ok_def chunk_start_total split: if_splits dest!: le_neq_implies_less)
  show ?case
  proof (cases "new_chunk_pos s < chunk_size \<and> total_elements_pos s < total_rows cs")
    case True
    then obtain s1 where s1: "fill_step w bm cs s = Inr s1" "cursor_ok cs s1"
      "filled w (column_bytes w cs) bm T s1"
      "current_chunk s1 = Suc (current_chunk s) \<or> new_chunk_pos s1 = chunk_size"
      using fill_step_ok [OF cs bm Suc.prems(1,2)] by blast
    show ?thesis
    proof (cases "new_chunk_pos s1 = chunk_size")
      case True
      from Suc.prems(3) obtain f where "fuel = Suc f" by (cases fuel) auto
      with True s1 \<open>new_chunk_pos s < chunk_size \<and> total_elements_pos s < total_rows cs\<close>
      show ?thesis by simp
    next
      case False
      with s1(4) have "current_chunk s1 = Suc (current_chunk s)" by simp
      moreover have "current_chunk s1 \<le> length cs" using s1(2) by (simp add: cursor_ok_def)
      ultimately have "length cs - current_chunk s1 + 1 < fuel" using Suc.prems(3) by simp
      from Suc.IH [OF s1(2,3) this] s1(1) True show ?thesis by simp
    qed
  next
    case False
    with le Suc.prems show ?thesis by (auto simp: filled_def)
  qed
qed simp

section \<open>The whole column\<close>

text \<open>
  The chunks of the output: of the column's type, without validity bitmap, and holding one
  after the other the elements that the bitmap selects from the first \<open>T\<close> rows.
\<close>

definition output_chunk :: "data_type \<Rightarrow> nat \<Rightarrow> array \<Rightarrow> bool" where
  "output_chunk typ w a \<longleftrightarrow>
     array_type a = typ \<and> slice_offset a = 0 \<and> validity_buffer a = None \<and> data_mutable a \<and>
     array_length a \<le> chunk_size \<and>
     (\<exists>buf. data_buffer a = Some buf \<and> length buf = w * chunk_size)"

definition output_of :: "data_type \<Rightarrow> nat \<Rightarrow> (nat \<Rightarrow> byte list) \<Rightarrow> byte list \<Rightarrow> nat \<Rightarrow> array list \<Rightarrow> bool" where
  "output_of typ w F bm T as \<longleftrightarrow>
     chunk_rows (byte_rows w) as = selected F bm 0 T \<and> (\<forall>a \<in> set as. output_chunk typ w a)"

lemma new_chunk_output:
  assumes "filled w F bm T s" and "output_of typ w F bm T as"
  shows "output_of typ w F bm (total_elements_pos s) (as @ [new_chunk typ s])"
proof -
  have "chunk_rows (byte_rows w) [new_chunk typ s] = selected F bm T (total_elements_pos s)"
    using assms(1)
    by (simp add: filled_def chunk_rows_def new_chunk_def elems_def byte_rows_elem)
  then have "chunk_rows (byte_rows w) (as @ [new_chunk typ s]) = selected F bm 0 (total_elements_pos s)"
    using assms by (simp add: chunk_rows_append output_of_def selected_append filled_def)
  with assms show ?thesis
    by (auto simp: output_of_def output_chunk_def new_chunk_def filled_def)
qed

lemma materialize_chunks_ok:
  assumes cs: "sized_column w cs" and bm: "total_rows cs \<le> 8 * length bm" and E: "third_party_ok E"
  shows "cursor_ok cs s \<Longrightarrow> total_rows cs - total_elements_pos s < fuel \<Longrightarrow>
    output_of typ w (column_bytes w cs) bm (total_elements_pos s) as \<Longrightarrow>
    \<forall>a \<in> set as. array_length a = chunk_size \<Longrightarrow>
    \<exists>as'. materialize_chunks fuel E typ w bm cs s as = Inr as' \<and> as' \<noteq> [] \<and>
      output_of typ w (column_bytes w cs) bm (total_rows cs) as' \<and>
      (\<forall>a \<in> set (butlast as'). array_length a = chunk_size)"
proof (induction fuel arbitrary: s as)
  case (Suc fuel)
  let ?F = "column_bytes w cs" and ?T = "total_elements_pos s"
  let ?s = "s\<lparr>new_chunk_pos := 0, data_out := allocate_buffer E (w * chunk_size)\<rparr>"
  have "cursor_ok cs ?s" using Suc.prems(1) by (simp add: cursor_ok_def)
  moreover have "filled w ?F bm ?T ?s"
    by (simp add: filled_def third_party_okD(2) [OF E] elems_def)
  moreover have "length cs - current_chunk ?s + 1 < length cs + 2" by simp
  ultimately obtain s1 where s1: "fill_chunk (length cs + 2) w bm cs ?s = Inr s1" "cursor_ok cs s1"
    "filled w ?F bm ?T s1" "new_chunk_pos s1 = chunk_size \<or> total_elements_pos s1 = total_rows cs"
    using fill_chunk_ok [OF cs bm] by blast
  note out = new_chunk_output [OF s1(3) Suc.prems(3)]
  show ?case
  proof (cases "total_elements_pos s1 < total_rows cs")
    case True
    with s1(4) have full: "new_chunk_pos s1 = chunk_size" by simp
    have "length (selected ?F bm ?T (total_elements_pos s1)) = chunk_size"
      using s1(3) full unfolding filled_def by (metis length_elems)
    then have "chunk_size \<le> total_elements_pos s1 - ?T"
      using length_selected_le [of ?F bm ?T "total_elements_pos s1"] by simp
    then have "?T < total_elements_pos s1" using chunk_size_pos by linarith
    with True Suc.prems(2) have "total_rows cs - total_elements_pos s1 < fuel" by linarith
    moreover have "\<forall>a \<in> set (as @ [new_chunk typ s1]). array_length a = chunk_size"
      using Suc.prems(4) full by (auto simp: new_chunk_def)
    ultimately show ?thesis using Suc.IH [OF s1(2) _ out] s1(1) True
      by (simp add: Let_def del: fill_chunk.simps)
  next
    case False
    moreover have "total_elements_pos s1 \<le> total_rows cs"
      using s1(2) chunk_end_le [of "current_chunk s1" cs]
      by (auto simp: cursor_ok_def chunk_start_total split: if_splits dest!: le_neq_implies_less)
    ultimately have "total_elements_pos s1 = total_rows cs" by simp
    with s1(1) out Suc.prems(4) show ?thesis by (simp add: Let_def del: fill_chunk.simps)
  qed
qed simp

text \<open>
  Materialising a column returns, and its rows are the selected rows in their order; the chunks
  are full except for the last one.
\<close>

lemma materialize_column_ok:
  assumes "third_party_ok E" and "sized_column w (chunks column)"
    and "total_rows (chunks column) \<le> 8 * length bm"
  obtains as where "materialize_column E w column bm = Inr \<lparr>chunked_type = chunked_type column, chunks = as\<rparr>"
    and "as \<noteq> []" and "\<forall>a \<in> set (butlast as). array_length a = chunk_size"
    and "\<forall>a \<in> set as. output_chunk (chunked_type column) w a"
    and "chunk_rows (byte_rows w) as = selected (column_bytes w (chunks column)) bm 0 (total_rows (chunks column))"
proof -
  let ?cs = "chunks column" and ?ty = "chunked_type column"
  let ?s = "\<lparr>current_chunk = 0, current_chunk_pos = 0, total_elements_pos = 0, new_chunk_pos = 0, data_out = []\<rparr>"
  have "cursor_ok ?cs ?s" and "total_rows ?cs - total_elements_pos ?s < total_rows ?cs + 1"
    by (simp_all add: cursor_ok_def)
  moreover have "output_of ?ty w (column_bytes w ?cs) bm (total_elements_pos ?s) []"
    by (simp add: output_of_def chunk_rows_def)
  moreover have "\<forall>a \<in> set []. array_length a = chunk_size" by simp
  ultimately obtain as where as: "materialize_chunks (total_rows ?cs + 1) E ?ty w bm ?cs ?s [] = Inr as"
    "as \<noteq> []" "output_of ?ty w (column_bytes w ?cs) bm (total_rows ?cs) as"
    "\<forall>a \<in> set (butlast as). array_length a = chunk_size"
    using materialize_chunks_ok [OF assms(2,3,1)] by blast
  from as(1) have "materialize_column E w column bm = Inr \<lparr>chunked_type = ?ty, chunks = as\<rparr>"
    unfolding materialize_column_def by (simp only: bindE.simps)
  from that [OF this as(2,4)] as(3) show thesis by (simp add: output_of_def)
qed

section \<open>Types and errors\<close>

text \<open>The types of the switch, with the \<^verbatim>\<open>sizeof(T)\<close> of the template instance.\<close>

definition materialize_size :: "type_id \<Rightarrow> nat option" where
  "materialize_size i =
     (if i \<in> {INT8, UINT8} then Some 1
      else if i \<in> {INT16, UINT16} then Some 2
      else if i \<in> {INT32, UINT32, FLOAT} then Some 4
      else if i \<in> {INT64, UINT64, DOUBLE} then Some 8
      else None)"

lemma materialize_typed_size:
  "materialize_typed E bm column =
     (case materialize_size (id_of (chunked_type column)) of
        Some w \<Rightarrow> materialize_column E w column bm
      | None \<Rightarrow> throw_not_implemented
                  (''Type '' @ to_string (chunked_type column) @ '' is not supported yet''))"
  by (cases "id_of (chunked_type column)") (simp_all add: materialize_typed_def materialize_size_def)

lemma materialize_size_primitive: "materialize_size i = Some w \<Longrightarrow> primitive_size i = Some w \<and> 0 < w"
  by (cases i) (auto simp: materialize_size_def)

lemma materialize_size_supported: "materialize_size i = Some w \<Longrightarrow> supported_type i"
  by (auto simp: materialize_size_def supported_type_def split: if_splits)

lemma project_column_name:
  "project_column E t name = Inr (f, c) \<Longrightarrow> field_name f = name \<and> field_type f = chunked_type c"
  by (auto simp: project_column_def bindE_eq_Inr)

end
