(* ===== verification/Relational.thy ===== *)
theory Relational
  imports Materialize
begin

text \<open>
  The relational reading of a table: a schema and a list of rows, each the list of the
  elements' bytes. The three operations of \<^verbatim>\<open>pefa/execution\<close> are shown to compute the
  projection and the selection of relations on the tables that keep the executor's
  invariant.
\<close>

section \<open>Relations\<close>

type_synonym relation = "field list \<times> byte list list list"

definition column_width :: "chunked_array \<Rightarrow> nat" where
  "column_width c = (case materialize_size (id_of (chunked_type c)) of Some w \<Rightarrow> w | None \<Rightarrow> 0)"

definition row_of :: "table \<Rightarrow> nat \<Rightarrow> byte list list" where
  "row_of t r = map (\<lambda>c. column_bytes (column_width c) (chunks c) r) (columns t)"

text \<open>
  The rows are what the executor's loops see: they read the data buffers from their beginning,
  whatever the arrays' offsets and validity bitmaps are.
\<close>

definition table_rel :: "table \<Rightarrow> relation" where
  "table_rel t = (schema t, map (row_of t) [0..<num_rows t])"

text \<open>The value that the kernel's code sees in an element's bytes.\<close>

definition bytes_value :: "data_type \<Rightarrow> byte list \<Rightarrow> ir_value" where
  "bytes_value typ bs = (case from_arrow typ of Inr ty \<Rightarrow> element_at ty bs 0 | Inl _ \<Rightarrow> VI1 0)"

definition column_index :: "third_party \<Rightarrow> field list \<Rightarrow> string \<Rightarrow> nat option" where
  "column_index E S name = get_field_index E (map field_name S) name"

definition row_satisfies :: "third_party \<Rightarrow> field list \<Rightarrow> bool_expr \<Rightarrow> byte list list \<Rightarrow> bool" where
  "row_satisfies E S e row =
     holds (\<lambda>c x op. case column_index E S (column_name c) of
         Some i \<Rightarrow> element_compare E (field_type (S ! i)) (bytes_value (field_type (S ! i)) (row ! i)) c x op
       | None \<Rightarrow> False) e"

definition rel_filter :: "third_party \<Rightarrow> bool_expr \<Rightarrow> relation \<Rightarrow> relation" where
  "rel_filter E e R = (fst R, filter (row_satisfies E (fst R) e) (snd R))"

definition rel_project :: "third_party \<Rightarrow> string list \<Rightarrow> relation \<Rightarrow> relation" where
  "rel_project E names R =
     (map (\<lambda>n. fst R ! the (column_index E (fst R) n)) names,
      map (\<lambda>row. map (\<lambda>n. row ! the (column_index E (fst R) n)) names) (snd R))"

section \<open>The invariant of tables\<close>

text \<open>
  A column of a type the executor copies, in a layout the kernel handles, with the table's
  number of rows and a data buffer for every chunk that may be written.
\<close>

definition column_fits :: "nat \<Rightarrow> chunked_array \<Rightarrow> bool" where
  "column_fits n c \<longleftrightarrow>
     materialize_size (id_of (chunked_type c)) \<noteq> None \<and>
     bit_width (chunked_type c) = map_option ((*) 8) (materialize_size (id_of (chunked_type c))) \<and>
     chunks c \<noteq> [] \<and> length (chunks c) < 2 ^ 31 \<and> total_rows (chunks c) = n \<and>
     layout_ok (chunks c) \<and> (\<forall>a \<in> set (chunks c). array_fits (chunked_type c) a \<and> data_mutable a)"

definition table_ok :: "table \<Rightarrow> bool" where
  "table_ok t \<longleftrightarrow>
     columns t \<noteq> [] \<and> map field_type (schema t) = map chunked_type (columns t) \<and>
     num_rows t < 2 ^ 31 \<and> (\<forall>c \<in> set (columns t). column_fits (num_rows t) c)"

lemma column_fits_size:
  assumes "column_fits n c"
  shows "materialize_size (id_of (chunked_type c)) = Some (column_width c)"
    and "primitive_size (id_of (chunked_type c)) = Some (column_width c)"
    and "bit_width (chunked_type c) = Some (8 * column_width c)"
    and "supported_type (id_of (chunked_type c))"
  using assms materialize_size_primitive materialize_size_supported
  by (auto simp: column_fits_def column_width_def)

lemma table_ok_columns:
  assumes "table_ok t"
  shows "length (schema t) = length (columns t)"
    and "i < length (columns t) \<Longrightarrow> field_type (schema t ! i) = chunked_type (columns t ! i)"
    and "i < length (columns t) \<Longrightarrow> column_fits (num_rows t) (columns t ! i)"
    and "table_supported t"
proof -
  from assms have eq: "map field_type (schema t) = map chunked_type (columns t)"
    and fits: "\<forall>c \<in> set (columns t). column_fits (num_rows t) c"
    by (simp_all add: table_ok_def)
  show len: "length (schema t) = length (columns t)" using eq by (metis length_map)
  show "field_type (schema t ! i) = chunked_type (columns t ! i)" if "i < length (columns t)"
    using eq len that by (metis nth_map)
  show "column_fits (num_rows t) (columns t ! i)" if "i < length (columns t)"
    using fits that by simp
  show "table_supported t"
    using fits column_fits_size(4) by (auto simp: table_supported_def column_supported_def)
qed

lemma length_row_of [simp]: "length (row_of t r) = length (columns t)"
  by (simp add: row_of_def)

lemma primitive_from_arrow:
  assumes "materialize_size (id_of t) = Some w"
  shows "\<exists>ty. from_arrow t = Inr ty \<and> type_size ty = w"
  using assms
  by (cases "id_of t") (auto simp: materialize_size_def from_arrow_def llvm_types)

lemma raw_element_bytes:
  assumes "column_fits n c" and "a \<in> set (chunks c)"
  shows "raw_element (chunked_type c) a i = bytes_value (chunked_type c) (byte_rows (column_width c) a i)"
proof -
  obtain ty where ty: "from_arrow (chunked_type c) = Inr ty" "type_size ty = column_width c"
    using primitive_from_arrow [OF column_fits_size(1) [OF assms(1)]] by blast
  moreover from assms have "array_fits (chunked_type c) a" by (simp add: column_fits_def)
  then obtain buf where "data_buffer a = Some buf" by (rule array_fitsE [OF _ ty(1)])
  ultimately show ?thesis
    by (simp add: raw_element_def bytes_value_def byte_rows_def element_at_def elem_def)
qed

lemma chunk_rows_cong:
  "(\<And>a i. a \<in> set cs \<Longrightarrow> f a i = g a i) \<Longrightarrow> chunk_rows f cs = chunk_rows g cs"
  unfolding chunk_rows_def by (intro arg_cong [where f = concat] map_cong) auto

text \<open>What the kernel reads in row \<open>r\<close> is the value of the row's bytes.\<close>

lemma raw_rows:
  assumes "column_fits n c" and "r < n"
  shows "chunk_rows (raw_element (chunked_type c)) (chunks c) ! r =
    bytes_value (chunked_type c) (column_bytes (column_width c) (chunks c) r)"
proof -
  have "chunk_rows (raw_element (chunked_type c)) (chunks c) =
      map (bytes_value (chunked_type c)) (chunk_rows (byte_rows (column_width c)) (chunks c))"
    unfolding chunk_rows_map [symmetric]
    by (rule chunk_rows_cong) (rule raw_element_bytes [OF assms(1)])
  with assms show ?thesis by (simp add: column_fits_def)
qed

section \<open>Expressions over a schema\<close>

text \<open>
  No constants, every column found in the schema, every literal of the alternative that
  the column's type needs.
\<close>

definition expr_ok :: "third_party \<Rightarrow> field list \<Rightarrow> bool_expr \<Rightarrow> bool" where
  "expr_ok E S e \<longleftrightarrow>
     const_free e \<and>
     (\<forall>(c, x, _) \<in> set (comparisons e).
        (case column_index E S (column_name c) of
           Some i \<Rightarrow> \<not> isl (const_from_variant E (field_type (S ! i)) (literal_value x))
         | None \<Rightarrow> False))"

lemma column_index_Some:
  assumes "third_party_ok E" and "column_index E S name = Some i"
  shows "i < length S" and "field_name (S ! i) = name"
  using assms third_party_okD(3) [OF assms(1), of "map field_name S" name i]
  by (auto simp: column_index_def)

lemma lookup_column:
  assumes "third_party_ok E" and "table_ok t" and "column_index E (schema t) name = Some i"
  shows "GetFieldByName E t name = Some (schema t ! i)"
    and "GetColumnByName E t name = Some (columns t ! i)"
    and "i < length (columns t)" and "field_type (schema t ! i) = chunked_type (columns t ! i)"
    and "column_fits (num_rows t) (columns t ! i)"
proof -
  have i: "i < length (schema t)" by (rule column_index_Some(1) [OF assms(1,3)])
  then show "i < length (columns t)" by (simp add: table_ok_columns(1) [OF assms(2)])
  then show "field_type (schema t ! i) = chunked_type (columns t ! i)"
    and "column_fits (num_rows t) (columns t ! i)"
    using table_ok_columns(2,3) [OF assms(2)] by blast+
  show "GetFieldByName E t name = Some (schema t ! i)" "GetColumnByName E t name = Some (columns t ! i)"
    using assms(3) i \<open>i < length (columns t)\<close>
    by (simp_all add: GetFieldByName_def GetColumnByName_def column_index_def)
qed

lemma expr_ok_comparison:
  assumes "expr_ok E S e" and "(c, x, op) \<in> set (comparisons e)"
  obtains i where "column_index E S (column_name c) = Some i"
    and "\<not> isl (const_from_variant E (field_type (S ! i)) (literal_value x))"
  using assms by (fastforce simp: expr_ok_def split: option.splits)

lemma table_evaluable:
  assumes E: "third_party_ok E" and t: "table_ok t" and e: "expr_ok E (schema t) e"
  shows "evaluable E t e"
proof -
  have "comparison_ok E t c x" if c: "(c, x, op) \<in> set (comparisons e)" for c x op
  proof -
    obtain i where i: "column_index E (schema t) (column_name c) = Some i"
      "\<not> isl (const_from_variant E (field_type (schema t ! i)) (literal_value x))"
      by (rule expr_ok_comparison [OF e c])
    note look = lookup_column [OF E t i(1)]
    have "\<exists>ty. from_arrow (chunked_type (columns t ! i)) = Inr ty"
      using primitive_from_arrow [OF column_fits_size(1) [OF look(5)]] by blast
    then have "numeric_case (id_of (field_type (schema t ! i)))"
      using look(4) by (simp add: from_arrow_numeric)
    moreover have "column_ok t (field_type (schema t ! i)) (columns t ! i)"
      using look(4,5) by (simp add: column_ok_def column_fits_def)
    ultimately show ?thesis using look(1,2) i(2) by (simp add: comparison_ok_def)
  qed
  moreover have "num_rows t < 2 ^ 57" using t by (simp add: table_ok_def)
  ultimately show ?thesis using e by (auto simp: evaluable_def expr_ok_def)
qed

lemma row_holds_satisfies:
  assumes E: "third_party_ok E" and t: "table_ok t" and e: "expr_ok E (schema t) e" and r: "r < num_rows t"
  shows "row_holds E t e r \<longleftrightarrow> row_satisfies E (schema t) e (row_of t r)"
  unfolding row_holds_def row_satisfies_def
proof (rule holds_cong)
  fix c x op assume c: "(c, x, op) \<in> set (comparisons e)"
  obtain i where i: "column_index E (schema t) (column_name c) = Some i"
    by (rule expr_ok_comparison [OF e c])
  note look = lookup_column [OF E t i]
  show "compare_row E t r c x op = (case column_index E (schema t) (column_name c) of
      Some i \<Rightarrow> element_compare E (field_type (schema t ! i))
        (bytes_value (field_type (schema t ! i)) (row_of t r ! i)) c x op
    | None \<Rightarrow> False)"
    using i look(1-4) raw_rows [OF look(5) r] by (simp add: compare_row_def row_of_def)
qed

section \<open>Materialisation keeps the invariant and filters the rows\<close>

lemma full_chunks_start:
  assumes "\<forall>a \<in> set (butlast as). array_length a = chunk_size" and "n < length as"
  shows "chunk_start as n = n * chunk_size"
proof -
  have "take n as = take n (butlast as)" using assms(2) by (simp add: take_butlast)
  then have "\<forall>a \<in> set (take n as). array_length a = chunk_size"
    using assms(1) by (auto dest: in_set_takeD)
  then have "map array_length (take n as) = replicate n chunk_size"
    using assms(2) by (simp add: map_eq_conv [symmetric, of _ _ "\<lambda>_. chunk_size"] map_replicate_const)
  then show ?thesis by (simp add: chunk_start_def sum_list_replicate)
qed

lemma full_chunks_layout:
  assumes "\<forall>a \<in> set (butlast as). array_length a = chunk_size"
  shows "layout_ok as"
  using full_chunks_start [OF assms] by (simp add: layout_ok_def chunk_size_eq mult_mod_left)

lemma full_chunks_count:
  assumes "\<forall>a \<in> set (butlast as). array_length a = chunk_size" and "total_rows as < 2 ^ 31"
  shows "length as < 2 ^ 31"
proof (cases "length as")
  case (Suc n)
  then have "n * chunk_size \<le> total_rows as"
    using full_chunks_start [OF assms(1), of n] chunk_end_le [of n as] by simp
  then have "n \<le> total_rows as div chunk_size" by (simp add: less_eq_div_iff_mult_less_eq)
  with assms(2) Suc show ?thesis by (simp add: chunk_size_eq)
qed simp

lemma column_fits_sized:
  assumes "column_fits n c" and "n < 2 ^ 31"
  shows "sized_column (column_width c) (chunks c)"
  using assms column_fits_size(2) [OF assms(1)]
  by (fastforce simp: sized_column_def column_fits_def array_fits_def split: option.splits)

lemma output_chunk_fits:
  assumes "column_fits n c" and "output_chunk (chunked_type c) (column_width c) a"
  shows "array_fits (chunked_type c) a \<and> data_mutable a"
  using assms(2) column_fits_size(2,3) [OF assms(1)]
  by (auto simp: output_chunk_def array_fits_def mult.commute chunk_size_eq
      intro!: mult_le_mono)

definition selected_rows :: "byte list \<Rightarrow> nat \<Rightarrow> nat list" where
  "selected_rows bm n = filter (bm_bit bm) [0..<n]"

lemma selected_rows_le: "length (selected_rows bm n) \<le> n"
  unfolding selected_rows_def using length_filter_le [of "bm_bit bm" "[0..<n]"] by simp

lemma materialize_typed_ok:
  assumes E: "third_party_ok E" and c: "column_fits n c" and n: "n < 2 ^ 31" "n \<le> 8 * length bm"
  obtains c' where "materialize_typed E bm c = Inr c'" and "chunked_type c' = chunked_type c"
    and "column_fits (length (selected_rows bm n)) c'"
    and "chunk_rows (byte_rows (column_width c)) (chunks c') =
      map (column_bytes (column_width c) (chunks c)) (selected_rows bm n)"
proof -
  have rows: "total_rows (chunks c) = n" using c by (simp add: column_fits_def)
  from materialize_column_ok [OF E column_fits_sized [OF c n(1)], of bm] n(2) rows
  obtain as where as: "materialize_column E (column_width c) c bm = Inr \<lparr>chunked_type = chunked_type c, chunks = as\<rparr>"
    "as \<noteq> []" "\<forall>a \<in> set (butlast as). array_length a = chunk_size"
    "\<forall>a \<in> set as. output_chunk (chunked_type c) (column_width c) a"
    "chunk_rows (byte_rows (column_width c)) as =
      map (column_bytes (column_width c) (chunks c)) (selected_rows bm n)"
    by (auto simp: selected_def selected_rows_def)
  have total: "total_rows as = length (selected_rows bm n)"
    using arg_cong [OF as(5), of length] by simp
  have "length as < 2 ^ 31"
    using full_chunks_count [OF as(3)] total selected_rows_le [of bm n] n(1) by simp
  then have "column_fits (length (selected_rows bm n)) \<lparr>chunked_type = chunked_type c, chunks = as\<rparr>"
    using c as(2,4) total full_chunks_layout [OF as(3)] output_chunk_fits [OF c]
    by (simp add: column_fits_def)
  moreover have "materialize_typed E bm c = Inr \<lparr>chunked_type = chunked_type c, chunks = as\<rparr>"
    using as(1) by (simp add: materialize_typed_size column_fits_size(1) [OF c])
  ultimately show thesis
    using that [of "\<lparr>chunked_type = chunked_type c, chunks = as\<rparr>"] as(5) by simp
qed

lemma column_width_type: "chunked_type c' = chunked_type c \<Longrightarrow> column_width c' = column_width c"
  by (simp add: column_width_def)

lemma make_table_rows:
  "third_party_ok E \<Longrightarrow> cs \<noteq> [] \<Longrightarrow> num_rows (make_table E fs cs) = total_rows (chunks (hd cs))"
  using third_party_okD(4) [of E "hd cs" "tl cs"]
  by (simp add: make_table_def chunked_length_def total_rows_def)

lemma nth_map_eqI: "map f xs = ys \<Longrightarrow> i < length xs \<Longrightarrow> ys ! i = f (xs ! i)"
  by auto

lemma materialize_filter_rows:
  assumes E: "third_party_ok E" and t: "table_ok (ctx_table ctx)"
    and bm: "filter_bitmap (ctx_metadata ctx) = Some bm" "num_rows (ctx_table ctx) \<le> 8 * length bm"
  obtains ctx' where "materialize_filter E ctx = Inr ctx'" and "table_ok (ctx_table ctx')"
    and "filter_bitmap (ctx_metadata ctx') = None"
    and "table_rel (ctx_table ctx') = (schema (ctx_table ctx),
      map (row_of (ctx_table ctx)) (selected_rows bm (num_rows (ctx_table ctx))))"
proof -
  let ?t = "ctx_table ctx" and ?n = "num_rows (ctx_table ctx)"
  let ?sel = "selected_rows bm ?n"
  have n: "?n < 2 ^ 31" using t by (simp add: table_ok_def)
  have "\<exists>c'. materialize_typed E bm c = Inr c' \<and> chunked_type c' = chunked_type c \<and>
      column_fits (length ?sel) c' \<and> chunk_rows (byte_rows (column_width c)) (chunks c') =
        map (column_bytes (column_width c) (chunks c)) ?sel" if "c \<in> set (columns ?t)" for c
    using materialize_typed_ok [OF E _ n bm(2), of c] t that by (metis table_ok_def)
  then obtain g where g: "\<And>c. c \<in> set (columns ?t) \<Longrightarrow> materialize_typed E bm c = Inr (g c) \<and>
      chunked_type (g c) = chunked_type c \<and> column_fits (length ?sel) (g c) \<and>
      chunk_rows (byte_rows (column_width c)) (chunks (g c)) =
        map (column_bytes (column_width c) (chunks c)) ?sel"
    by metis
  define t' where "t' = make_table E (schema ?t) (map g (columns ?t))"
  have ne: "columns ?t \<noteq> []" using t by (simp add: table_ok_def)
  have "column_fits (length ?sel) (g (hd (columns ?t)))" using g ne by simp
  then have rows: "num_rows t' = length ?sel"
    using make_table_rows [OF E, of "map g (columns ?t)" "schema ?t"] ne
    by (simp add: t'_def hd_map column_fits_def)
  have cols: "columns t' = map g (columns ?t)" "schema t' = schema ?t" by (simp_all add: t'_def make_table_def)
  have "map field_type (schema ?t) = map chunked_type (map g (columns ?t))"
    using t g by (simp add: table_ok_def cong: map_cong)
  then have ok: "table_ok t'"
    using g ne rows cols n selected_rows_le [of bm ?n] by (auto simp: table_ok_def)
  obtain ctx' where ctx': "new_context t' = Inr ctx'" "ctx_table ctx' = t'"
    "filter_bitmap (ctx_metadata ctx') = None"
    by (rule new_context_ok [OF table_ok_columns(4) [OF ok]])
  have "mapE (materialize_typed E bm) (columns ?t) = Inr (map g (columns ?t))"
    by (rule mapE_all_Inr) (use g in simp)
  then have run: "materialize_filter E ctx = Inr ctx'"
    using bm(1) ctx'(1) by (simp add: materialize_filter_def t'_def)
  have "row_of t' k = row_of ?t (?sel ! k)" if "k < length ?sel" for k
  proof -
    have "column_bytes (column_width (g c)) (chunks (g c)) k =
        column_bytes (column_width c) (chunks c) (?sel ! k)" if "c \<in> set (columns ?t)" for c
      using g [OF that] \<open>k < length ?sel\<close> column_width_type [of "g c" c] by simp
    then show ?thesis by (simp add: row_of_def cols)
  qed
  then have "table_rel t' = (schema ?t, map (row_of ?t) ?sel)"
    by (auto simp: table_rel_def cols rows intro!: nth_equalityI)
  with run ok ctx'(2,3) show thesis using that [of ctx'] by simp
qed

lemma filter_bitmap_rows:
  assumes "third_party_ok E" and "table_ok t" and "expr_ok E (schema t) e" and "bitmap_of t (row_holds E t e) bm"
  shows "(schema t, map (row_of t) (selected_rows bm (num_rows t))) = rel_filter E e (table_rel t)"
proof -
  have "selected_rows bm (num_rows t) =
      filter (\<lambda>r. row_satisfies E (schema t) e (row_of t r)) [0..<num_rows t]"
    unfolding selected_rows_def
    by (rule filter_cong)
      (use assms(4) row_holds_satisfies [OF assms(1-3)] in \<open>auto simp: bitmap_of_def\<close>)
  then show ?thesis by (simp add: rel_filter_def table_rel_def filter_map comp_def)
qed

section \<open>project\<close>

definition projectable :: "third_party \<Rightarrow> field list \<Rightarrow> string list \<Rightarrow> bool" where
  "projectable E S names \<longleftrightarrow> names \<noteq> [] \<and> (\<forall>n \<in> set names. column_index E S n \<noteq> None)"

lemma project_rows:
  assumes E: "third_party_ok E" and t: "table_ok (ctx_table ctx)"
    and names: "projectable E (schema (ctx_table ctx)) names"
  obtains ctx' where "project E ctx names = Inr ctx'" and "table_ok (ctx_table ctx')"
    and "filter_bitmap (ctx_metadata ctx') = None"
    and "table_rel (ctx_table ctx') = rel_project E names (table_rel (ctx_table ctx))"
proof -
  let ?t = "ctx_table ctx" and ?S = "schema (ctx_table ctx)"
  define ix where "ix n = the (column_index E ?S n)" for n
  have ix: "column_index E ?S n = Some (ix n)" if "n \<in> set names" for n
    using names that by (auto simp: projectable_def ix_def)
  define fs cs where "fs = map (\<lambda>n. ?S ! ix n) names" and "cs = map (\<lambda>n. columns ?t ! ix n) names"
  have col: "project_column E ?t n = Inr (?S ! ix n, columns ?t ! ix n)" if "n \<in> set names" for n
  proof -
    note look = lookup_column [OF E t ix [OF that]]
    have "\<lparr>field_name = n, field_type = chunked_type (columns ?t ! ix n)\<rparr> = ?S ! ix n"
      using look(4) column_index_Some(2) [OF E ix [OF that]] by simp
    then show ?thesis by (simp add: project_column_def look(2))
  qed
  have "mapE (project_column E ?t) names = Inr (map (\<lambda>n. (?S ! ix n, columns ?t ! ix n)) names)"
    by (rule mapE_all_Inr) (rule col)
  then have run: "project E ctx names = new_context (make_table E fs cs)"
    by (simp add: project_def fs_def cs_def comp_def)
  have fits: "\<forall>c \<in> set cs. column_fits (num_rows ?t) c"
    using lookup_column(5) [OF E t ix] by (auto simp: cs_def)
  have ne: "cs \<noteq> []" using names by (simp add: cs_def projectable_def)
  have "column_fits (num_rows ?t) (hd cs)" using fits ne by simp
  then have rows: "num_rows (make_table E fs cs) = num_rows ?t"
    using make_table_rows [OF E ne] by (simp add: column_fits_def)
  have "map field_type fs = map chunked_type cs"
    using lookup_column(4) [OF E t ix] by (simp add: fs_def cs_def)
  then have ok: "table_ok (make_table E fs cs)"
    using fits ne rows t by (simp add: table_ok_def) (simp add: make_table_def)
  obtain ctx' where ctx': "new_context (make_table E fs cs) = Inr ctx'"
    "ctx_table ctx' = make_table E fs cs" "filter_bitmap (ctx_metadata ctx') = None"
    by (rule new_context_ok [OF table_ok_columns(4) [OF ok]])
  have "row_of (make_table E fs cs) r = map (\<lambda>n. row_of ?t r ! ix n) names" for r
    using lookup_column(3) [OF E t ix] by (simp add: row_of_def cs_def make_table_def)
  then have "table_rel (make_table E fs cs) = rel_project E names (table_rel ?t)"
    using rows by (simp add: table_rel_def rel_project_def ix_def [symmetric] comp_def)
      (simp add: make_table_def fs_def)
  with run ctx' ok show thesis using that [of ctx'] by simp
qed

end
