(* ===== verification/Query_Compiler.thy ===== *)
theory Query_Compiler
  imports Plan_Optimizer Relational
begin

text \<open>
  \<^verbatim>\<open>pefa/query_compiler/query_compiler.h\<close> and \<^verbatim>\<open>.cpp\<close>: queries are built as plans, joined
  by the optimizer and executed by a visitor that threads the context through the operations
  of \<^verbatim>\<open>pefa/execution\<close>. The result is shown to be the query's relational meaning.
\<close>

section \<open>QueryCompiler\<close>

text \<open>A query is its \<open>m_plan\<close>; its methods are const and return a new query.\<close>

definition empty_query :: "nat option" where
  "empty_query = None"

definition query_project :: "nat option \<Rightarrow> string list \<Rightarrow> plan_store \<Rightarrow> nat option \<times> plan_store" where
  "query_project m_plan names h =
     (let (a, h') = make_node (ProjectionNode m_plan names) h in (Some a, h'))"

definition query_filter :: "nat option \<Rightarrow> bool_expr \<Rightarrow> plan_store \<Rightarrow> nat option \<times> plan_store" where
  "query_filter m_plan e h =
     (let (a, h1) = make_node (FilterNode m_plan e) h;
          (b, h2) = make_node (MaterializeFilterNode (Some a)) h1
      in (Some b, h2))"

section \<open>ExecutePlanVisitor\<close>

text \<open>Beside its \<open>ctx\<close>, the state holds the process-wide JIT that the kernels use.\<close>

type_synonym execute_state = "plan_store \<times> execution_context \<times> jit"

definition execute_on_projection :: "third_party \<Rightarrow> nat \<Rightarrow> execute_state \<Rightarrow> execute_state result" where
  "execute_on_projection E a st =
     (let (h, ctx, j) = st in
      case h ! a of
        ProjectionNode _ names \<Rightarrow> bindE (project E ctx names) (\<lambda>ctx'. Inr (h, ctx', j))
      | _ \<Rightarrow> Inl IllFormed)"

definition execute_on_filter :: "third_party \<Rightarrow> nat \<Rightarrow> execute_state \<Rightarrow> execute_state result" where
  "execute_on_filter E a st =
     (let (h, ctx, j) = st in
      case h ! a of
        FilterNode _ e \<Rightarrow> bindE (generate_filter_bitmap E ctx e j) (\<lambda>(ctx', j'). Inr (h, ctx', j'))
      | _ \<Rightarrow> Inl IllFormed)"

definition execute_on_materialize :: "third_party \<Rightarrow> nat \<Rightarrow> execute_state \<Rightarrow> execute_state result" where
  "execute_on_materialize E a st =
     (let (h, ctx, j) = st in bindE (materialize_filter E ctx) (\<lambda>ctx'. Inr (h, ctx', j)))"

definition execute_plan_visitor :: "third_party \<Rightarrow> (execution_context \<times> jit) plan_visitor" where
  "execute_plan_visitor E =
     \<lparr>on_projection = execute_on_projection E, on_filter = execute_on_filter E,
      on_materialize = execute_on_materialize E\<rparr>"

definition query_execute :: "third_party \<Rightarrow> nat option \<Rightarrow> table \<Rightarrow> plan_store \<Rightarrow> jit \<Rightarrow>
    (table \<times> plan_store \<times> jit) result" where
  "query_execute E m_plan t h j =
     bindE (run_passes (add_pass join_filter_pass_create []) m_plan h) (\<lambda>(_, h1, plan).
     bindE (new_context t) (\<lambda>ctx.
     bindE (visit_plan (execute_plan_visitor E) plan (h1, ctx, j)) (\<lambda>(h2, ctx', j').
       Inr (ctx_table ctx', h2, j'))))"

section \<open>The meaning of a query\<close>

text \<open>The calls that built a query, the last one first, and the plan they build.\<close>

datatype query_op = QProject "string list" | QFilter bool_expr

fun plan_of :: "query_op list \<Rightarrow> plan_op list" where
  "plan_of [] = []"
| "plan_of (QProject names # qs) = OpProject names # plan_of qs"
| "plan_of (QFilter e # qs) = OpMaterialize # OpFilter e # plan_of qs"

fun eval_query :: "third_party \<Rightarrow> query_op list \<Rightarrow> relation \<Rightarrow> relation" where
  "eval_query E [] R = R"
| "eval_query E (QProject names # qs) R = rel_project E names (eval_query E qs R)"
| "eval_query E (QFilter e # qs) R = rel_filter E e (eval_query E qs R)"

definition query_schema :: "third_party \<Rightarrow> query_op list \<Rightarrow> field list \<Rightarrow> field list" where
  "query_schema E qs S = fst (eval_query E qs (S, []))"

fun query_ok :: "third_party \<Rightarrow> field list \<Rightarrow> query_op list \<Rightarrow> bool" where
  "query_ok E S [] = True"
| "query_ok E S (QProject names # qs) =
     (query_ok E S qs \<and> projectable E (query_schema E qs S) names)"
| "query_ok E S (QFilter e # qs) = (query_ok E S qs \<and> expr_ok E (query_schema E qs S) e)"

lemma eval_query_schema: "fst (eval_query E qs R) = query_schema E qs (fst R)"
proof (induction qs)
  case (Cons q qs)
  then show ?case
    by (cases q) (simp_all add: query_schema_def rel_project_def rel_filter_def)
qed (simp add: query_schema_def)

text \<open>Building a query extends its plan and leaves every other query as it is.\<close>

lemma query_project_plan:
  assumes "represents h m_plan (plan_of qs)" and "query_project m_plan names h = (m', h')"
  shows "represents h' m' (plan_of (QProject names # qs))"
  using assms represents_make_node [OF assms(1), of "ProjectionNode m_plan names"]
  by (auto simp: query_project_def make_node_def)

lemma query_filter_plan:
  assumes "represents h m_plan (plan_of qs)" and "query_filter m_plan e h = (m', h')"
  shows "represents h' m' (plan_of (QFilter e # qs))"
proof -
  let ?h1 = "h @ [FilterNode m_plan e]"
  have "represents ?h1 (Some (length h)) (OpFilter e # plan_of qs)"
    using represents_make_node [OF assms(1), of "FilterNode m_plan e" "length h" ?h1]
    by (simp add: make_node_def)
  from represents_make_node [OF this, of "MaterializeFilterNode (Some (length h))"] assms(2)
  show ?thesis by (auto simp: query_filter_def make_node_def)
qed

text \<open>A chain of calls on a new \<^verbatim>\<open>QueryCompiler\<close>, the last call first in the list.\<close>

fun build_query :: "query_op list \<Rightarrow> plan_store \<Rightarrow> nat option \<times> plan_store" where
  "build_query [] h = (empty_query, h)"
| "build_query (QProject names # qs) h = (let (m, h1) = build_query qs h in query_project m names h1)"
| "build_query (QFilter e # qs) h = (let (m, h1) = build_query qs h in query_filter m e h1)"

lemma build_query_plan: "build_query qs h = (m, h') \<Longrightarrow> represents h' m (plan_of qs)"
proof (induction qs h arbitrary: m h' rule: build_query.induct)
  case (2 names qs h)
  then show ?case using query_project_plan by (auto simp del: plan_of.simps split: prod.splits)
next
  case (3 e qs h)
  then show ?case using query_filter_plan by (auto simp del: plan_of.simps split: prod.splits)
qed (simp add: empty_query_def)

lemma build_query_root: "qs \<noteq> [] \<Longrightarrow> build_query qs h = (m, h') \<Longrightarrow> \<exists>a. m = Some a"
  by (cases qs rule: plan_of.cases)
    (auto simp: query_project_def query_filter_def make_node_def split: prod.splits)

lemma query_methods_extend:
  "query_project m_plan names h = (m', h') \<Longrightarrow> \<exists>ns. h' = h @ ns"
  "query_filter m_plan e h = (m', h') \<Longrightarrow> \<exists>ns. h' = h @ ns"
  by (auto simp: query_project_def query_filter_def make_node_def)

section \<open>Joining filters keeps the meaning\<close>

fun join_query :: "query_op list \<Rightarrow> query_op list" where
  "join_query [] = []"
| "join_query (QProject names # qs) = QProject names # join_query qs"
| "join_query (QFilter e # qs) =
     (case join_query qs of
        QFilter prev # rest \<Rightarrow> QFilter (AND_expr prev e) # rest
      | rest \<Rightarrow> QFilter e # rest)"

lemma join_query_plan: "foldr join_op (plan_of qs) [] = plan_of (join_query qs)"
proof (induction qs rule: plan_of.induct)
  case (3 e qs)
  then show ?case by (auto split: list.split query_op.split)
qed auto

lemma join_query_root:
  assumes "represents h r (plan_of (join_query qs))" and "qs \<noteq> []"
  obtains b where "r = Some b"
proof -
  have "join_query qs \<noteq> []"
    using assms(2) by (cases qs rule: join_query.cases) (auto split: list.split query_op.split)
  then have "plan_of (join_query qs) \<noteq> []" by (cases "join_query qs" rule: plan_of.cases) auto
  with assms(1) that show thesis by (cases r) auto
qed

lemma rel_filter_AND: "rel_filter E (AND_expr a b) R = rel_filter E b (rel_filter E a R)"
  by (auto simp: rel_filter_def row_satisfies_def intro!: filter_cong)

lemma expr_ok_AND: "expr_ok E S (AND_expr a b) \<longleftrightarrow> expr_ok E S a \<and> expr_ok E S b"
  by (auto simp: expr_ok_def ball_Un)

lemma query_schema_simps [simp]:
  "query_schema E [] S = S"
  "query_schema E (QFilter e # qs) S = query_schema E qs S"
  by (simp_all add: query_schema_def rel_filter_def)

lemma join_query_eval: "eval_query E (join_query qs) R = eval_query E qs R"
proof (induction qs rule: join_query.induct)
  case (3 e qs)
  then show ?case by (auto simp: rel_filter_AND split: list.split query_op.split)
qed simp_all

lemma join_query_schema: "query_schema E (join_query qs) S = query_schema E qs S"
  by (simp add: query_schema_def join_query_eval)

lemma join_query_ok: "query_ok E S (join_query qs) \<longleftrightarrow> query_ok E S qs"
proof (induction qs rule: join_query.induct)
  case (3 e qs)
  show ?case
  proof (cases "\<exists>prev rest. join_query qs = QFilter prev # rest")
    case True
    then obtain prev rest where j: "join_query qs = QFilter prev # rest" by blast
    have "query_schema E rest S = query_schema E qs S"
      using join_query_schema [of E qs S] j by simp
    with 3 j show ?thesis by (auto simp: expr_ok_AND)
  next
    case False
    then have "join_query (QFilter e # qs) = QFilter e # join_query qs"
      by (auto split: list.split query_op.split)
    with 3 show ?thesis by (simp add: join_query_schema)
  qed
qed (simp_all add: join_query_schema)

section \<open>Execution\<close>

definition execute_op :: "third_party \<Rightarrow> plan_op \<Rightarrow> execution_context \<times> jit \<Rightarrow> (execution_context \<times> jit) result" where
  "execute_op E op cj =
     (let (ctx, j) = cj in
      case op of
        OpProject names \<Rightarrow> bindE (project E ctx names) (\<lambda>ctx'. Inr (ctx', j))
      | OpFilter e \<Rightarrow> generate_filter_bitmap E ctx e j
      | OpMaterialize \<Rightarrow> bindE (materialize_filter E ctx) (\<lambda>ctx'. Inr (ctx', j)))"

definition execute_step :: "third_party \<Rightarrow> plan_op \<Rightarrow> execute_state \<Rightarrow> execute_state result" where
  "execute_step E op st = bindE (execute_op E op (snd st)) (\<lambda>cj. Inr (fst st, cj))"

lemma bindE_swap: "bindE (bindE m (\<lambda>x. Inr (f x))) g = bindE m (\<lambda>x. g (f x))"
  by (cases m) auto

interpretation executor: plan_walker "execute_plan_visitor E" "execute_step E" "\<lambda>h0 st. fst st = h0" for E
proof (unfold_locales, goal_cases)
  case (2 h0 st a)
  obtain h ctx j where "st = (h, ctx, j)" by (metis surj_pair)
  with 2 show ?case
    by (cases "h0 ! a")
      (auto simp: on_visit_def execute_plan_visitor_def execute_on_projection_def execute_on_filter_def
        execute_on_materialize_def execute_step_def execute_op_def bindE_swap
        intro!: bindE_cong)
next
  case (3 h0 st op st')
  then show ?case by (auto simp: execute_step_def bindE_eq_Inr)
qed simp_all

lemma execute_steps_fold:
  "foldE (execute_step E) ops (h, cj) = bindE (foldE (execute_op E) ops cj) (\<lambda>cj'. Inr (h, cj'))"
proof (induction ops arbitrary: cj)
  case (Cons op ops)
  have "execute_step E op (h, cj) = bindE (execute_op E op cj) (\<lambda>cj'. Inr (h, cj'))"
    by (simp add: execute_step_def)
  with Cons show ?case by (cases "execute_op E op cj") simp_all
qed simp

text \<open>No module is live between the operations.\<close>

definition idle :: "third_party \<Rightarrow> jit \<Rightarrow> bool" where
  "idle E j \<longleftrightarrow> jit_inv E j \<and> layer_modules j = []"

lemma execute_filter_ok:
  assumes E: "third_party_ok E" and j: "idle E j" and t: "table_ok (ctx_table ctx)"
    and e: "expr_ok E (schema (ctx_table ctx)) e"
  obtains ctx' j' where "foldE (execute_op E) [OpFilter e, OpMaterialize] (ctx, j) = Inr (ctx', j')"
    and "idle E j'" and "table_ok (ctx_table ctx')" and "filter_bitmap (ctx_metadata ctx') = None"
    and "table_rel (ctx_table ctx') = rel_filter E e (table_rel (ctx_table ctx))"
proof -
  let ?t = "ctx_table ctx"
  have free: "symbols_free E j e" "jit_inv E j" using j by (simp_all add: idle_def symbols_free_def)
  have ne: "columns ?t \<noteq> []" using t by (simp add: table_ok_def)
  then have "chunks (hd (columns ?t)) \<noteq> []"
    using t by (cases "columns ?t") (auto simp: table_ok_def column_fits_def)
  from generate_filter_bitmap_rows [OF E table_evaluable [OF E t e] free table_ok_columns(4) [OF t] ne this]
  obtain ctx1 j' B where 1: "generate_filter_bitmap E ctx e j = Inr (ctx1, j')"
    "ctx_table ctx1 = ?t" "filter_bitmap (ctx_metadata ctx1) = Some B"
    "bitmap_of ?t (row_holds E ?t e) B" "layer_modules j' = layer_modules j" "jit_inv E j'" by blast
  have "num_rows ?t \<le> 8 * length B" using 1(4) by (simp add: bitmap_of_def)
  with materialize_filter_rows [OF E, of ctx1 B] 1(2,3) t obtain ctx' where
    2: "materialize_filter E ctx1 = Inr ctx'" "table_ok (ctx_table ctx')"
      "filter_bitmap (ctx_metadata ctx') = None"
      "table_rel (ctx_table ctx') = (schema ?t, map (row_of ?t) (selected_rows B (num_rows ?t)))"
    by auto
  have "table_rel (ctx_table ctx') = rel_filter E e (table_rel ?t)"
    using 2(4) filter_bitmap_rows [OF E t e 1(4)] by simp
  moreover have "idle E j'" using 1(5,6) j by (simp add: idle_def)
  ultimately show thesis using 1(1) 2(1-3) that [of ctx' j'] by (simp add: execute_op_def)
qed

lemma execute_query_ops:
  assumes E: "third_party_ok E" and t: "table_ok (ctx_table ctx)"
  shows "query_ok E (schema (ctx_table ctx)) qs \<Longrightarrow> idle E j \<Longrightarrow>
    \<exists>ctx' j'. foldE (execute_op E) (rev (plan_of qs)) (ctx, j) = Inr (ctx', j') \<and> idle E j' \<and>
      table_ok (ctx_table ctx') \<and>
      table_rel (ctx_table ctx') = eval_query E qs (table_rel (ctx_table ctx))"
proof (induction qs)
  case Nil
  with t show ?case by simp
next
  case (Cons q qs)
  then have "query_ok E (schema (ctx_table ctx)) qs" by (cases q) auto
  with Cons obtain ctx1 j1 where 1: "foldE (execute_op E) (rev (plan_of qs)) (ctx, j) = Inr (ctx1, j1)"
    "idle E j1" "table_ok (ctx_table ctx1)"
    "table_rel (ctx_table ctx1) = eval_query E qs (table_rel (ctx_table ctx))"
    by blast
  have schema: "schema (ctx_table ctx1) = query_schema E qs (schema (ctx_table ctx))"
    using arg_cong [OF 1(4), of fst] by (simp add: eval_query_schema) (simp add: table_rel_def)
  show ?case
  proof (cases q)
    case (QProject names)
    then have "projectable E (schema (ctx_table ctx1)) names" using Cons.prems(1) schema by simp
    from project_rows [OF E 1(3) this] obtain ctx2 where "project E ctx1 names = Inr ctx2"
      "table_ok (ctx_table ctx2)"
      "table_rel (ctx_table ctx2) = rel_project E names (table_rel (ctx_table ctx1))" by blast
    moreover from this(1) have "execute_op E (OpProject names) (ctx1, j1) = Inr (ctx2, j1)"
      by (simp add: execute_op_def)
    ultimately show ?thesis using 1 QProject by (simp add: foldE_append)
  next
    case (QFilter e)
    then have "expr_ok E (schema (ctx_table ctx1)) e" using Cons.prems(1) schema by simp
    from execute_filter_ok [OF E 1(2,3) this] obtain ctx2 j2 where
      2: "foldE (execute_op E) [OpFilter e, OpMaterialize] (ctx1, j1) = Inr (ctx2, j2)" "idle E j2"
        "table_ok (ctx_table ctx2)"
        "table_rel (ctx_table ctx2) = rel_filter E e (table_rel (ctx_table ctx1))" by blast
    have "rev (plan_of (q # qs)) = rev (plan_of qs) @ [OpFilter e, OpMaterialize]" by (simp add: QFilter)
    with 1 2 QFilter show ?thesis by (simp add: foldE_append del: foldE.simps)
  qed
qed

text \<open>
  Executing a query runs the operations of the joined query, one after the other, on a context
  of the table.
\<close>

lemma query_execute_ops:
  assumes plan: "represents h (Some a) (plan_of qs)"
  obtains h' where "query_execute E (Some a) t h j = bindE (new_context t) (\<lambda>ctx.
      bindE (foldE (execute_op E) (rev (plan_of (join_query qs))) (ctx, j)) (\<lambda>(ctx', j').
        Inr (ctx_table ctx', h', j')))"
    and "take (length h) h' = h"
proof -
  obtain m_passes h1 r where opt:
    "run_passes (add_pass join_filter_pass_create []) (Some a) h = Inr (m_passes, h1, r)"
    "represents h1 r (plan_of (join_query qs))" "take (length h) h1 = h"
    using optimizer_joins [OF plan] by (auto simp: join_query_plan)
  have "qs \<noteq> []" using plan by (auto elim: represents_SomeE)
  with opt(2) obtain b where b: "r = Some b" by (rule join_query_root)
  have visit: "visit_plan (execute_plan_visitor E) r (h1, ctx, j) =
      bindE (foldE (execute_op E) (rev (plan_of (join_query qs))) (ctx, j)) (\<lambda>cj. Inr (h1, cj))" for ctx
    using executor.visit_plan_steps [of h1 b "plan_of (join_query qs)" "(h1, ctx, j)" E] opt(2)
    unfolding b by (simp add: execute_steps_fold)
  have "query_execute E (Some a) t h j = bindE (new_context t) (\<lambda>ctx.
      bindE (foldE (execute_op E) (rev (plan_of (join_query qs))) (ctx, j)) (\<lambda>(ctx', j').
        Inr (ctx_table ctx', h1, j')))"
    unfolding query_execute_def opt(1) by (simp add: visit bindE_assoc case_prod_unfold)
  from that [OF this opt(3)] show thesis .
qed

text \<open>A query returns the relation it denotes; it can be executed again.\<close>

lemma query_execute_ok:
  assumes E: "third_party_ok E" and t: "table_ok t" and j: "idle E j"
    and plan: "represents h (Some a) (plan_of qs)" and qs: "query_ok E (schema t) qs"
  obtains t' h' j' where "query_execute E (Some a) t h j = Inr (t', h', j')"
    and "table_ok t'" and "table_rel t' = eval_query E qs (table_rel t)"
    and "idle E j'" and "take (length h) h' = h"
proof -
  obtain h' where h': "query_execute E (Some a) t h j = bindE (new_context t) (\<lambda>ctx.
      bindE (foldE (execute_op E) (rev (plan_of (join_query qs))) (ctx, j)) (\<lambda>(ctx', j').
        Inr (ctx_table ctx', h', j')))" "take (length h) h' = h"
    by (rule query_execute_ops [OF plan])
  obtain ctx where ctx: "new_context t = Inr ctx" "ctx_table ctx = t"
    by (rule new_context_ok [OF table_ok_columns(4) [OF t]])
  obtain ctx' j' where "foldE (execute_op E) (rev (plan_of (join_query qs))) (ctx, j) = Inr (ctx', j')"
    "idle E j'" "table_ok (ctx_table ctx')" "table_rel (ctx_table ctx') = eval_query E qs (table_rel t)"
    using execute_query_ops [OF E, of ctx "join_query qs" j] t j qs ctx(2)
    by (auto simp: join_query_ok join_query_eval)
  with that [of "ctx_table ctx'" h' j'] h' ctx(1) show thesis by simp
qed

end
