(* ===== verification/Samples.thy ===== *)
theory Samples
  imports Query_Compiler
begin

text \<open>
  Concrete tables, expressions and kernels at which the properties are applied: nine rows in
  two columns, the first one in two chunks whose boundary falls inside a byte of the bitmap.
\<close>

definition int32_type :: data_type where
  "int32_type = \<lparr>id_of = INT32, to_string = ''int32'', bit_width = Some 32\<rparr>"

definition uint8_type :: data_type where
  "uint8_type = \<lparr>id_of = UINT8, to_string = ''uint8'', bit_width = Some 8\<rparr>"

definition string_type :: data_type where
  "string_type = \<lparr>id_of = STRING, to_string = ''string'', bit_width = None\<rparr>"

definition timestamp_type :: data_type where
  "timestamp_type = \<lparr>id_of = TIMESTAMP, to_string = ''timestamp[s]'', bit_width = Some 64\<rparr>"

definition plain_array :: "data_type \<Rightarrow> nat \<Rightarrow> byte list \<Rightarrow> array" where
  "plain_array typ n bs =
     \<lparr>array_type = typ, array_length = n, slice_offset = 0, validity_buffer = None, data_buffer = Some bs,
      data_mutable = True\<rparr>"

definition int32_array :: "byte list \<Rightarrow> array" where
  "int32_array vs = plain_array int32_type (length vs) (concat (map (\<lambda>v. [v, 0, 0, 0]) vs))"

definition sample_column :: chunked_array where
  "sample_column = \<lparr>chunked_type = int32_type, chunks = [int32_array [1, 2, 3], int32_array [4, 5, 6, 7, 8, 9]]\<rparr>"

definition sample_bytes :: chunked_array where
  "sample_bytes = \<lparr>chunked_type = uint8_type,
     chunks = [plain_array uint8_type 9 [10, 11, 12, 13, 14, 15, 16, 17, 18]]\<rparr>"

definition field_a :: field where
  "field_a = \<lparr>field_name = ''a'', field_type = int32_type\<rparr>"

definition field_b :: field where
  "field_b = \<lparr>field_name = ''b'', field_type = uint8_type\<rparr>"

definition sample_table :: table where
  "sample_table = \<lparr>schema = [field_a, field_b], columns = [sample_column, sample_bytes], num_rows = 9\<rparr>"

definition sample_expr :: bool_expr where
  "sample_expr = AND_expr (GT (col ''a'') (lit (LInt 2))) (LT (col ''b'') (lit (LInt 17)))"

text \<open>A table without chunks, and one with a type that the context rejects.\<close>

definition chunkless_table :: table where
  "chunkless_table = \<lparr>schema = [field_a], columns = [\<lparr>chunked_type = int32_type, chunks = []\<rparr>], num_rows = 0\<rparr>"

definition timestamp_column :: chunked_array where
  "timestamp_column = \<lparr>chunked_type = timestamp_type, chunks = [plain_array timestamp_type 1 (replicate 8 0)]\<rparr>"

definition timestamp_table :: table where
  "timestamp_table = \<lparr>schema = [field_a, \<lparr>field_name = ''t'', field_type = timestamp_type\<rparr>],
     columns = [\<lparr>chunked_type = int32_type, chunks = [int32_array [1]]\<rparr>, timestamp_column], num_rows = 1\<rparr>"

definition context_of :: "table \<Rightarrow> execution_context" where
  "context_of t = \<lparr>ctx_table = t, ctx_metadata = \<lparr>metadata_columns = [], filter_bitmap = None\<rparr>\<rparr>"

lemmas sample_defs = int32_type_def uint8_type_def plain_array_def int32_array_def sample_column_def
  sample_bytes_def field_a_def field_b_def sample_table_def

lemma sample_layout: "layout_ok (chunks sample_column)" "layout_ok (chunks sample_bytes)"
  by (auto simp: layout_ok_def chunk_start_def sample_defs less_Suc_eq)

lemma sample_fits: "column_fits 9 sample_column" "column_fits 9 sample_bytes"
  using sample_layout
  by (auto simp: column_fits_def total_rows_def array_fits_def materialize_size_def sample_defs)

lemma sample_table_ok: "table_ok sample_table"
  using sample_fits by (simp add: table_ok_def sample_table_def field_a_def field_b_def
      sample_column_def sample_bytes_def)

lemma sample_index:
  "column_index sample_third_party (schema sample_table) ''a'' = Some 0"
  "column_index sample_third_party (schema sample_table) ''b'' = Some 1"
  by (simp_all add: column_index_def sample_third_party_def sample_table_def field_a_def field_b_def)

lemma sample_expr_ok: "expr_ok sample_third_party (schema sample_table) sample_expr"
proof -
  have "const_from_variant sample_third_party int32_type (LInt 2) = Inr (VI32 2)"
    "const_from_variant sample_third_party uint8_type (LInt 17) = Inr (VI8 17)"
    by (simp_all add: const_from_variant_def arrow_typed_const_int_def type_cases int32_type_def
        uint8_type_def llvm_consts)
  then show ?thesis
    using sample_index
    by (simp add: expr_ok_def sample_expr_def expr_factories)
      (simp add: sample_table_def field_a_def field_b_def)
qed

text \<open>The JIT of a process that has not compiled anything yet.\<close>

definition sample_jit :: jit where
  "sample_jit =
     \<lparr>m_engine_builder = createEngineBuilder sample_third_party,
      m_target_machine =
        \<lparr>target_triple = ''x86_64-unknown-linux-gnu'', data_layout = ''e'', ir_analysis = ''generic''\<rparr>,
      m_data_layout = ''e'', keys_allocated = 0, resolvers = {}, layer_modules = []\<rparr>"

lemma sample_jit_init: "JIT_init sample_third_party True = Inr sample_jit"
  by (simp add: JIT_init_def sample_jit_def Let_def createEngineBuilder_def sample_third_party_def)

lemma sample_jit_layers [simp]: "layer_modules sample_jit = []"
  by (simp add: sample_jit_def)

lemma sample_jit_inv: "jit_inv sample_third_party sample_jit"
  using JIT_init_inv [OF sample_jit_init] by blast

lemma sample_jit_reachable: "jit_reachable sample_third_party sample_jit"
  by (rule reach_new [OF sample_jit_init])

lemma sample_jit_idle: "idle sample_third_party sample_jit"
  by (simp add: idle_def sample_jit_inv)

lemma symbols_free_sample_jit: "symbols_free E sample_jit e"
  by (simp add: symbols_free_def)

end
