(* ===== verification/Kernel_Properties.thy ===== *)
theory Kernel_Properties
  imports Samples
begin

text \<open>
  The properties of the filter kernel: what its generated code computes, what happens to it in
  the JIT, and the inputs it cannot handle.
\<close>

section \<open>The generated code\<close>

text \<open>A compiled kernel over the samples' first column.\<close>

definition sample_compare :: bool_expr where
  "sample_compare = AND_expr (GT (col ''a'') (lit (LInt 2))) (NEQ (col ''a'') (lit (LInt 5)))"

lemma sample_compilable: "compilable sample_third_party field_a sample_compare"
  by (simp add: compilable_def sample_compare_def expr_factories field_a_def int32_type_def type_cases
      const_from_variant_def arrow_typed_const_int_def)

lemma sample_array_fits: "array_fits int32_type (int32_array [4, 5, 6, 7, 8, 9, 10, 11, 12])"
  by (simp add: array_fits_def sample_defs)

text \<open>
  C5: The predicate function that is emitted for an expression over the kernel's column
  returns, for every column element, the truth value of the expression: it is compiled correctly,
  whatever the other functions of the module and the buffers are, with any fuel but none.
\<close>

theorem predicate_compiled_correctly:
  assumes "compilable E fld e"
  shows "\<exists>ty f. from_arrow (field_type fld) = Inr ty \<and> gen_predicate_func E fld (EBool e) = Inr f \<and>
    (\<forall>call src bmp v n. type_of v = ty \<longrightarrow>
       run_function call (Suc n) f [v] src bmp = Inr (Some (i1 (element_holds E fld e v)), bmp))"
  by (rule gen_predicate_func_ok [OF assms]) (auto simp: is_predicate_function_def)

theorem predicate_compiled_correctly_witness:
  "\<exists>f. gen_predicate_func sample_third_party field_a (EBool sample_compare) = Inr f \<and>
    run_function (\<lambda>_ _. Inl IllFormed) 1 f [VI32 7] [] [] =
      Inr (Some (i1 (element_holds sample_third_party field_a sample_compare (VI32 7))), [])"
proof -
  have "from_arrow (field_type field_a) = Inr TI32"
    by (simp add: from_arrow_def field_a_def int32_type_def llvm_types)
  with predicate_compiled_correctly [OF sample_compilable] show ?thesis by fastforce
qed

text \<open>The constant for an \<open>int\<close> literal is the literal, reduced to the column's width.\<close>

lemma literal_words:
  "(ucast (k :: 32 word) :: 8 word) = word_of_int (sint k)"
  "(ucast (scast k :: 64 word) :: 16 word) = word_of_int (sint k)"
  "(ucast (scast k :: 64 word) :: 32 word) = word_of_int (sint k)"
  "(scast k :: 64 word) = word_of_int (sint k)"
  by (transfer; simp add: take_bit_signed_take_bit min_def)+

lemma literal_numbers:
  "sint (ucast (k :: 32 word) :: 8 word) = signed_take_bit 7 (sint k)"
  "uint (ucast (k :: 32 word) :: 8 word) = take_bit 8 (sint k)"
  "sint (ucast (scast k :: 64 word) :: 16 word) = signed_take_bit 15 (sint k)"
  "uint (ucast (scast k :: 64 word) :: 16 word) = take_bit 16 (sint k)"
  "sint (ucast (scast k :: 64 word) :: 32 word) = signed_take_bit 31 (sint k)"
  "uint (ucast (scast k :: 64 word) :: 32 word) = take_bit 32 (sint k)"
  unfolding literal_words(1-3) by (simp_all only: signed_of_int unsigned_of_int) simp_all

lemma literal_numbers_64:
  "sint (scast (k :: 32 word) :: 64 word) = signed_take_bit 63 (sint k)"
  "uint (scast k :: 64 word) = take_bit 64 (sint k)"
  unfolding literal_words(4) by (simp_all only: signed_of_int unsigned_of_int) simp_all

text \<open>
  C22: The comparison of a column of integers with an \<open>int\<close> literal compares the column's
  numbers, signed or unsigned as its type says, with the literal reduced to the column's width:
  a literal that does not fit wraps around. That is what it means, and what the predicate that is
  emitted for it returns.
\<close>

theorem integer_comparison:
  assumes "integral_case (id_of t)" and "from_arrow t = Inr ty" and "type_of v = ty"
  shows "\<exists>x. number (id_of t) v = Some x \<and>
    (element_compare E t v c (LiteralExpr (LInt k)) op \<longleftrightarrow>
       int_compare op x (if signed_integral_case (id_of t)
         then signed_take_bit (8 * type_size ty - 1) (sint k) else take_bit (8 * type_size ty) (sint k))) \<and>
    (\<forall>fld. field_type fld = t \<and> field_name fld = column_name c \<longrightarrow>
       (\<exists>f. gen_predicate_func E fld (EBool (CompareExpr c (LiteralExpr (LInt k)) op)) = Inr f \<and>
         (\<forall>call src bmp n. run_function call (Suc n) f [v] src bmp =
            Inr (Some (i1 (int_compare op x (if signed_integral_case (id_of t)
              then signed_take_bit (8 * type_size ty - 1) (sint k) else take_bit (8 * type_size ty) (sint k)))), bmp))))"
proof -
  have const: "const_from_variant E t (LInt k) = (if ty = TI8 then Inr (VI8 (ucast k))
      else if ty = TI16 then Inr (VI16 (ucast (scast k :: 64 word)))
      else if ty = TI32 then Inr (VI32 (ucast (scast k :: 64 word))) else Inr (VI64 (scast k)))"
    using assms(1,2)
    by (cases "id_of t") (simp_all add: from_arrow_def type_cases llvm_types const_from_variant_def
        arrow_typed_const_int_def llvm_consts)
  have "ty \<in> {TI8, TI16, TI32, TI64}"
    using assms(1,2) by (cases "id_of t") (auto simp: from_arrow_def type_cases llvm_types)
  then consider w where "v = VI8 w" "ty = TI8" | w where "v = VI16 w" "ty = TI16"
    | w where "v = VI32 w" "ty = TI32" | w where "v = VI64 w" "ty = TI64"
    using assms(3) by (auto simp: type_of_iff)
  then have meaning: "\<exists>x. number (id_of t) v = Some x \<and>
      (element_compare E t v c (LiteralExpr (LInt k)) op \<longleftrightarrow> int_compare op x (if signed_integral_case (id_of t)
         then signed_take_bit (8 * type_size ty - 1) (sint k) else take_bit (8 * type_size ty) (sint k)))"
    by cases (simp_all add: element_compare_def const compare_values_def literal_numbers literal_numbers_64)
  have emitted: "\<exists>f. gen_predicate_func E fld (EBool (CompareExpr c (LiteralExpr (LInt k)) op)) = Inr f \<and>
      (\<forall>call src bmp n. run_function call (Suc n) f [v] src bmp =
         Inr (Some (i1 (element_compare E t v c (LiteralExpr (LInt k)) op)), bmp))"
    if "field_type fld = t" "field_name fld = column_name c" for fld
  proof (rule gen_predicate_func_ok)
    have "numeric_case (id_of t)" using assms(2) from_arrow_numeric by blast
    then show "compilable E fld (CompareExpr c (LiteralExpr (LInt k)) op)"
      using const that by (simp add: compilable_def)
  qed (use assms(2,3) that in \<open>auto simp: is_predicate_function_def element_holds_def\<close>)
  show ?thesis using meaning emitted by auto
qed

theorem integer_comparison_witness:
  "\<exists>x. number INT8 (VI8 50) = Some x \<and>
    (element_compare sample_third_party \<lparr>id_of = INT8, to_string = ''int8'', bit_width = Some 8\<rparr> (VI8 50)
       (ColumnRef ''a'') (LiteralExpr (LInt 300)) Op_GT \<longleftrightarrow> x > 44)"
  using integer_comparison [of "\<lparr>id_of = INT8, to_string = ''int8'', bit_width = Some 8\<rparr>" TI8 "VI8 50"
      sample_third_party "ColumnRef ''a''" 300 Op_GT]
  by (simp add: type_cases from_arrow_def llvm_types signed_take_bit_def take_bit_eq_mod bit_iff_odd)

text \<open>
  C23: The predicate functions that are emitted for the six comparisons of a column with one
  literal agree with one linear order: on every element they return whether its number equals, is
  below or is above the literal's, \<open>!=\<close>, \<open><=\<close> and \<open>>=\<close> being the negations of \<open>=\<close>, \<open>>\<close> and \<open><\<close>.
  On a NaN element, or for a NaN literal, all six return false, so that \<open>!=\<close> is then not the
  negation of \<open>=\<close>.
\<close>

theorem comparison_order:
  assumes "compilable E fld (CompareExpr c x Op_EQ)"
  shows "\<exists>ty k. from_arrow (field_type fld) = Inr ty \<and>
    const_from_variant E (field_type fld) (literal_value x) = Inr k \<and>
    (\<forall>v call src bmp n. type_of v = ty \<longrightarrow>
      (\<exists>truth. (\<forall>op. \<exists>f. gen_predicate_func E fld (EBool (CompareExpr c x op)) = Inr f \<and>
           run_function call (Suc n) f [v] src bmp = Inr (Some (i1 (truth op)), bmp)) \<and>
         (case (number (id_of (field_type fld)) v, number (id_of (field_type fld)) k) of
            (Some a, Some b) \<Rightarrow> (truth Op_EQ \<longleftrightarrow> a = b) \<and> (truth Op_LT \<longleftrightarrow> a < b) \<and> (truth Op_GT \<longleftrightarrow> a > b) \<and>
              (truth Op_NEQ \<longleftrightarrow> \<not> truth Op_EQ) \<and> (truth Op_LE \<longleftrightarrow> \<not> truth Op_GT) \<and>
              (truth Op_GE \<longleftrightarrow> \<not> truth Op_LT)
          | _ \<Rightarrow> \<forall>op. \<not> truth op)))"
proof -
  let ?t = "field_type fld"
  have comp: "compilable E fld (CompareExpr c x op)" for op using assms by (simp add: compilable_def)
  obtain ty where ty: "from_arrow ?t = Inr ty" by (rule gen_predicate_func_ok [OF assms])
  obtain k where k: "const_from_variant E ?t (literal_value x) = Inr k"
    using assms by (auto simp: compilable_def not_isl_iff)
  have emitted: "\<exists>f. gen_predicate_func E fld (EBool (CompareExpr c x op)) = Inr f \<and>
      run_function call (Suc n) f [v] src bmp = Inr (Some (i1 (compare_values (id_of ?t) op v k)), bmp)"
    if "type_of v = ty" for v call src bmp n op
    by (rule gen_predicate_func_ok [OF comp [of op]])
      (use ty that in \<open>auto simp: is_predicate_function_def element_holds_def element_compare_def k\<close>)
  have order: "case (number i v, number i k) of
      (Some a, Some b) \<Rightarrow> (truth Op_EQ \<longleftrightarrow> a = b) \<and> (truth Op_LT \<longleftrightarrow> a < b) \<and> (truth Op_GT \<longleftrightarrow> a > b) \<and>
        (truth Op_NEQ \<longleftrightarrow> \<not> truth Op_EQ) \<and> (truth Op_LE \<longleftrightarrow> \<not> truth Op_GT) \<and> (truth Op_GE \<longleftrightarrow> \<not> truth Op_LT)
    | _ \<Rightarrow> \<forall>op. \<not> truth op" if "truth = (\<lambda>op. compare_values i op v k)" for truth i v
    unfolding that by (cases "number i v"; cases "number i k") (auto simp: compare_values_def)
  show ?thesis
    by (intro exI [of _ ty] exI [of _ k] conjI ty k allI impI)
      (rule exI, rule conjI [OF _ order [OF refl]], use emitted in blast)
qed

text \<open>A column of doubles with a NaN.\<close>

definition field_d :: field where
  "field_d = \<lparr>field_name = ''d'',
     field_type = \<lparr>id_of = DOUBLE, to_string = ''double'', bit_width = Some 64\<rparr>\<rparr>"

theorem comparison_order_witness:
  "\<exists>f. gen_predicate_func sample_third_party field_d (EBool (NEQ (col ''d'') (lit (LInt 1)))) = Inr f \<and>
     run_function (\<lambda>_ _. Inl IllFormed) 1 f [VF64 0x7FF8000000000000] [] [] = Inr (Some (i1 False), [])"
proof -
  have comp: "compilable sample_third_party field_d (CompareExpr (ColumnRef ''d'') (LiteralExpr (LInt 1)) Op_EQ)"
    by (simp add: compilable_def field_d_def const_from_variant_def type_cases arrow_typed_const_double_def)
  let ?v = "VF64 0x7FF8000000000000"
  have ty: "from_arrow (field_type field_d) = Inr TF64" by (simp add: field_d_def from_arrow_def llvm_types)
  have "\<exists>truth.
      (\<forall>op. \<exists>f. gen_predicate_func sample_third_party field_d
         (EBool (CompareExpr (ColumnRef ''d'') (LiteralExpr (LInt 1)) op)) = Inr f \<and>
         run_function (\<lambda>_ _. Inl IllFormed) (Suc 0) f [?v] [] [] = Inr (Some (i1 (truth op)), [])) \<and>
      (\<forall>op. \<not> truth op)"
    by (rule exE [OF comparison_order [OF comp]], elim exE conjE, drule spec [of _ ?v], drule spec [of _ "\<lambda>_ _. Inl IllFormed"], drule spec [of _ "[]"],
        drule spec [of _ "[]"], drule spec [of _ 0]) (simp add: ty, simp add: field_d_def fp_is_nan_def)
  then show ?thesis by (metis (full_types) NEQ_def col_def lit_def One_nat_def)
qed

text \<open>
  C30: A literal of another alternative than the column needs stops the compilation of the
  kernel with \<open>std::bad_variant_access\<close>, a comparison of another column with the failed
  assertion, and nothing is added to the JIT. Where assertions are compiled out, the comparison of
  another column leaves no result, and the module that is generated is not well-typed: its
  predicate returns nothing.
\<close>

theorem compile_errors:
  assumes "from_arrow (field_type fld) = Inr ty"
  shows "(column_name c \<noteq> field_name fld \<longrightarrow>
      (if ndebug E then \<exists>M. gen_module E fld (EBool (CompareExpr c x op)) = Inr M \<and> \<not> wt_module M
       else compile_kernel E (create_cpu fld (EBool (CompareExpr c x op))) j = Inl AssertionFailure)) \<and>
    (column_name c = field_name fld \<and>
       (if integral_case (id_of (field_type fld)) then variant_index (literal_value x) \<noteq> 0
        else variant_index (literal_value x) > 1) \<longrightarrow>
      compile_kernel E (create_cpu fld (EBool (CompareExpr c x op))) j = Inl BadVariantAccess)"
proof -
  have num: "numeric_case (id_of (field_type fld))" using assms from_arrow_numeric by blast
  have get: "variant_index v \<noteq> 0 \<Longrightarrow> get_int v = Inl BadVariantAccess" for v by (cases v) auto
  have "const_from_variant E (field_type fld) (literal_value x) = Inl BadVariantAccess"
    if "if integral_case (id_of (field_type fld)) then variant_index (literal_value x) \<noteq> 0
        else variant_index (literal_value x) > 1"
    using that num by (auto simp: const_from_variant_def get numeric_case_def split: if_splits)
  moreover have "\<exists>M. gen_module E fld (EBool (CompareExpr c x op)) = Inr M \<and> \<not> wt_module M"
    if "column_name c \<noteq> field_name fld" and "ndebug E"
  proof -
    from that assms obtain M where M: "gen_module E fld (EBool (CompareExpr c x op)) = Inr M"
      by (simp add: gen_module_def gen_predicate_func_def gen_filter_func_def gen_filter_remaining_func_def
          ir_emit_visitor_def default_visitor_def emit_compare_def initial_emit_state_def Let_def)
    with gen_module_typed [OF M] that show ?thesis by auto
  qed
  ultimately show ?thesis
    using assms by (simp add: compile_kernel_def create_cpu_def gen_module_def gen_predicate_func_def
        ir_emit_visitor_def default_visitor_def emit_compare_def)
qed

theorem compile_errors_witness:
  "compile_kernel sample_third_party (create_cpu field_a (EBool (GT (col ''a'') (lit (LDouble 0))))) sample_jit = Inl BadVariantAccess \<and>
   compile_kernel sample_third_party (create_cpu field_a (EBool (GT (col ''b'') (lit (LInt 0))))) sample_jit = Inl AssertionFailure \<and>
   (\<exists>M. gen_module (sample_third_party\<lparr>ndebug := True\<rparr>) field_a (EBool (GT (col ''b'') (lit (LInt 0)))) = Inr M \<and> \<not> wt_module M)"
proof -
  have "from_arrow (field_type field_a) = Inr TI32"
    by (simp add: from_arrow_def field_a_def int32_type_def llvm_types)
  note errors = compile_errors [OF this]
  have names: "field_name field_a = ''a''" "integral_case (id_of (field_type field_a))" "\<not> ndebug sample_third_party"
    by (simp_all add: field_a_def int32_type_def type_cases sample_third_party_def)
  show ?thesis
    using errors [of "ColumnRef ''a''" sample_third_party "LiteralExpr (LDouble 0)" Op_GT sample_jit]
      errors [of "ColumnRef ''b''" sample_third_party "LiteralExpr (LInt 0)" Op_GT sample_jit]
      errors [of "ColumnRef ''b''" "sample_third_party\<lparr>ndebug := True\<rparr>" "LiteralExpr (LInt 0)" Op_GT sample_jit]
    by (simp add: GT_def col_def lit_def names)
qed

section \<open>Running a kernel\<close>

text \<open>
  C6: A kernel that was compiled for an expression, run on an array of its column's type,
  terminates and clears exactly the bits of the rows that its expression rejects, among the rows
  of the full bytes behind the first \<open>offset\<close> elements; every other bit of the bitmap stays.
\<close>

theorem kernel_filters_full_bytes:
  assumes "third_party_ok E" and "compilable E fld e"
    and "jit_reachable E j" and "names_free E j (field_name fld)"
    and "compile_kernel E (create_cpu fld (EBool e)) j = Inr (k, j')"
    and "array_fits (field_type fld) a" and "unat offset \<le> array_length a"
    and "d = base + of_bool (offset \<noteq> 0)" and "n = (array_length a - unat offset) div 8"
    and "d + n \<le> length B"
  shows "\<exists>B'. execute_kernel E k a B base offset = Inr B' \<and> length B' = length B \<and>
    (\<forall>r < 8 * length B. bm_bit B' r \<longleftrightarrow> bm_bit B r \<and>
       (8 * d \<le> r \<and> r < 8 * (d + n) \<longrightarrow>
          element_holds E fld e (raw_element (field_type fld) a (r - 8 * d + unat offset))))"
proof -
  have k: "kernel_ready (E, k)" "k_field k = fld" "k_expr k = EBool e"
    using compile_kernel_ready [OF assms(1,2) jit_reachable_inv [OF assms(1,3)] assms(4)] assms(5) by auto
  have "kernel_row (E, k) a i = element_holds E fld e (raw_element (field_type fld) a i)" for i
    by (simp add: kernel_row_def k)
  with fk.exec_law [of "(E, k)" a offset d base n B] k assms(6-10) show ?thesis
    by (auto simp: kernel_fits_def restricts_def)
qed

lemma sample_kernel:
  obtains k j' where "compile_kernel sample_third_party (create_cpu field_a (EBool sample_compare)) sample_jit = Inr (k, j')"
  by (rule compile_kernel_ready [OF sample_third_party_ok sample_compilable sample_jit_inv]) auto

theorem kernel_filters_full_bytes_witness:
  "\<exists>k j' B'. compile_kernel sample_third_party (create_cpu field_a (EBool sample_compare)) sample_jit = Inr (k, j') \<and>
    execute_kernel sample_third_party k (int32_array [4, 5, 6, 7, 8, 9, 10, 11, 12]) [255, 255] 0 0 = Inr B' \<and> length B' = 2"
proof -
  obtain k j' where k: "compile_kernel sample_third_party (create_cpu field_a (EBool sample_compare)) sample_jit = Inr (k, j')"
    by (rule sample_kernel)
  have "\<exists>B'. execute_kernel sample_third_party k (int32_array [4, 5, 6, 7, 8, 9, 10, 11, 12]) [255, 255] 0 0 = Inr B' \<and>
      length B' = length ([255, 255] :: byte list) \<and> (\<forall>r < 8 * length ([255, 255] :: byte list).
        bm_bit B' r \<longleftrightarrow> bm_bit [255, 255] r \<and> (8 * 0 \<le> r \<and> r < 8 * (0 + 1) \<longrightarrow>
          element_holds sample_third_party field_a sample_compare
            (raw_element (field_type field_a) (int32_array [4, 5, 6, 7, 8, 9, 10, 11, 12]) (r - 8 * 0 + unat (0 :: 64 word)))))"
    by (rule kernel_filters_full_bytes [OF sample_third_party_ok sample_compilable sample_jit_reachable _ k])
      (use sample_array_fits in \<open>simp_all add: sample_jit_def field_a_def int32_array_def plain_array_def\<close>)
  with k show ?thesis by auto
qed

text \<open>
  C7: The second method handles a run of elements inside one byte in the same way: the \<open>n\<close>
  bits behind \<open>bit_offset\<close> of the byte at \<open>base\<close> are cleared for the rejected elements, from
  \<open>array_offset\<close> on.
\<close>

theorem kernel_filters_remaining_bits:
  assumes "third_party_ok E" and "compilable E fld e"
    and "jit_reachable E j" and "names_free E j (field_name fld)"
    and "compile_kernel E (create_cpu fld (EBool e)) j = Inr (k, j')"
    and "array_fits (field_type fld) a"
    and "n = unat (remaining_len (array_length a) array_offset bit_offset)"
    and "n + unat bit_offset \<le> 8" and "unat array_offset + n \<le> array_length a" and "base < length B"
    and "s = 8 * base + unat bit_offset"
  shows "\<exists>B'. execute_remaining_kernel E k a B base array_offset bit_offset = Inr B' \<and> length B' = length B \<and>
    (\<forall>r < 8 * length B. bm_bit B' r \<longleftrightarrow> bm_bit B r \<and>
       (s \<le> r \<and> r < s + n \<longrightarrow>
          element_holds E fld e (raw_element (field_type fld) a (r - s + unat array_offset))))"
proof -
  have k: "kernel_ready (E, k)" "k_field k = fld" "k_expr k = EBool e"
    using compile_kernel_ready [OF assms(1,2) jit_reachable_inv [OF assms(1,3)] assms(4)] assms(5) by auto
  have "kernel_row (E, k) a i = element_holds E fld e (raw_element (field_type fld) a i)" for i
    by (simp add: kernel_row_def k)
  with fk.exec_remaining_law [of "(E, k)" a n array_offset bit_offset base B s] k assms(6-11)
  show ?thesis by (auto simp: kernel_fits_def restricts_def)
qed

theorem kernel_filters_remaining_bits_witness:
  "\<exists>k j' B'. compile_kernel sample_third_party (create_cpu field_a (EBool sample_compare)) sample_jit = Inr (k, j') \<and>
    execute_remaining_kernel sample_third_party k (int32_array [4, 5, 6, 7, 8, 9, 10, 11, 12]) [255, 255] 0 0 3 = Inr B'"
proof -
  obtain k j' where k: "compile_kernel sample_third_party (create_cpu field_a (EBool sample_compare)) sample_jit = Inr (k, j')"
    by (rule sample_kernel)
  have "\<exists>B'. execute_remaining_kernel sample_third_party k (int32_array [4, 5, 6, 7, 8, 9, 10, 11, 12]) [255, 255] 0 0 3 = Inr B' \<and>
      length B' = length ([255, 255] :: byte list) \<and> (\<forall>r < 8 * length ([255, 255] :: byte list).
        bm_bit B' r \<longleftrightarrow> bm_bit [255, 255] r \<and> (3 \<le> r \<and> r < 3 + 5 \<longrightarrow>
          element_holds sample_third_party field_a sample_compare
            (raw_element (field_type field_a) (int32_array [4, 5, 6, 7, 8, 9, 10, 11, 12]) (r - 3 + unat (0 :: 64 word)))))"
    by (rule kernel_filters_remaining_bits [OF sample_third_party_ok sample_compilable sample_jit_reachable _ k])
      (use sample_array_fits in \<open>simp_all add: sample_jit_def field_a_def int32_array_def plain_array_def remaining_len_def\<close>)
  with k show ?thesis by auto
qed

section \<open>Misuse and limits\<close>

text \<open>
  C39: The only exceptions the two run methods of a kernel throw are their own: on a kernel that
  is not compiled \<open>KernelNotCompiledException\<close>, whatever it is run on, and on an array of a type
  without fixed width \<open>NotImplementedException\<close>. The generated code throws nothing.
\<close>

theorem kernel_exceptions:
  "(execute_kernel E k a B base offset = Inl (Thrown x) \<longleftrightarrow>
      (if k_is_compiled k then bit_width (array_type a) = None \<and>
         x = NotImplementedException ''Variable length type filtering does not implemented yet''
       else x = KernelNotCompiledException)) \<and>
   (execute_remaining_kernel E k a B base array_offset bit_offset = Inl (Thrown x) \<longleftrightarrow>
      (if k_is_compiled k then bit_width (array_type a) = None \<and>
         x = NotImplementedException ''Variable length type filtering does not implemented yet''
       else x = KernelNotCompiledException))"
proof -
  have quiet: "not_thrown (bindE (deref buf) (\<lambda>buf. bindE (deref f) (\<lambda>func. call_compiled E func (args buf) buf B)))"
    for buf f args
    by (cases buf; cases f) (auto simp: call_compiled_not_thrown)
  show ?thesis
    using quiet by (cases "bit_width (array_type a)")
      (auto simp: execute_kernel_def execute_remaining_kernel_def not_thrown_def)
qed

text \<open>
  C19: The length of a chunk is cut to eight bits before the first elements of the chunk are
  filtered: for a chunk whose length is a multiple of 256 the call that should filter the head
  of the chunk leaves the bitmap as it is.
\<close>

theorem head_of_multiple_of_256_unfiltered:
  assumes "third_party_ok E" and "compilable E fld e"
    and "jit_reachable E j" and "names_free E j (field_name fld)"
    and "compile_kernel E (create_cpu fld (EBool e)) j = Inr (k, j')"
    and "array_fits (field_type fld) a" and "array_length a mod 256 = 0"
    and "unat bit_offset \<le> 8" and "base < length B"
  shows "execute_remaining_kernel E k a B base 0 bit_offset = Inr B"
proof -
  have k: "kernel_ready (E, k)" "k_field k = fld"
    using compile_kernel_ready [OF assms(1,2) jit_reachable_inv [OF assms(1,3)] assms(4)] assms(5) by auto
  have "(ucast (of_nat (array_length a) :: 64 word) :: 8 word) = of_nat (array_length a)"
    by (simp add: uint_eq_iff [symmetric] unsigned_ucast_eq unsigned_of_nat)
  also have "\<dots> = 0" using assms(7) by (simp add: word_of_nat_eq_0_iff dvd_eq_mod_eq_0)
  finally have "remaining_len (array_length a) 0 bit_offset = 0"
    by (simp add: remaining_len_def)
  with execute_remaining_kernel_law [of E k a 0 0 bit_offset base B] k assms(6,8,9)
  show ?thesis by simp
qed

lemma length_int32_bytes: "length (concat (map (\<lambda>v. [v, 0, 0, 0 :: byte]) vs)) = 4 * length vs"
  by (induction vs) auto

lemma array_256_fits: "array_fits int32_type (int32_array (replicate 256 1))"
  unfolding array_fits_def int32_array_def plain_array_def int32_type_def
  by (simp add: length_int32_bytes del: map_replicate)

theorem head_of_multiple_of_256_unfiltered_witness:
  "\<exists>k j'. compile_kernel sample_third_party (create_cpu field_a (EBool sample_compare)) sample_jit = Inr (k, j') \<and>
    execute_remaining_kernel sample_third_party k (int32_array (replicate 256 1)) [255, 255] 0 0 1 = Inr [255, 255]"
proof -
  obtain k j' where k: "compile_kernel sample_third_party (create_cpu field_a (EBool sample_compare)) sample_jit = Inr (k, j')"
    by (rule sample_kernel)
  have "execute_remaining_kernel sample_third_party k (int32_array (replicate 256 1)) [255, 255] 0 0 1 = Inr [255, 255]"
    by (rule head_of_multiple_of_256_unfiltered [OF sample_third_party_ok sample_compilable sample_jit_reachable _ k])
      (use array_256_fits in \<open>simp_all add: sample_jit_def field_a_def int32_array_def plain_array_def\<close>)
  with k show ?thesis by blast
qed

end
