(* ===== verification/Execution_Properties.thy ===== *)
theory Execution_Properties
  imports Kernel_Properties
begin

text \<open>
  The properties of \<^verbatim>\<open>pefa/execution\<close>: contexts, projection, the filter bitmap and its
  materialisation, and the inputs on which they fail or ignore what they are given.
\<close>

section \<open>Bitmaps\<close>

text \<open>
  C8: For every expression whose comparisons fit the table, \<open>generate_filter_bitmap\<close>
  returns a context of the same table whose bitmap has bit \<open>r\<close> set exactly when the expression
  holds in row \<open>r\<close>; the kernels it compiled are gone from the JIT.
\<close>

theorem filter_bitmap_correct:
  assumes "third_party_ok E" and "evaluable E (ctx_table ctx) e" and "symbols_free E j e" and "jit_inv E j"
    and "table_supported (ctx_table ctx)" and "columns (ctx_table ctx) \<noteq> []"
    and "chunks (hd (columns (ctx_table ctx))) \<noteq> []"
  shows "\<exists>ctx' j' B. generate_filter_bitmap E ctx e j = Inr (ctx', j') \<and> ctx_table ctx' = ctx_table ctx \<and>
    filter_bitmap (ctx_metadata ctx') = Some B \<and> length B = (num_rows (ctx_table ctx) + 7) div 8 \<and>
    (\<forall>r < num_rows (ctx_table ctx). bm_bit B r \<longleftrightarrow> row_holds E (ctx_table ctx) e r) \<and>
    layer_modules j' = layer_modules j"
  by (rule generate_filter_bitmap_rows [OF assms]) (auto simp: bitmap_of_def)

lemma sample_evaluable: "evaluable sample_third_party sample_table sample_expr"
  by (rule table_evaluable [OF sample_third_party_ok sample_table_ok sample_expr_ok])

lemma sample_table_sel:
  "table_supported sample_table" "columns sample_table \<noteq> []" "chunks (hd (columns sample_table)) \<noteq> []"
  using table_ok_columns(4) [OF sample_table_ok]
  by (simp_all add: sample_table_def sample_column_def)

theorem filter_bitmap_correct_witness:
  "\<exists>ctx' j' B. generate_filter_bitmap sample_third_party (context_of sample_table) sample_expr sample_jit = Inr (ctx', j') \<and>
    filter_bitmap (ctx_metadata ctx') = Some B \<and> length B = 2"
proof -
  have "ctx_table (context_of sample_table) = sample_table" "num_rows sample_table = 9"
    by (simp_all add: context_of_def sample_table_def)
  with filter_bitmap_correct [OF sample_third_party_ok, of "context_of sample_table" sample_expr sample_jit]
  show ?thesis using sample_evaluable sample_table_sel symbols_free_sample_jit sample_jit_inv by auto
qed

text \<open>
  C9: The two passes over the chunks of a column call the kernel within its bounds and filter
  every row exactly as its expression says, provided a chunk that starts inside a byte of
  the bitmap holds the rest of that byte; the bits behind the last row stay.
\<close>

theorem passes_filter_column:
  assumes "third_party_ok E" and "compilable E fld e"
    and "jit_reachable E j" and "names_free E j (field_name fld)"
    and "compile_kernel E (create_cpu fld (EBool e)) j = Inr (k, j')"
    and "\<forall>a \<in> set cs. array_fits (field_type fld) a" and "layout_ok cs" and "total_rows cs < 2 ^ 57"
    and "total_rows cs \<le> 8 * length B"
  shows "\<exists>B1 B2. main_pass (execute_kernel E k) cs B = Inr B1 \<and>
    remaining_pass (execute_remaining_kernel E k) cs B1 = Inr B2 \<and> length B2 = length B \<and>
    (\<forall>r < 8 * length B. bm_bit B2 r \<longleftrightarrow> bm_bit B r \<and>
       (r < total_rows cs \<longrightarrow> element_holds E fld e (chunk_rows (raw_element (field_type fld)) cs ! r)))"
proof -
  have k: "kernel_ready (E, k)" "k_field k = fld" "k_expr k = EBool e"
    using compile_kernel_ready [OF assms(1,2) jit_reachable_inv [OF assms(1,3)] assms(4)] assms(5) by auto
  have row: "kernel_row (E, k) = (\<lambda>a i. element_holds E fld e (raw_element (field_type fld) a i))"
    by (simp add: kernel_row_def k fun_eq_iff)
  have rows: "chunk_rows (kernel_row (E, k)) cs ! r =
      element_holds E fld e (chunk_rows (raw_element (field_type fld)) cs ! r)" if "r < total_rows cs" for r
    using that chunk_rows_map [of "element_holds E fld e" "raw_element (field_type fld)" cs] by (simp add: row)
  from fk.filter_column_ok [of "(E, k)" cs B] k assms(6-9) obtain B1 B2 where
    "main_pass (execute_kernel E k) cs B = Inr B1" "remaining_pass (execute_remaining_kernel E k) cs B1 = Inr B2"
    "restricts B B2 {0 ..< total_rows cs} (\<lambda>r. chunk_rows (kernel_row (E, k)) cs ! r)"
    by (auto simp: kernel_fits_def)
  with rows show ?thesis by (auto simp: restricts_def)
qed

theorem passes_filter_column_witness:
  "\<exists>k j' B1 B2. compile_kernel sample_third_party (create_cpu field_a (EBool sample_compare)) sample_jit = Inr (k, j') \<and>
    main_pass (execute_kernel sample_third_party k) (chunks sample_column) [255, 255] = Inr B1 \<and>
    remaining_pass (execute_remaining_kernel sample_third_party k) (chunks sample_column) B1 = Inr B2"
proof -
  obtain k j' where k: "compile_kernel sample_third_party (create_cpu field_a (EBool sample_compare)) sample_jit = Inr (k, j')"
    by (rule sample_kernel)
  have "\<forall>a \<in> set (chunks sample_column). array_fits (field_type field_a) a" "total_rows (chunks sample_column) = 9"
    using sample_fits(1) by (simp_all add: column_fits_def field_a_def sample_column_def)
  with passes_filter_column [OF sample_third_party_ok sample_compilable sample_jit_reachable _ k, of "chunks sample_column" "[255, 255]"]
    sample_layout(1) k show ?thesis by fastforce
qed

text \<open>
  C18: Every comparison on a column with a chunk that starts inside a byte of the bitmap and is
  shorter than the rest of that byte runs out of bounds: the offset handed to the kernel is
  larger than the chunk, the length that is left wraps around, and the compiled loop goes on until
  it leaves the chunk's buffer or the bitmap.
\<close>

theorem short_chunks_out_of_bounds:
  assumes "third_party_ok E" and "jit_reachable E j" and "names_free E j (column_name c)"
    and "GetFieldByName E (ctx_table ctx) (column_name c) = Some fld"
    and "GetColumnByName E (ctx_table ctx) (column_name c) = Some column"
    and "numeric_case (id_of (field_type fld))"
    and "\<not> isl (const_from_variant E (field_type fld) (literal_value x))"
    and "\<forall>a \<in> set (chunks column). array_fits (field_type fld) a"
    and "total_rows (chunks column) = num_rows (ctx_table ctx)" and "num_rows (ctx_table ctx) < 2 ^ 57"
    and "n < length (chunks column)" and "chunk_start (chunks column) n mod 8 \<noteq> 0"
    and "array_length (chunks column ! n) < 8 - chunk_start (chunks column) n mod 8"
    and "columns (ctx_table ctx) \<noteq> []" and "chunks (columns (ctx_table ctx) ! 0) \<noteq> []"
  shows "generate_filter_bitmap E ctx (CompareExpr c x op) j = Inl OutOfBounds"
proof -
  let ?t = "ctx_table ctx" and ?e = "CompareExpr c x op" and ?cs = "chunks column"
  have name: "field_name fld = column_name c" by (rule GetFieldByName_name [OF assms(1,4)])
  with assms(6,7) have comp: "compilable E fld ?e" by (simp add: compilable_def)
  from assms(3) name have free: "names_free E j (field_name fld)" by simp
  obtain k j' where k: "compile_kernel E (create_cpu fld (EBool ?e)) j = Inr (k, j')"
    "kernel_ready (E, k)" "k_field k = fld"
    by (rule compile_kernel_ready [OF assms(1) comp jit_reachable_inv [OF assms(1,2)] free]) blast
  define B where "B = replicate (length (allocate_bitmap E (num_rows ?t))) (255 :: byte)"
  have B: "length B = (num_rows ?t + 7) div 8" by (simp add: B_def third_party_okD(1) [OF assms(1)])
  have "\<not> head_fits ?cs n" using assms(12,13) by (simp add: head_fits_def)
  then have "\<exists>n < length ?cs. \<not> head_fits ?cs n" using assms(11) by blast
  then have "main_pass (execute_kernel E k) ?cs B = Inl OutOfBounds"
    using fk.main_pass_overrun [of "(E, k)" ?cs B] k assms(8-10) B by (simp add: kernel_fits_def)
  then show ?thesis
    using assms(4,5,14,15) k(1)
    by (simp add: generate_filter_bitmap_def Let_def filter_expr_executor_def execute_compare_def
        initial_executor_def B_def)
qed

definition short_chunks :: table where
  "short_chunks = \<lparr>schema = [field_a],
     columns = [\<lparr>chunked_type = int32_type, chunks = [int32_array [1], int32_array [1]]\<rparr>], num_rows = 2\<rparr>"

theorem short_chunks_out_of_bounds_witness:
  "generate_filter_bitmap sample_third_party (context_of short_chunks)
     (CompareExpr (ColumnRef ''a'') (LiteralExpr (LInt 2)) Op_GT) sample_jit = Inl OutOfBounds"
proof (rule short_chunks_out_of_bounds [OF sample_third_party_ok sample_jit_reachable, where n = 1 and fld = field_a
      and column = "\<lparr>chunked_type = int32_type, chunks = [int32_array [1], int32_array [1]]\<rparr>"])
  show "GetFieldByName sample_third_party (ctx_table (context_of short_chunks)) (column_name (ColumnRef ''a'')) = Some field_a"
    "GetColumnByName sample_third_party (ctx_table (context_of short_chunks)) (column_name (ColumnRef ''a'')) =
      Some \<lparr>chunked_type = int32_type, chunks = [int32_array [1], int32_array [1]]\<rparr>"
    by (simp_all add: GetFieldByName_def GetColumnByName_def context_of_def short_chunks_def
        sample_third_party_def field_a_def)
qed (simp_all add: context_of_def short_chunks_def field_a_def int32_type_def int32_array_def plain_array_def
    type_cases const_from_variant_def arrow_typed_const_int_def array_fits_def total_rows_def chunk_start_def)

section \<open>Constants in expressions\<close>

text \<open>
  C25: A constant on the right of \<open>AND\<close> or \<open>OR\<close> is ignored: the visitor does not override the
  method for constants, the two buffers it joins are the same one, and the bitmap is that of the
  left operand, also for \<open>AND false\<close> and \<open>OR true\<close>.
\<close>

theorem right_constant_ignored:
  assumes "third_party_ok E" and "evaluable E t e" and "symbols_free E j e" and "jit_inv E j"
  shows "\<exists>s B. accept (filter_expr_executor E t) (PredicateExpr e (BooleanConst b) op) (initial_executor j) = Inr s \<and>
    executor_result s = Some B \<and> (\<forall>r < num_rows t. bm_bit B r \<longleftrightarrow> row_holds E t e r)"
proof -
  obtain s a where s: "accept (filter_expr_executor E t) e (initial_executor j) = Inr s"
    "m_buffer s = Some a" "a < length (buffers s)" "bitmap_of t (row_holds E t e) (buffers s ! a)"
    using filter_expr_executor_ok [OF assms(1,2), of "initial_executor j"] assms(3,4)
    by (auto simp: initial_executor_def evaluates_def)
  have "foldE (combine_byte op a a) [0..<length (buffers s ! a)] (buffers s) = Inr (buffers s)"
    by (rule combine_same [OF s(3) order_refl])
  moreover have "visit_const (filter_expr_executor E t) b s = Inr s"
    by (simp add: filter_expr_executor_def default_visitor_def)
  ultimately have "execute_predicate (accept (filter_expr_executor E t) e)
      (visit_const (filter_expr_executor E t) b) op (initial_executor j) = Inr s"
    using s(1,2) by (simp add: execute_predicate_def)
  then have "accept (filter_expr_executor E t) (PredicateExpr e (BooleanConst b) op) (initial_executor j) = Inr s"
    by (simp add: filter_expr_executor_def)
  with s show ?thesis by (auto simp: executor_result_def bitmap_of_def)
qed

theorem right_constant_ignored_witness:
  "\<exists>s B. accept (filter_expr_executor sample_third_party sample_table)
      (AND_expr sample_expr (BooleanConst False)) (initial_executor sample_jit) = Inr s \<and> executor_result s = Some B"
  using right_constant_ignored [OF sample_third_party_ok sample_evaluable symbols_free_sample_jit sample_jit_inv, of False Op_AND]
  unfolding AND_expr_def by blast

text \<open>
  C28: A filter by a constant alone computes no bitmap, so the materialisation that follows it
  throws \<open>UnreachableException\<close>, for \<open>true\<close> as for \<open>false\<close>.
\<close>

theorem constant_filter_throws:
  assumes "table_supported (ctx_table ctx)" 
  shows "foldE (execute_op E) [OpFilter (BooleanConst b), OpMaterialize] (ctx, j) =
    Inl (Thrown UnreachableException)"
proof -
  obtain res where res: "new_context (ctx_table ctx) = Inr res" "filter_bitmap (ctx_metadata res) = None"
    by (rule new_context_ok [OF assms])
  then have "\<exists>ctx'. generate_filter_bitmap E ctx (BooleanConst b) j = Inr (ctx', j) \<and>
      filter_bitmap (ctx_metadata ctx') = None"
    by (simp add: generate_filter_bitmap_def Let_def filter_expr_executor_def default_visitor_def
        initial_executor_def executor_result_def)
  then show ?thesis by (auto simp: execute_op_def materialize_filter_def)
qed

theorem constant_filter_throws_witness:
  "foldE (execute_op sample_third_party) [OpFilter (BooleanConst True), OpMaterialize]
     (context_of sample_table, sample_jit) = Inl (Thrown UnreachableException)"
  by (rule constant_filter_throws) (simp add: context_of_def sample_table_sel)

section \<open>Materialisation\<close>

text \<open>
  C10: Materialising a column returns: the loops end, every access is inside its buffer, the
  rows of the new column are the rows whose bit is set, in their order, the chunks are full
  except for the last one, and the kernel can run on them again.
\<close>

theorem materialize_column_correct:
  assumes "third_party_ok E" and "sized_column w (chunks column)"
    and "total_rows (chunks column) \<le> 8 * length bm"
  shows "\<exists>c'. materialize_column E w column bm = Inr c' \<and> chunked_type c' = chunked_type column \<and>
    chunk_rows (byte_rows w) (chunks c') =
      map (column_bytes w (chunks column)) (filter (bm_bit bm) [0..<total_rows (chunks column)]) \<and>
    chunks c' \<noteq> [] \<and> (\<forall>a \<in> set (butlast (chunks c')). array_length a = 16384) \<and> layout_ok (chunks c')"
proof -
  obtain as where "materialize_column E w column bm = Inr \<lparr>chunked_type = chunked_type column, chunks = as\<rparr>"
    "as \<noteq> []" "\<forall>a \<in> set (butlast as). array_length a = chunk_size"
    "chunk_rows (byte_rows w) as = selected (column_bytes w (chunks column)) bm 0 (total_rows (chunks column))"
    by (rule materialize_column_ok [OF assms])
  then show ?thesis using full_chunks_layout [of as] by (simp add: selected_def) (simp add: chunk_size_eq)
qed

theorem materialize_column_correct_witness:
  "\<exists>c'. materialize_column sample_third_party 4 sample_column [170, 128] = Inr c' \<and>
    chunk_rows (byte_rows 4) (chunks c') =
      map (column_bytes 4 (chunks sample_column)) (filter (bm_bit [170, 128]) [0..<9])"
proof -
  have "total_rows (chunks sample_column) = 9" using sample_fits(1) by (simp add: column_fits_def)
  moreover have "column_width sample_column = 4"
    by (simp add: column_width_def sample_column_def int32_type_def materialize_size_def)
  ultimately show ?thesis
    using materialize_column_correct [OF sample_third_party_ok, of 4 sample_column "[170, 128]"]
      column_fits_sized [OF sample_fits(1)] by auto
qed

text \<open>
  C38: A column of a type that the context accepts but the switch of \<open>materialize_filter\<close> has
  no case for (strings, booleans, nulls) cannot be materialised: the exception names the
  type of the first such column.
\<close>

theorem materialize_unsupported_throws:
  assumes "third_party_ok E" and "filter_bitmap (ctx_metadata ctx) = Some bm"
    and "columns (ctx_table ctx) = cs1 @ c # cs2" and "\<forall>c' \<in> set cs1. column_fits n c'"
    and "n < 2 ^ 31" and "n \<le> 8 * length bm" and "materialize_size (id_of (chunked_type c)) = None"
  shows "materialize_filter E ctx =
    throw_not_implemented (''Type '' @ to_string (chunked_type c) @ '' is not supported yet'')"
proof -
  have "mapE (materialize_typed E bm) (cs1 @ c # cs2) =
      throw_not_implemented (''Type '' @ to_string (chunked_type c) @ '' is not supported yet'')"
    using assms(4)
  proof (induction cs1)
    case (Cons c' cs1)
    then obtain c'' where "materialize_typed E bm c' = Inr c''"
      using materialize_typed_ok [OF assms(1) _ assms(5,6), of c'] by auto
    with Cons show ?case by simp
  qed (simp add: materialize_typed_size assms(7))
  with assms(2,3) show ?thesis by (simp add: materialize_filter_def)
qed

theorem materialize_unsupported_throws_witness:
  "materialize_filter sample_third_party
     \<lparr>ctx_table = \<lparr>schema = [field_a, \<lparr>field_name = ''s'', field_type = string_type\<rparr>],
        columns = [sample_column, \<lparr>chunked_type = string_type, chunks = []\<rparr>], num_rows = 9\<rparr>,
      ctx_metadata = \<lparr>metadata_columns = [], filter_bitmap = Some [255, 255]\<rparr>\<rparr> =
    throw_not_implemented ''Type string is not supported yet''"
  (is "materialize_filter _ ?ctx = _")
proof -
  have "filter_bitmap (ctx_metadata ?ctx) = Some [255, 255]"
    "columns (ctx_table ?ctx) = [sample_column] @ \<lparr>chunked_type = string_type, chunks = []\<rparr> # []"
    by simp_all
  from materialize_unsupported_throws [OF sample_third_party_ok this, of 9] sample_fits(1)
  show ?thesis by (simp add: materialize_size_def string_type_def)
qed

section \<open>Contexts and projection\<close>

text \<open>
  C32: A context can be built exactly when every column that has chunks is of a type with
  metadata; then its metadata has the shape of the table and no bitmap, otherwise the
  exception names the type of a column of the table.
\<close>

theorem context_construction:
  "if table_supported t
   then \<exists>ctx. new_context t = Inr ctx \<and> ctx_table ctx = t \<and> filter_bitmap (ctx_metadata ctx) = None \<and>
     map (length \<circ> metadata_chunks) (metadata_columns (ctx_metadata ctx)) = map (length \<circ> chunks) (columns t)
   else \<exists>c \<in> set (columns t). \<not> supported_type (id_of (chunked_type c)) \<and>
     new_context t = throw_not_implemented (to_string (chunked_type c) @ '' type does not supported yet'')"
proof (cases "table_supported t")
  case True
  then show ?thesis by (auto elim: new_context_ok)
next
  case False
  then obtain cs1 c cs2 where split: "columns t = cs1 @ c # cs2" "\<not> column_supported c"
    "\<forall>c' \<in> set cs1. column_supported c'"
    using split_list_first_prop [of "columns t" "\<lambda>c. \<not> column_supported c"] by (auto simp: table_supported_def)
  have "mapE create_column_metadata (cs1 @ c # cs2) =
      throw_not_implemented (to_string (chunked_type c) @ '' type does not supported yet'')"
    using split(3)
  proof (induction cs1)
    case (Cons c' cs1)
    then show ?case using create_column_metadata_ok [of c'] by auto
  qed (simp add: create_column_metadata_error [OF split(2)])
  with False split(1,2) show ?thesis by (auto simp: new_context_def column_supported_def)
qed

text \<open>
  C29: A projection to columns that exist returns them, unchanged and in the order asked for,
  under the names asked for; a column that does not exist, or whose name two fields share, is
  dereferenced as a null pointer.
\<close>

theorem project_columns:
  "if \<exists>n \<in> set names. GetColumnByName E (ctx_table ctx) n = None
   then project E ctx names = Inl NullPointer
   else (\<forall>n \<in> set names. column_supported (the (GetColumnByName E (ctx_table ctx) n))) \<longrightarrow>
     (\<exists>ctx'. project E ctx names = Inr ctx' \<and> filter_bitmap (ctx_metadata ctx') = None \<and>
        map field_name (schema (ctx_table ctx')) = names \<and>
        columns (ctx_table ctx') = map (\<lambda>n. the (GetColumnByName E (ctx_table ctx) n)) names)"
proof (cases "\<exists>n \<in> set names. GetColumnByName E (ctx_table ctx) n = None")
  case True
  then have "mapE (project_column E (ctx_table ctx)) names = Inl NullPointer"
  proof (induction names)
    case (Cons n names)
    then show ?case by (cases "GetColumnByName E (ctx_table ctx) n") (auto simp: project_column_def)
  qed simp
  with True show ?thesis by (simp add: project_def)
next
  case False
  let ?c = "\<lambda>n. the (GetColumnByName E (ctx_table ctx) n)"
  have "mapE (project_column E (ctx_table ctx)) names =
      Inr (map (\<lambda>n. (\<lparr>field_name = n, field_type = chunked_type (?c n)\<rparr>, ?c n)) names)"
    by (rule mapE_all_Inr) (use False in \<open>auto simp: project_column_def\<close>)
  then have run: "project E ctx names = new_context (make_table E
      (map (\<lambda>n. \<lparr>field_name = n, field_type = chunked_type (?c n)\<rparr>) names) (map ?c names))"
    by (simp add: project_def comp_def)
  have "\<exists>ctx'. project E ctx names = Inr ctx' \<and> filter_bitmap (ctx_metadata ctx') = None \<and>
      map field_name (schema (ctx_table ctx')) = names \<and> columns (ctx_table ctx') = map ?c names"
    if "\<forall>n \<in> set names. column_supported (?c n)"
    unfolding run
    by (rule new_context_ok [of "make_table E
        (map (\<lambda>n. \<lparr>field_name = n, field_type = chunked_type (?c n)\<rparr>) names) (map ?c names)"])
      (use that in \<open>auto simp: table_supported_def make_table_def comp_def\<close>)
  with False show ?thesis by (auto simp del: not_None_eq)
qed

theorem project_columns_witness:
  "\<exists>ctx'. project sample_third_party (context_of sample_table) [''b''] = Inr ctx' \<and>
    columns (ctx_table ctx') = [sample_bytes]"
proof -
  have "GetColumnByName sample_third_party (ctx_table (context_of sample_table)) ''b'' = Some sample_bytes"
    by (simp add: GetColumnByName_def context_of_def sample_third_party_def sample_table_def
        field_a_def field_b_def)
  moreover have "column_supported sample_bytes"
    by (simp add: column_supported_def supported_type_def sample_bytes_def uint8_type_def)
  ultimately show ?thesis
    using project_columns [of "[''b'']" sample_third_party "context_of sample_table"] by auto
qed

section \<open>Slices and null values\<close>

definition unsliced :: "array \<Rightarrow> array" where
  "unsliced a = a\<lparr>slice_offset := 0, validity_buffer := None\<rparr>"

lemma unsliced_sel [simp]:
  "array_type (unsliced a) = array_type a" "array_length (unsliced a) = array_length a"
  "data_buffer (unsliced a) = data_buffer a" "data_mutable (unsliced a) = data_mutable a"
  by (simp_all add: unsliced_def)

lemma total_rows_unsliced [simp]: "total_rows (map unsliced cs) = total_rows cs"
  by (simp add: total_rows_def comp_def)

lemma fill_step_unsliced: "fill_step w bm (map unsliced cs) s = fill_step w bm cs s"
  by (simp add: fill_step_def Let_def)

lemma fill_chunk_unsliced: "fill_chunk fuel w bm (map unsliced cs) s = fill_chunk fuel w bm cs s"
proof (induction fuel arbitrary: s)
  case (Suc fuel)
  then have "fill_chunk fuel w bm (map unsliced cs) = fill_chunk fuel w bm cs" by (intro ext)
  then show ?case by (simp add: fill_step_unsliced)
qed simp

lemma materialize_chunks_unsliced:
  "materialize_chunks fuel E typ w bm (map unsliced cs) s as = materialize_chunks fuel E typ w bm cs s as"
proof (induction fuel arbitrary: s as)
  case (Suc fuel)
  then show ?case by (simp add: fill_chunk_unsliced Let_def del: fill_chunk.simps cong: if_cong)
qed simp

text \<open>
  C35: The kernel and the materialisation read neither the offset of an array nor its validity
  bitmap: the results are those for the array that starts at the beginning of the buffers and
  has no nulls, so a slice is read from the wrong rows and a null takes part in comparisons.
\<close>

theorem slices_and_nulls_ignored:
  "execute_kernel E k (unsliced a) B base offset = execute_kernel E k a B base offset \<and>
   execute_remaining_kernel E k (unsliced a) B base array_offset bit_offset =
     execute_remaining_kernel E k a B base array_offset bit_offset \<and>
   materialize_column E w \<lparr>chunked_type = typ, chunks = map unsliced cs\<rparr> bm =
     materialize_column E w \<lparr>chunked_type = typ, chunks = cs\<rparr> bm"
  unfolding execute_kernel_def execute_remaining_kernel_def materialize_column_def unsliced_sel
  by (simp add: materialize_chunks_unsliced del: materialize_chunks.simps)

end
