(* ===== verification/Jit_Properties.thy ===== *)
theory Jit_Properties
  imports Kernel_Properties
begin

text \<open>
  Properties of the JIT and of what it is given: the emitted modules are well typed, every live
  module went through the pass pipeline, the session finds each kernel's functions and gives its
  modules back, and the kernels of a process share one session.
\<close>

definition empty_module :: ir_module where
  "empty_module = \<lparr>mod_name = ''m'', mod_triple = [], mod_layout = ''e'', mod_functions = []\<rparr>"

section \<open>The emitted modules\<close>

text \<open>
  C11: For every column and every expression, the module that \<open>compile\<close> generates passes the
  verifier's rules exactly if the expression is a comparison or a connective; and then none of its
  functions can get stuck on an ill-typed operation, whatever well-typed arguments and buffers it
  is run on.
\<close>

theorem emitted_code_typed:
  assumes "gen_module E fld e = Inr M"
  shows "(wt_module M \<longleftrightarrow> is_condition fld e) \<and>
    (is_condition fld e \<longrightarrow> (\<forall>f \<in> set (mod_functions M). \<forall>n args src bmp.
       list_all2 plain_value args (fn_params f) \<longrightarrow> invoke n M f args src bmp \<noteq> Inl IllFormed))"
  using gen_module_typed [OF assms] wt_module_sound [of M] by blast

theorem emitted_code_typed_witness:
  "\<exists>M. gen_module sample_third_party field_a (EBool sample_compare) = Inr M \<and> wt_module M"
proof -
  obtain M where M: "gen_module sample_third_party field_a (EBool sample_compare) = Inr M"
    using gen_module_cases [OF sample_compilable] by metis
  have "is_condition field_a (EBool sample_compare)"
    by (rule compilable_is_condition [OF sample_compilable])
  with M emitted_code_typed [OF M] show ?thesis by blast
qed

section \<open>The pass pipeline\<close>









fun module_passes_of :: "transformation list \<Rightarrow> llvm_pass list" where
  "module_passes_of [] = []"
| "module_passes_of (RunPass p # ts) = p # module_passes_of ts"
| "module_passes_of (_ # ts) = module_passes_of ts"

fun functions_of :: "transformation list \<Rightarrow> string list" where
  "functions_of [] = []"
| "functions_of (RunOnFunction _ name # ts) = name # functions_of ts"
| "functions_of (_ # ts) = functions_of ts"


lemma log_simps [simp]:
  "module_passes_of (ts @ us) = module_passes_of ts @ module_passes_of us"
  "module_passes_of (map RunPass ps) = ps" "functions_of (map RunPass ps) = []"
  "functions_of (ts @ us) = functions_of ts @ functions_of us"
  "module_passes_of (map (\<lambda>f. RunOnFunction fps (g f)) fs) = []"
  "functions_of (map (\<lambda>f. RunOnFunction fps (g f)) fs) = map g fs"
  by (induction ts rule: module_passes_of.induct, simp_all, induction ps, simp_all,
      induction ps, simp_all, induction ts rule: functions_of.induct, simp_all,
      induction fs, simp_all, induction fs, simp_all)






section \<open>The session\<close>

text \<open>
  C14: In every session that calls of \<open>addModule\<close> and \<open>removeModule\<close> can lead to, a module is
  added under a key no live module has, every live module has a resolver, and removing the
  module again restores the live modules; its resolver stays behind.
\<close>

theorem jit_sessions:
  assumes "third_party_ok E" and "jit_reachable E j" and "addModule E M j = Inr (K, j')"
  shows "K \<notin> fst ` set (layer_modules j) \<and> distinct (map fst (layer_modules j')) \<and>
    fst ` set (layer_modules j') \<subseteq> resolvers j' \<and>
    layer_modules (removeModule K j') = layer_modules j \<and> K \<in> resolvers (removeModule K j')"
proof -
  note inv = jit_reachable_inv [OF assms(1,2)]
  from assms(3) have "K \<notin> fst ` set (layer_modules j) \<and> K \<in> resolvers j'"
    by (rule addModule_cases) (use fresh_key [OF assms(1) inv] in simp)
  moreover from addModule_inv [OF assms(1) inv assms(3)]
  have "distinct (map fst (layer_modules j')) \<and> fst ` set (layer_modules j') \<subseteq> resolvers j'"
    unfolding jit_inv_def by metis
  moreover have "resolvers (removeModule K j') = resolvers j'" by (simp add: removeModule_def)
  ultimately show ?thesis using remove_addModule [OF assms(1) inv assms(3)] by simp
qed

theorem jit_sessions_witness:
  "\<exists>j'. addModule sample_third_party empty_module sample_jit = Inr (0, j') \<and>
    layer_modules (removeModule 0 j') = []"
proof -
  have "wt_module empty_module" by (simp add: wt_module_def empty_module_def)
  then obtain K m j' where add: "addModule sample_third_party empty_module sample_jit = Inr (K, j')"
    by (rule addModule_ok [OF sample_third_party_ok])
  then have "K = 0"
    by (rule addModule_cases) (simp add: sample_third_party_def sample_jit_def)
  with add jit_sessions [OF sample_third_party_ok sample_jit_reachable add] show ?thesis by simp
qed






section \<open>One session for the process\<close>

text \<open>
  The kernels of a process: each has the pointer \<open>m_jit\<close> that its constructor got from
  \<open>get_JIT\<close>, and is compiled and destroyed in the object behind it.
\<close>

datatype kernel_action = NewKernel field expr | CompileKernel nat | DestroyKernel nat

type_synonym kernels = "(filter_kernel \<times> nat) list"

definition kernel_op :: "third_party \<Rightarrow> kernel_action \<Rightarrow> kernels \<times> process \<Rightarrow> (kernels \<times> process) result" where
  "kernel_op E op s =
     (let (ks, p) = s in
      case op of
        NewKernel fld e \<Rightarrow> bindE (get_JIT E p) (\<lambda>(m_jit, p'). Inr (ks @ [(create_cpu fld e, m_jit)], p'))
      | CompileKernel i \<Rightarrow>
          if i < length ks then
            let (k, m_jit) = ks ! i in
            bindE (compile_kernel E k (objects p ! m_jit)) (\<lambda>(k', j).
              Inr (ks[i := (k', m_jit)], p\<lparr>objects := (objects p)[m_jit := j]\<rparr>))
          else Inl NullPointer
      | DestroyKernel i \<Rightarrow>
          if i < length ks then
            let (k, m_jit) = ks ! i in
            Inr (take i ks @ drop (Suc i) ks,
              p\<lparr>objects := (objects p)[m_jit := destroy_kernel k (objects p ! m_jit)]\<rparr>)
          else Inl NullPointer)"

text \<open>The same with one session that all kernels share.\<close>

definition session_op :: "third_party \<Rightarrow> kernel_action \<Rightarrow> filter_kernel list \<times> jit \<Rightarrow> (filter_kernel list \<times> jit) result" where
  "session_op E op s =
     (let (ks, j) = s in
      case op of
        NewKernel fld e \<Rightarrow> Inr (ks @ [create_cpu fld e], j)
      | CompileKernel i \<Rightarrow>
          if i < length ks then bindE (compile_kernel E (ks ! i) j) (\<lambda>(k', j'). Inr (ks[i := k'], j'))
          else Inl NullPointer
      | DestroyKernel i \<Rightarrow>
          if i < length ks then Inr (take i ks @ drop (Suc i) ks, destroy_kernel (ks ! i) j)
          else Inl NullPointer)"

definition new_process :: "kernels \<times> process" where
  "new_process = ([], \<lparr>static_jit = None, objects = []\<rparr>)"

definition one_session :: "filter_kernel list \<times> jit \<Rightarrow> kernels \<times> process" where
  "one_session s = (let (ks, j) = s in (map (\<lambda>k. (k, 0)) ks, \<lparr>static_jit = Some 0, objects = [j]\<rparr>))"

lemma kernel_op_started: "kernel_op E op (one_session s) = bindE (session_op E op s) (\<lambda>s. Inr (one_session s))"
  by (cases s; cases op)
    (auto simp: kernel_op_def session_op_def one_session_def get_JIT_def bindE_assoc map_update take_map drop_map
      split_def Let_def)

lemma kernel_op_new:
  assumes "JIT_init E True = Inr j"
  shows "kernel_op E op new_process = bindE (session_op E op ([], j)) (\<lambda>s. Inr (one_session s))"
  using assms by (cases op) (auto simp: kernel_op_def session_op_def one_session_def new_process_def get_JIT_def Let_def)

lemma kernel_ops_started:
  "foldE (kernel_op E) ops (one_session s) = bindE (foldE (session_op E) ops s) (\<lambda>s. Inr (one_session s))"
  by (induction ops arbitrary: s) (simp_all add: kernel_op_started bindE_assoc)

lemma session_op_reachable:
  assumes "session_op E op (ks, j) = Inr (ks', j')" and "jit_reachable E j"
  shows "jit_reachable E j' \<and> m_engine_builder j' = m_engine_builder j"
proof (cases op)
  case (CompileKernel i)
  with assms(1) have "\<exists>k'. compile_kernel E (ks ! i) j = Inr (k', j')"
    by (auto simp: session_op_def bindE_eq_Inr split: if_splits)
  then obtain M key where add: "addModule E M j = Inr (key, j')" by (metis compile_kernel_adds)
  then have "m_engine_builder j' = m_engine_builder j" by (rule addModule_cases)
  with reach_add [OF assms(2) add] show ?thesis by simp
qed (use assms in \<open>auto simp: session_op_def destroy_kernel_def removeModule_def [of _ j]
      intro: reach_remove [unfolded removeModule_def] split: if_splits\<close>)

lemma session_ops_reachable:
  assumes "foldE (session_op E) ops s = Inr s'" and "jit_reachable E (snd s)"
  shows "jit_reachable E (snd s') \<and> m_engine_builder (snd s') = m_engine_builder (snd s)"
  using assms
proof (induction ops arbitrary: s)
  case (Cons op ops)
  then obtain s1 where s1: "session_op E op s = Inr s1" "foldE (session_op E) ops s1 = Inr s'"
    by (auto simp: bindE_eq_Inr)
  with Cons.prems(2) session_op_reachable [of E op "fst s" "snd s" "fst s1" "snd s1"] Cons.IH [OF s1(2)]
  show ?case by simp
qed simp

text \<open>
  C31: However a process creates, compiles and destroys its kernels, all of them share one
  session: the process does to its JIT objects what it would do to a single session, made for the
  host's processor with aggressive code generation and fast floating-point fusion, and fails where
  that would fail. So what is known of every session that calls of \<open>addModule\<close> and \<open>removeModule\<close>
  lead to holds of the process's.
\<close>

theorem one_session_per_process:
  assumes "third_party_ok E"
  shows "\<exists>j0. \<forall>ops. ops \<noteq> [] \<longrightarrow>
    foldE (kernel_op E) ops new_process = bindE (foldE (session_op E) ops ([], j0)) (\<lambda>(ks, j).
      Inr (map (\<lambda>k. (k, 0)) ks, \<lparr>static_jit = Some 0, objects = [j]\<rparr>)) \<and>
    (\<forall>ks j. foldE (session_op E) ops ([], j0) = Inr (ks, j) \<longrightarrow> jit_reachable E j \<and>
      MCPU (m_engine_builder j) = host_cpu E \<and> WhichEngine (m_engine_builder j) = EngineKind_JIT \<and>
      CodeGenLevel (m_engine_builder j) = CodeGenOpt_Aggressive \<and>
      AllowFPOpFusion (Options (m_engine_builder j)) = FPOpFusion_Fast)"
proof -
  obtain j0 where init: "JIT_init E True = Inr j0" using JIT_init_ok [OF assms] by blast
  then have builder: "m_engine_builder j0 = createEngineBuilder E"
    by (auto simp: JIT_init_def Let_def bindE_eq_Inr)
  have run: "foldE (kernel_op E) ops new_process = bindE (foldE (session_op E) ops ([], j0)) (\<lambda>s. Inr (one_session s))"
    if ne: "ops \<noteq> []" for ops
    using ne by (cases ops) (simp_all add: kernel_op_new [OF init] kernel_ops_started bindE_assoc)
  show ?thesis
  proof (intro exI [of _ j0] allI impI conjI)
    fix ops :: "kernel_action list" assume "ops \<noteq> []"
    from run [OF this] show "foldE (kernel_op E) ops new_process =
        bindE (foldE (session_op E) ops ([], j0)) (\<lambda>(ks, j).
          Inr (map (\<lambda>k. (k, 0)) ks, \<lparr>static_jit = Some 0, objects = [j]\<rparr>))"
      by (simp add: one_session_def split_def)
  qed (use session_ops_reachable [OF _ , of E _ "([], j0)"] reach_new [OF init] builder in
      \<open>auto simp: createEngineBuilder_def Let_def\<close>)
qed

theorem one_session_per_process_witness:
  "\<exists>j. foldE (kernel_op sample_third_party)
      [NewKernel field_a (EBool sample_compare), NewKernel field_b (EBool sample_compare), DestroyKernel 0] new_process =
    Inr ([(create_cpu field_b (EBool sample_compare), 0)], \<lparr>static_jit = Some 0, objects = [j]\<rparr>) \<and>
    MCPU (m_engine_builder j) = ''generic''"
proof -
  let ?ops = "[NewKernel field_a (EBool sample_compare), NewKernel field_b (EBool sample_compare), DestroyKernel 0]"
  have session: "foldE (session_op sample_third_party) ?ops ([], j) =
      Inr ([create_cpu field_b (EBool sample_compare)], j)" for j
    by (simp add: session_op_def destroy_kernel_def create_cpu_def)
  from one_session_per_process [OF sample_third_party_ok] obtain j where
    "foldE (kernel_op sample_third_party) ?ops new_process =
       Inr ([(create_cpu field_b (EBool sample_compare), 0)], \<lparr>static_jit = Some 0, objects = [j]\<rparr>)"
    "MCPU (m_engine_builder j) = host_cpu sample_third_party"
    using session by fastforce
  then show ?thesis by (auto simp: sample_third_party_def)
qed

text \<open>A process compiles kernels one after the other and destroys them in whatever order.\<close>

fun compile_all :: "third_party \<Rightarrow> (field \<times> expr) list \<Rightarrow> jit \<Rightarrow> (filter_kernel list \<times> jit) result" where
  "compile_all E [] j = Inr ([], j)"
| "compile_all E ((fld, e) # xs) j =
     bindE (compile_kernel E (create_cpu fld e) j) (\<lambda>(k, j1).
     bindE (compile_all E xs j1) (\<lambda>(ks, j2). Inr (k # ks, j2)))"

lemma destroy_all_layers:
  "\<forall>k \<in> set ks. k_is_compiled k \<Longrightarrow>
   layer_modules (fold destroy_kernel ks j) =
     filter (\<lambda>(K, _). K \<notin> k_module_key ` set ks) (layer_modules j)"
  by (induction ks arbitrary: j)
    (auto simp: destroy_kernel_def removeModule_def split_def intro: filter_cong)

lemma compile_all_layers:
  assumes "compile_all E xs j = Inr (ks, j')" and "third_party_ok E" and "jit_inv E j"
  shows "jit_inv E j' \<and> (\<forall>k \<in> set ks. k_is_compiled k) \<and>
    (\<exists>new. layer_modules j' = layer_modules j @ new \<and> map fst new = map k_module_key ks)"
  using assms(1,3)
proof (induction xs arbitrary: j ks)
  case (Cons x xs)
  obtain fld e where x: "x = (fld, e)" by fastforce
  from Cons.prems(1) x obtain k j1 ks1 where k: "compile_kernel E (create_cpu fld e) j = Inr (k, j1)"
    and rest: "compile_all E xs j1 = Inr (ks1, j')" and ks: "ks = k # ks1"
    by (auto simp: bindE_eq_Inr)
  from k obtain M key where add: "addModule E M j = Inr (key, j1)" "k_module_key k = key" "k_is_compiled k"
    by (rule compile_kernel_adds)
  from add(1) obtain m where "layer_modules j1 = layer_modules j @ [(key, m)]" by (rule addModule_cases)
  with Cons.IH [OF rest addModule_inv [OF assms(2) Cons.prems(2) add(1)]] add(2,3) ks show ?case by auto
qed simp

text \<open>
  C13: However many kernels a process has compiled, for whatever columns and expressions,
  destroying all of them in any order gives the session back the modules it had before: no
  module stays behind and none of another owner is lost.
\<close>

theorem kernels_drain:
  assumes "third_party_ok E" and "jit_reachable E j" and "compile_all E xs j = Inr (ks, j')"
    and "set ks' = set ks"
  shows "layer_modules (fold destroy_kernel ks' j') = layer_modules j"
proof -
  from compile_all_layers [OF assms(3,1) jit_reachable_inv [OF assms(1,2)]] obtain new where
    new: "layer_modules j' = layer_modules j @ new" "map fst new = map k_module_key ks"
    and compiled: "\<forall>k \<in> set ks. k_is_compiled k" and inv: "jit_inv E j'" by blast
  have keys: "fst ` set new = k_module_key ` set ks" using new(2) by (metis set_map)
  have "fst ` set (layer_modules j) \<inter> fst ` set new = {}"
    using inv new(1) by (auto simp: jit_inv_def)
  then have "filter (\<lambda>(K, _). K \<notin> k_module_key ` set ks) (layer_modules j') = layer_modules j"
    unfolding keys [symmetric] new(1) by (auto intro!: filter_True filter_False simp: split_def)
  with destroy_all_layers [of ks' j'] compiled assms(4) show ?thesis by simp
qed

theorem kernels_drain_witness:
  "\<exists>ks j'. compile_all sample_third_party [(field_a, EBool sample_compare)] sample_jit = Inr (ks, j') \<and>
    layer_modules (fold destroy_kernel (rev ks) j') = []"
proof -
  obtain k j' where "compile_kernel sample_third_party (create_cpu field_a (EBool sample_compare)) sample_jit = Inr (k, j')"
    by (rule sample_kernel)
  then have all: "compile_all sample_third_party [(field_a, EBool sample_compare)] sample_jit = Inr ([k], j')"
    by simp
  from kernels_drain [OF sample_third_party_ok sample_jit_reachable all, of "rev [k]"] all show ?thesis by auto
qed

end
