(* ===== verification/Query_Outcomes.thy ===== *)
theory Query_Outcomes
  imports Query_Compiler
begin

text \<open>
  The outcome of every query on a table that the executor handles, constants in filters, unknown
  columns, literals of the wrong alternative and empty projections included: the relation that is
  returned, or the failure the execution stops with.
\<close>

section \<open>What the executor makes of an expression\<close>

text \<open>
  The visitor ignores constants: it leaves \<open>m_buffer\<close> as it was. An expression that starts with a
  constant therefore continues with the buffer of the expression visited before it, and changes it
  in place.
\<close>

fun starts_const :: "bool_expr \<Rightarrow> bool" where
  "starts_const (BooleanConst _) = True"
| "starts_const (PredicateExpr l _ _) = starts_const l"
| "starts_const (CompareExpr _ _ _) = False"

definition check_compare :: "third_party \<Rightarrow> field list \<Rightarrow> column_ref \<Rightarrow> literal_expr \<Rightarrow> ir_value result" where
  "check_compare E S c x =
     bindE (deref (column_index E S (column_name c))) (\<lambda>i.
       const_from_variant E (field_type (S ! i)) (literal_value x))"

text \<open>
  The expression without constants that \<open>e\<close> is evaluated as, when \<open>m_buffer\<close> holds the bitmap of
  \<open>p\<close> before.
\<close>

fun effective :: "third_party \<Rightarrow> field list \<Rightarrow> bool_expr \<Rightarrow> bool_expr option \<Rightarrow> bool_expr option result" where
  "effective E S (BooleanConst b) p = Inr p"
| "effective E S (CompareExpr c x op) p =
     bindE (check_compare E S c x) (\<lambda>_. Inr (Some (CompareExpr c x op)))"
| "effective E S (PredicateExpr l r op) p =
     bindE (effective E S l p) (\<lambda>p1.
     bindE (effective E S r p1) (\<lambda>p2.
     bindE (deref p1) (\<lambda>l'. bindE (deref p2) (\<lambda>r'.
       Inr (Some (if starts_const r then r' else PredicateExpr l' r' op))))))"

lemma effective_expr_ok:
  assumes "effective E S e p = Inr (Some e')" and "\<And>q. p = Some q \<Longrightarrow> expr_ok E S q"
  shows "expr_ok E S e'"
  using assms
proof (induction e arbitrary: p e')
  case (PredicateExpr l r op)
  from PredicateExpr.prems(1) obtain l' r' where l': "effective E S l p = Inr (Some l')"
    and r': "effective E S r (Some l') = Inr (Some r')"
    and e': "e' = (if starts_const r then r' else PredicateExpr l' r' op)"
    by (auto simp: bindE_eq_Inr deref_eq_Inr)
  have "expr_ok E S l'" by (rule PredicateExpr.IH(1) [OF l' PredicateExpr.prems(2)])
  moreover from this have "expr_ok E S r'" using PredicateExpr.IH(2) [OF r'] by simp
  ultimately show ?case using e' by (auto simp: expr_ok_def ball_Un)
next
  case (CompareExpr c x op)
  then show ?case by (auto simp: bindE_eq_Inr deref_eq_Inr check_compare_def expr_ok_def)
qed simp

lemma effective_const_free:
  "expr_ok E S e \<Longrightarrow> effective E S e p = Inr (Some e) \<and> \<not> starts_const e"
proof (induction e arbitrary: p)
  case (PredicateExpr l r op)
  then show ?case by (simp add: expr_ok_def ball_Un)
next
  case (CompareExpr c x op)
  then obtain i where "column_index E S (column_name c) = Some i"
    "\<not> isl (const_from_variant E (field_type (S ! i)) (literal_value x))"
    by (auto simp: expr_ok_def split: option.splits)
  then show ?case
    by (cases "const_from_variant E (field_type (S ! i)) (literal_value x)") (simp_all add: check_compare_def)
qed (simp add: expr_ok_def)

section \<open>One comparison\<close>

lemma const_from_variant_outcome:
  assumes "materialize_size (id_of typ) \<noteq> None"
  shows "const_from_variant E typ v = Inl BadVariantAccess \<or> (\<exists>c. const_from_variant E typ v = Inr c)"
  using assms
  by (cases "id_of typ"; cases v)
    (simp_all add: const_from_variant_def type_cases materialize_size_def arrow_typed_const_int_def
      arrow_typed_const_double_def)

lemma compare_outcome:
  assumes E: "third_party_ok E" and t: "table_ok t" and j: "idle E (the_jit s)"
  shows "case check_compare E (schema t) c x of
      Inl f \<Rightarrow> execute_compare E t vl vr c x op s = Inl f
    | Inr _ \<Rightarrow> \<exists>s'. execute_compare E t vl vr c x op s = Inr s' \<and>
        evaluates E t s s' (row_holds E t (CompareExpr c x op))"
proof (cases "column_index E (schema t) (column_name c)")
  case None
  then have "GetFieldByName E t (column_name c) = None"
    by (simp add: GetFieldByName_def column_index_def)
  with None show ?thesis by (simp add: execute_compare_def Let_def check_compare_def)
next
  case (Some i)
  note look = lookup_column [OF E t Some]
  let ?ty = "field_type (schema t ! i)"
  have size: "materialize_size (id_of ?ty) \<noteq> None" using look(4,5) by (simp add: column_fits_def)
  then obtain ty where ty: "from_arrow ?ty = Inr ty" using primitive_from_arrow by blast
  have name: "field_name (schema t ! i) = column_name c" by (rule column_index_Some(2) [OF E Some])
  show ?thesis
  proof (cases "const_from_variant E ?ty (literal_value x)")
    case (Inl f)
    then have "compile_kernel E (create_cpu (schema t ! i) (EBool (CompareExpr c x op))) (the_jit s) = Inl f"
      using ty name by (simp add: compile_kernel_def create_cpu_def gen_module_def gen_predicate_func_def
          ir_emit_visitor_def default_visitor_def emit_compare_def)
    with Inl Some show ?thesis by (simp add: execute_compare_def Let_def look(1) check_compare_def)
  next
    case (Inr k)
    have "column_ok t ?ty (columns t ! i)"
      using look(4,5) by (simp add: column_ok_def column_fits_def)
    then have "comparison_ok E t c x"
      using look(1,2) from_arrow_numeric ty Inr by (auto simp: comparison_ok_def)
    moreover have "num_rows t < 2 ^ 57" using t by (simp add: table_ok_def)
    moreover have "symbols_free E (the_jit s) (CompareExpr c x op)" "jit_inv E (the_jit s)"
      using j by (simp_all add: idle_def symbols_free_def)
    ultimately obtain s' where "execute_compare E t vl vr c x op s = Inr s'"
      "evaluates E t s s' (\<lambda>r. compare_row E t r c x op)"
      using execute_compare_ok [OF E] by metis
    moreover have "(\<lambda>r. compare_row E t r c x op) = row_holds E t (CompareExpr c x op)"
      by (simp add: row_holds_def fun_eq_iff)
    ultimately show ?thesis using Some Inr by (simp add: check_compare_def)
  qed
qed

section \<open>The visitor over the store of buffers\<close>

text \<open>\<open>m_buffer\<close> is null for \<open>None\<close>, and holds the bitmap of the expression otherwise.\<close>

definition tracks :: "third_party \<Rightarrow> table \<Rightarrow> executor_state \<Rightarrow> bool_expr option \<Rightarrow> bool" where
  "tracks E t s p \<longleftrightarrow> idle E (the_jit s) \<and>
     (case p of
        None \<Rightarrow> m_buffer s = None
      | Some e \<Rightarrow> (\<exists>a. m_buffer s = Some a \<and> a < length (buffers s) \<and>
          bitmap_of t (row_holds E t e) (buffers s ! a)))"

text \<open>
  What a visit does to the buffers that were there: one that starts with a constant may change
  the one that \<open>m_buffer\<close> points at and leaves \<open>m_buffer\<close> there; any other one changes none of
  them and points \<open>m_buffer\<close> at a new one.
\<close>

definition keeps_buffers :: "bool \<Rightarrow> executor_state \<Rightarrow> executor_state \<Rightarrow> bool" where
  "keeps_buffers in_place s s' \<longleftrightarrow>
     length (buffers s) \<le> length (buffers s') \<and>
     (\<forall>i < length (buffers s). in_place \<and> m_buffer s = Some i \<or> buffers s' ! i = buffers s ! i) \<and>
     (if in_place then m_buffer s' = m_buffer s
      else (\<exists>a \<ge> length (buffers s). m_buffer s' = Some a))"

lemma tracks_Some:
  assumes "tracks E t s (Some e)"
  obtains a where "m_buffer s = Some a" and "a < length (buffers s)"
    and "bitmap_of t (row_holds E t e) (buffers s ! a)"
  using assms by (auto simp: tracks_def)

lemma evaluates_tracks:
  "evaluates E t s s' (row_holds E t e) \<Longrightarrow> idle E (the_jit s) \<Longrightarrow>
   tracks E t s' (Some e) \<and> keeps_buffers False s s'"
  by (auto simp: evaluates_def tracks_def keeps_buffers_def idle_def nth_append)

text \<open>
  Joining the two buffers of a connective. When the right operand starts with a constant they
  are one buffer, and the join leaves it as it is.
\<close>

lemma join_buffers:
  assumes l: "tracks E t s1 (Some l)" and r: "tracks E t s2 (Some r)"
    and keeps: "keeps_buffers in_place s1 s2"
    and a: "m_buffer s1 = Some a" and b: "m_buffer s2 = Some b"
  obtains bufs where "foldE (combine_byte op a b) [0..<length (buffers s2 ! a)] (buffers s2) = Inr bufs"
    and "tracks E t (s2\<lparr>buffers := bufs, m_buffer := Some a\<rparr>)
      (Some (if in_place then r else PredicateExpr l r op))"
    and "length bufs = length (buffers s2)" and "\<And>i. i \<noteq> a \<Longrightarrow> bufs ! i = buffers s2 ! i"
proof (cases in_place)
  case True
  then have "b = a" using keeps a b by (simp add: keeps_buffers_def)
  have "a < length (buffers s2)" using r b \<open>b = a\<close> by (auto elim: tracks_Some)
  from combine_same [OF this order_refl, of op] have
    "foldE (combine_byte op a b) [0..<length (buffers s2 ! a)] (buffers s2) = Inr (buffers s2)"
    using \<open>b = a\<close> by simp
  from that [OF this] r b \<open>b = a\<close> True show thesis by (simp add: tracks_def)
next
  case False
  let ?L = "buffers s2 ! a" and ?R = "buffers s2 ! b"
  from l a have a1: "a < length (buffers s1)" "bitmap_of t (row_holds E t l) (buffers s1 ! a)"
    by (auto elim: tracks_Some)
  with keeps False have L: "a < length (buffers s2)" "bitmap_of t (row_holds E t l) ?L"
    by (auto simp: keeps_buffers_def)
  from r b have R: "b < length (buffers s2)" "bitmap_of t (row_holds E t r) ?R"
    by (auto elim: tracks_Some)
  have "a \<noteq> b" using keeps False b a1(1) by (auto simp: keeps_buffers_def)
  have len: "length ?L = length ?R" using L R by (simp add: bitmap_of_def)
  have "bitmap_of t (row_holds E t (PredicateExpr l r op)) (join_bitmaps op ?L ?R)"
    using L(2) R(2) bm_bit_join [of _ ?L op ?R]
    by (cases op) (auto simp: bitmap_of_def row_holds_def)
  moreover have "idle E (the_jit s2)" using r by (simp add: tracks_def)
  ultimately have "tracks E t (s2\<lparr>buffers := (buffers s2)[a := join_bitmaps op ?L ?R], m_buffer := Some a\<rparr>)
      (Some (PredicateExpr l r op))"
    using L(1) by (simp add: tracks_def)
  with that [OF combine_all [OF L(1) R(1) \<open>a \<noteq> b\<close> len, of op]] False show thesis by simp
qed

lemma keeps_buffers_join:
  assumes 1: "keeps_buffers x s s1" and 2: "keeps_buffers y s1 s2" and a: "m_buffer s1 = Some a"
    and bufs: "length bufs = length (buffers s2)" "\<And>i. i \<noteq> a \<Longrightarrow> bufs ! i = buffers s2 ! i"
  shows "keeps_buffers x s (s2\<lparr>buffers := bufs, m_buffer := Some a\<rparr>)"
proof -
  have "x \<and> m_buffer s = Some i \<or> bufs ! i = buffers s ! i" if i: "i < length (buffers s)" for i
  proof (cases "i = a")
    case True
    with 1 a i show ?thesis by (auto simp: keeps_buffers_def split: if_splits)
  next
    case False
    moreover have "i < length (buffers s1)" using 1 i by (simp add: keeps_buffers_def)
    ultimately have "bufs ! i = buffers s1 ! i" using 2 a bufs(2) by (auto simp: keeps_buffers_def)
    with 1 i show ?thesis by (auto simp: keeps_buffers_def)
  qed
  moreover have "length (buffers s) \<le> length bufs" using 1 2 bufs(1) by (simp add: keeps_buffers_def)
  ultimately show ?thesis using 1 a by (simp add: keeps_buffers_def split: if_splits)
qed

lemma predicate_outcome:
  assumes l: "vl s = Inr s1" "tracks E t s1 p1" "keeps_buffers x s s1"
    and r: "vr s1 = Inr s2" "tracks E t s2 p2" "keeps_buffers y s1 s2"
  shows "case bindE (deref p1) (\<lambda>l'. bindE (deref p2) (\<lambda>r'.
        Inr (Some (if y then r' else PredicateExpr l' r' op)))) of
      Inl f \<Rightarrow> execute_predicate vl vr op s = Inl f
    | Inr p' \<Rightarrow> \<exists>s'. execute_predicate vl vr op s = Inr s' \<and> tracks E t s' p' \<and> keeps_buffers x s s'"
proof (cases "p1 = None \<or> p2 = None")
  case True
  with l r show ?thesis
    by (cases p1; cases p2; cases "m_buffer s1") (simp_all add: execute_predicate_def tracks_def)
next
  case False
  then obtain l' r' where p: "p1 = Some l'" "p2 = Some r'" by auto
  from l(2) p(1) obtain a where a: "m_buffer s1 = Some a" by (auto elim: tracks_Some)
  from r(2) p(2) obtain b where b: "m_buffer s2 = Some b" by (auto elim: tracks_Some)
  obtain bufs where bufs: "foldE (combine_byte op a b) [0..<length (buffers s2 ! a)] (buffers s2) = Inr bufs"
    "tracks E t (s2\<lparr>buffers := bufs, m_buffer := Some a\<rparr>) (Some (if y then r' else PredicateExpr l' r' op))"
    "length bufs = length (buffers s2)" "\<And>i. i \<noteq> a \<Longrightarrow> bufs ! i = buffers s2 ! i"
    using join_buffers [OF l(2) [unfolded p] r(2) [unfolded p] r(3) a b] by metis
  have "keeps_buffers x s (s2\<lparr>buffers := bufs, m_buffer := Some a\<rparr>)"
    by (rule keeps_buffers_join [OF l(3) r(3) a bufs(3,4)])
  with l(1) r(1) p a b bufs(1,2) show ?thesis by (simp add: execute_predicate_def)
qed

text \<open>The visitor evaluates the effective expression, or fails as it does.\<close>

lemma executor_outcome:
  assumes E: "third_party_ok E" and t: "table_ok t"
  shows "tracks E t s p \<Longrightarrow>
    (case effective E (schema t) e p of
       Inl f \<Rightarrow> accept (filter_expr_executor E t) e s = Inl f
     | Inr p' \<Rightarrow> \<exists>s'. accept (filter_expr_executor E t) e s = Inr s' \<and> tracks E t s' p' \<and>
         keeps_buffers (starts_const e) s s')"
proof (induction e arbitrary: s p)
  case (BooleanConst b)
  then show ?case by (simp add: filter_expr_executor_def default_visitor_def keeps_buffers_def)
next
  case (CompareExpr c x op)
  then have "idle E (the_jit s)" by (simp add: tracks_def)
  with compare_outcome [OF E t this, where c = c and x = x] evaluates_tracks show ?case
    by (cases "check_compare E (schema t) c x")
      (fastforce simp: filter_expr_executor_def default_visitor_def)+
next
  case (PredicateExpr l r op)
  let ?v = "accept (filter_expr_executor E t)"
  have visit: "visit_predicate (filter_expr_executor E t) = execute_predicate"
    by (simp add: filter_expr_executor_def default_visitor_def)
  show ?case
  proof (cases "effective E (schema t) l p")
    case (Inl f)
    with PredicateExpr.IH(1) [OF PredicateExpr.prems] show ?thesis
      by (simp add: visit execute_predicate_def)
  next
    case l: (Inr p1)
    with PredicateExpr.IH(1) [OF PredicateExpr.prems] obtain s1 where
      s1: "?v l s = Inr s1" "tracks E t s1 p1" "keeps_buffers (starts_const l) s s1" by auto
    show ?thesis
    proof (cases "effective E (schema t) r p1")
      case (Inl f)
      with PredicateExpr.IH(2) [OF s1(2)] l s1(1) show ?thesis
        by (simp add: visit execute_predicate_def)
    next
      case r: (Inr p2)
      with PredicateExpr.IH(2) [OF s1(2)] obtain s2 where
        s2: "?v r s1 = Inr s2" "tracks E t s2 p2" "keeps_buffers (starts_const r) s1 s2" by auto
      from predicate_outcome [where vl = "?v l" and vr = "?v r", OF s1 s2, of op] l r show ?thesis
        unfolding accept.simps visit starts_const.simps by simp
    qed
  qed
qed

section \<open>The outcome of the operations\<close>

definition filter_result :: "third_party \<Rightarrow> bool_expr \<Rightarrow> relation \<Rightarrow> relation result" where
  "filter_result E e R =
     (if fst R = [] then Inl (Thrown UnreachableException)
      else bindE (effective E (fst R) e None) (\<lambda>p.
        case p of
          None \<Rightarrow> Inl (Thrown UnreachableException)
        | Some e' \<Rightarrow> Inr (rel_filter E e' R)))"

text \<open>A table without columns has the number of rows that Arrow infers for it.\<close>

definition project_result :: "third_party \<Rightarrow> string list \<Rightarrow> relation \<Rightarrow> relation result" where
  "project_result E names R =
     (if names = [] then Inr ([], replicate (inferred_rows E []) [])
      else if \<exists>n \<in> set names. column_index E (fst R) n = None then Inl NullPointer
      else Inr (rel_project E names R))"

fun query_result :: "third_party \<Rightarrow> query_op list \<Rightarrow> relation \<Rightarrow> relation result" where
  "query_result E [] R = Inr R"
| "query_result E (QProject names # qs) R = bindE (query_result E qs R) (project_result E names)"
| "query_result E (QFilter e # qs) R = bindE (query_result E qs R) (filter_result E e)"

text \<open>A projection to no columns leaves a table without columns.\<close>

definition runnable :: "table \<Rightarrow> bool" where
  "runnable t \<longleftrightarrow> table_ok t \<or> columns t = [] \<and> schema t = []"

lemma runnable_supported: "runnable t \<Longrightarrow> table_supported t"
  using table_ok_columns(4) by (auto simp: runnable_def table_supported_def)

lemma table_ok_first_chunks:
  assumes "table_ok t"
  shows "columns t \<noteq> []" and "schema t \<noteq> []" and "chunks (columns t ! 0) \<noteq> []"
  using assms table_ok_columns(1) [OF assms] by (auto simp: table_ok_def column_fits_def)

text \<open>The executor's bitmap, materialised.\<close>

lemma materialize_tracked:
  assumes E: "third_party_ok E" and t: "table_ok t" and s: "tracks E t s (Some e)" and e: "expr_ok E (schema t) e"
    and ctx: "ctx_table ctx = t" "filter_bitmap (ctx_metadata ctx) = executor_result s"
  obtains ctx' where "materialize_filter E ctx = Inr ctx'" and "table_ok (ctx_table ctx')"
    and "table_rel (ctx_table ctx') = rel_filter E e (table_rel t)"
proof -
  from s obtain a where a: "m_buffer s = Some a" "bitmap_of t (row_holds E t e) (buffers s ! a)"
    by (rule tracks_Some)
  have bm: "filter_bitmap (ctx_metadata ctx) = Some (buffers s ! a)"
    using ctx(2) a(1) by (simp add: executor_result_def)
  have "num_rows t \<le> 8 * length (buffers s ! a)" using a(2) by (simp add: bitmap_of_def)
  with materialize_filter_rows [OF E _ bm] t ctx(1) obtain ctx' where
    "materialize_filter E ctx = Inr ctx'" "table_ok (ctx_table ctx')"
    "table_rel (ctx_table ctx') = (schema t, map (row_of t) (selected_rows (buffers s ! a) (num_rows t)))"
    by metis
  with that filter_bitmap_rows [OF E t e a(2)] show thesis by simp
qed

text \<open>\<open>generate_filter_bitmap\<close> attaches the executor's buffer, if there is one.\<close>

lemma bitmap_outcome:
  assumes E: "third_party_ok E" and t: "table_ok t" and ctx: "ctx_table ctx = t" and j: "idle E j"
  shows "case effective E (schema t) e None of
      Inl f \<Rightarrow> generate_filter_bitmap E ctx e j = Inl f
    | Inr p \<Rightarrow> \<exists>ctx' s. generate_filter_bitmap E ctx e j = Inr (ctx', the_jit s) \<and> ctx_table ctx' = t \<and>
        filter_bitmap (ctx_metadata ctx') = executor_result s \<and> tracks E t s p"
proof -
  obtain res where res: "new_context t = Inr res" "ctx_table res = t"
    by (rule new_context_ok [OF table_ok_columns(4) [OF t]])
  note first = table_ok_first_chunks [OF t]
  have "tracks E t (initial_executor j) None" using j by (simp add: tracks_def initial_executor_def)
  note visit = executor_outcome [OF E t this, of e]
  show ?thesis
  proof (cases "effective E (schema t) e None")
    case (Inl f)
    with visit first ctx show ?thesis by (simp add: generate_filter_bitmap_def Let_def)
  next
    case (Inr p)
    with visit obtain s where "accept (filter_expr_executor E t) e (initial_executor j) = Inr s"
      "tracks E t s p" by auto
    with Inr first ctx res show ?thesis by (auto simp: generate_filter_bitmap_def Let_def)
  qed
qed

text \<open>A filter's two nodes.\<close>

lemma filter_outcome:
  assumes E: "third_party_ok E" and t: "runnable (ctx_table ctx)" and j: "idle E j"
  shows "case filter_result E e (table_rel (ctx_table ctx)) of
      Inl f \<Rightarrow> foldE (execute_op E) [OpFilter e, OpMaterialize] (ctx, j) = Inl f
    | Inr R \<Rightarrow> \<exists>ctx' j'. foldE (execute_op E) [OpFilter e, OpMaterialize] (ctx, j) = Inr (ctx', j') \<and>
        idle E j' \<and> table_ok (ctx_table ctx') \<and> table_rel (ctx_table ctx') = R"
proof (cases "table_ok (ctx_table ctx)")
  case False
  with t have "columns (ctx_table ctx) = []" "schema (ctx_table ctx) = []" by (simp_all add: runnable_def)
  moreover obtain res where "new_context (ctx_table ctx) = Inr res" "filter_bitmap (ctx_metadata res) = None"
    by (rule new_context_ok [OF runnable_supported [OF t]])
  ultimately show ?thesis
    by (simp add: filter_result_def table_rel_def execute_op_def generate_filter_bitmap_def Let_def
        materialize_filter_def)
next
  case ok: True
  let ?t = "ctx_table ctx"
  note bitmap = bitmap_outcome [OF E ok refl j, of e]
  have "fst (table_rel ?t) = schema ?t" by (simp add: table_rel_def)
  then have result: "filter_result E e (table_rel ?t) = bindE (effective E (schema ?t) e None) (\<lambda>p.
      case p of None \<Rightarrow> Inl (Thrown UnreachableException) | Some e' \<Rightarrow> Inr (rel_filter E e' (table_rel ?t)))"
    using table_ok_first_chunks(2) [OF ok] by (simp add: filter_result_def)
  show ?thesis
  proof (cases "effective E (schema ?t) e None")
    case (Inl f)
    with bitmap show ?thesis by (simp add: result execute_op_def)
  next
    case (Inr p)
    with bitmap obtain ctx1 s where run: "generate_filter_bitmap E ctx e j = Inr (ctx1, the_jit s)"
      and ctx1: "ctx_table ctx1 = ?t" "filter_bitmap (ctx_metadata ctx1) = executor_result s"
      and s: "tracks E ?t s p" by auto
    show ?thesis
    proof (cases p)
      case None
      with s ctx1(2) have "filter_bitmap (ctx_metadata ctx1) = None" by (simp add: tracks_def executor_result_def)
      with run Inr None show ?thesis by (simp add: result execute_op_def materialize_filter_def)
    next
      case (Some e')
      from materialize_tracked [OF E ok s [unfolded Some] effective_expr_ok ctx1] Inr Some
      obtain ctx' where "materialize_filter E ctx1 = Inr ctx'" "table_ok (ctx_table ctx')"
        "table_rel (ctx_table ctx') = rel_filter E e' (table_rel ?t)" by auto
      moreover have "idle E (the_jit s)" using s by (simp add: tracks_def)
      ultimately show ?thesis using run Inr Some by (simp add: result execute_op_def)
    qed
  qed
qed

lemma known_column:
  assumes "third_party_ok E" and "runnable t" and "GetColumnByName E t n \<noteq> None"
  shows "table_ok t" and "column_index E (schema t) n \<noteq> None"
proof -
  show index: "column_index E (schema t) n \<noteq> None"
    using assms(3) by (cases "column_index E (schema t) n") (auto simp: GetColumnByName_def column_index_def)
  then have "schema t \<noteq> []" using column_index_Some(1) [OF assms(1), of "[]" n] by auto
  with assms(2) show "table_ok t" by (simp add: runnable_def)
qed

lemma mapE_null:
  assumes "n \<in> set ns" and "f n = Inl x" and "\<And>m y. f m = Inl y \<Longrightarrow> y = x"
  shows "mapE f ns = Inl x"
  using assms(1)
proof (induction ns)
  case (Cons m ns)
  show ?case
  proof (cases "f m")
    case (Inl y)
    with assms(3) [OF Inl] show ?thesis by simp
  next
    case (Inr z)
    with assms(2) Cons.prems have "n \<in> set ns" by auto
    with Cons.IH Inr show ?thesis by simp
  qed
qed simp

lemma project_outcome:
  assumes E: "third_party_ok E" and t: "runnable (ctx_table ctx)"
  shows "case project_result E names (table_rel (ctx_table ctx)) of
      Inl f \<Rightarrow> project E ctx names = Inl f
    | Inr R \<Rightarrow> \<exists>ctx'. project E ctx names = Inr ctx' \<and> runnable (ctx_table ctx') \<and>
        table_rel (ctx_table ctx') = R"
proof -
  let ?t = "ctx_table ctx" and ?S = "schema (ctx_table ctx)"
  consider (none) "names = []" | (unknown) n where "n \<in> set names" "column_index E ?S n = None"
    | (known) "projectable E ?S names" by (auto simp: projectable_def)
  then show ?thesis
  proof cases
    case none
    have empty: "runnable (make_table E [] [])" by (simp add: runnable_def make_table_def)
    obtain res where "new_context (make_table E [] []) = Inr res" "ctx_table res = make_table E [] []"
      by (rule new_context_ok [OF runnable_supported [OF empty]])
    moreover have "row_of (make_table E [] []) = (\<lambda>r. [])" by (simp add: row_of_def make_table_def fun_eq_iff)
    then have "table_rel (make_table E [] []) = ([], replicate (inferred_rows E []) [])"
      by (simp add: table_rel_def map_replicate_const) (simp add: make_table_def)
    ultimately show ?thesis using none empty by (simp add: project_def project_result_def)
  next
    case (unknown n)
    then have "GetColumnByName E ?t n = None" using known_column(2) [OF E t, of n] by blast
    then have "project_column E ?t n = Inl NullPointer" by (simp add: project_column_def)
    with unknown(1) have "mapE (project_column E ?t) names = Inl NullPointer"
      by (rule mapE_null) (auto simp: project_column_def bindE_eq_Inl elim: deref.elims)
    with unknown show ?thesis by (auto simp: project_def project_result_def table_rel_def)
  next
    case known
    then have "column_index E ?S (hd names) \<noteq> None" by (simp add: projectable_def)
    then have "?S \<noteq> []" using column_index_Some(1) [OF E, of "[]" "hd names"] by auto
    with t have "table_ok ?t" by (simp add: runnable_def)
    from project_rows [OF E this known] obtain ctx' where "project E ctx names = Inr ctx'"
      "table_ok (ctx_table ctx')" "table_rel (ctx_table ctx') = rel_project E names (table_rel ?t)" by blast
    with known show ?thesis by (auto simp: project_result_def projectable_def table_rel_def runnable_def)
  qed
qed

section \<open>The outcome of a query\<close>

lemma execute_ops_outcome:
  assumes E: "third_party_ok E" and t: "runnable (ctx_table ctx)" and j: "idle E j"
  shows "case query_result E qs (table_rel (ctx_table ctx)) of
      Inl f \<Rightarrow> foldE (execute_op E) (rev (plan_of qs)) (ctx, j) = Inl f
    | Inr R \<Rightarrow> \<exists>ctx' j'. foldE (execute_op E) (rev (plan_of qs)) (ctx, j) = Inr (ctx', j') \<and>
        idle E j' \<and> runnable (ctx_table ctx') \<and> table_rel (ctx_table ctx') = R"
proof (induction qs)
  case Nil
  with t j show ?case by simp
next
  case (Cons q qs)
  let ?R = "query_result E qs (table_rel (ctx_table ctx))"
  show ?case
  proof (cases ?R)
    case (Inl f)
    with Cons show ?thesis by (cases q) (simp_all add: foldE_append)
  next
    case (Inr R)
    with Cons obtain ctx1 j1 where 1: "foldE (execute_op E) (rev (plan_of qs)) (ctx, j) = Inr (ctx1, j1)"
      "idle E j1" "runnable (ctx_table ctx1)" "table_rel (ctx_table ctx1) = R" by auto
    show ?thesis
    proof (cases q)
      case (QProject names)
      have "execute_op E (OpProject names) (ctx1, j1) = bindE (project E ctx1 names) (\<lambda>c. Inr (c, j1))"
        by (simp add: execute_op_def)
      then show ?thesis
        using project_outcome [OF E 1(3), of names] 1 Inr QProject
        by (cases "project_result E names R") (auto simp: foldE_append)
    next
      case (QFilter e)
      have "rev (plan_of (q # qs)) = rev (plan_of qs) @ [OpFilter e, OpMaterialize]" by (simp add: QFilter)
      then have run: "foldE (execute_op E) (rev (plan_of (q # qs))) (ctx, j) =
          foldE (execute_op E) [OpFilter e, OpMaterialize] (ctx1, j1)"
        using 1(1) by (simp only: foldE_append bindE.simps)
      have "query_result E (q # qs) (table_rel (ctx_table ctx)) = filter_result E e R"
        using Inr by (simp add: QFilter)
      then show ?thesis
        unfolding run using filter_outcome [OF E 1(3,2), of e] 1(4)
        by (cases "filter_result E e R") (auto simp: runnable_def simp del: foldE.simps)
    qed
  qed
qed

lemma query_outcome:
  assumes E: "third_party_ok E" and t: "table_ok t" and j: "idle E j"
    and plan: "represents h (Some a) (plan_of qs)"
  shows "case query_result E (join_query qs) (table_rel t) of
      Inl f \<Rightarrow> query_execute E (Some a) t h j = Inl f
    | Inr R \<Rightarrow> \<exists>t' h' j'. query_execute E (Some a) t h j = Inr (t', h', j') \<and>
        table_rel t' = R \<and> runnable t' \<and> idle E j'"
proof -
  obtain h' where run: "query_execute E (Some a) t h j = bindE (new_context t) (\<lambda>ctx.
      bindE (foldE (execute_op E) (rev (plan_of (join_query qs))) (ctx, j)) (\<lambda>(ctx', j').
        Inr (ctx_table ctx', h', j')))"
    by (rule query_execute_ops [OF plan])
  obtain ctx where ctx: "new_context t = Inr ctx" "ctx_table ctx = t"
    by (rule new_context_ok [OF table_ok_columns(4) [OF t]])
  have "runnable (ctx_table ctx)" using ctx(2) t by (simp add: runnable_def)
  from execute_ops_outcome [OF E this j, of "join_query qs"] show ?thesis
    unfolding run ctx by (cases "query_result E (join_query qs) (table_rel t)") auto
qed

section \<open>Which failures there are\<close>

text \<open>The types of a relation's fields are those that the executor copies.\<close>

definition copied_types :: "relation \<Rightarrow> bool" where
  "copied_types R \<longleftrightarrow> (\<forall>f \<in> set (fst R). materialize_size (id_of (field_type f)) \<noteq> None)"

definition query_failure :: "failure \<Rightarrow> bool" where
  "query_failure f \<longleftrightarrow> f \<in> {NullPointer, BadVariantAccess, Thrown UnreachableException}"

lemma copied_types_table:
  assumes "table_ok t"
  shows "copied_types (table_rel t)"
proof -
  have "materialize_size (id_of (field_type (schema t ! i))) \<noteq> None" if "i < length (schema t)" for i
    using table_ok_columns(1-3) [OF assms] that by (simp add: column_fits_def)
  then show ?thesis by (auto simp: copied_types_def table_rel_def in_set_conv_nth)
qed

lemma effective_failures:
  assumes E: "third_party_ok E" and S: "copied_types (S, rows)"
  shows "effective E S e p = Inl f \<Longrightarrow> query_failure f"
proof (induction e arbitrary: p)
  case (CompareExpr c x op)
  show ?case
  proof (cases "column_index E S (column_name c)")
    case None
    with CompareExpr show ?thesis by (simp add: check_compare_def query_failure_def)
  next
    case (Some i)
    then have "S ! i \<in> set S" using column_index_Some(1) [OF E Some] by simp
    with S have "materialize_size (id_of (field_type (S ! i))) \<noteq> None" by (simp add: copied_types_def)
    from const_from_variant_outcome [OF this, of E "literal_value x"] CompareExpr Some
    show ?thesis by (auto simp: check_compare_def query_failure_def)
  qed
next
  case (PredicateExpr l r op)
  then show ?case by (auto simp: bindE_eq_Inl query_failure_def elim: deref.elims)
qed simp

lemma operation_failures:
  assumes E: "third_party_ok E" and R: "copied_types R"
  shows "filter_result E e R = Inl f \<Longrightarrow> query_failure f"
    and "filter_result E e R = Inr R' \<Longrightarrow> copied_types R'"
    and "project_result E names R = Inl f \<Longrightarrow> query_failure f"
    and "project_result E names R = Inr R' \<Longrightarrow> copied_types R'"
proof -
  show "query_failure f" if "filter_result E e R = Inl f"
    using that effective_failures [OF E, of "fst R" "snd R"] R
    by (auto simp: filter_result_def bindE_eq_Inl query_failure_def split: if_splits option.splits)
  show "copied_types R'" if "filter_result E e R = Inr R'"
    using that R by (auto simp: filter_result_def bindE_eq_Inr rel_filter_def copied_types_def
        split: if_splits option.splits)
  show "query_failure f" if "project_result E names R = Inl f"
    using that by (auto simp: project_result_def query_failure_def split: if_splits)
  show "copied_types R'" if "project_result E names R = Inr R'"
  proof (cases "names = []")
    case True
    with that show ?thesis by (auto simp: project_result_def copied_types_def)
  next
    case False
    with that have known: "\<forall>n \<in> set names. column_index E (fst R) n \<noteq> None"
      and R': "R' = rel_project E names R" by (auto simp: project_result_def split: if_splits)
    have "fst R ! the (column_index E (fst R) n) \<in> set (fst R)" if "n \<in> set names" for n
      using known that column_index_Some(1) [OF E] by fastforce
    with R show ?thesis by (auto simp: R' rel_project_def copied_types_def)
  qed
qed

lemma query_failures:
  assumes E: "third_party_ok E" and R: "copied_types R"
  shows "(\<forall>f. query_result E qs R = Inl f \<longrightarrow> query_failure f) \<and>
    (\<forall>R'. query_result E qs R = Inr R' \<longrightarrow> copied_types R')"
proof (induction qs)
  case (Cons q qs)
  show ?case
  proof (cases "query_result E qs R")
    case (Inl f)
    with Cons show ?thesis by (cases q) simp_all
  next
    case (Inr R1)
    with Cons have "copied_types R1" by simp
    from operation_failures [OF E this] Inr show ?thesis by (cases q) simp_all
  qed
qed (use R in simp)

text \<open>A query that fits the schema has its relational meaning as its outcome.\<close>

lemma query_result_ok: "query_ok E (fst R) qs \<Longrightarrow> fst R \<noteq> [] \<Longrightarrow>
  query_result E qs R = Inr (eval_query E qs R) \<and> query_schema E qs (fst R) \<noteq> []"
proof (induction qs)
  case (Cons q qs)
  then have "query_ok E (fst R) qs" by (cases q) auto
  with Cons have IH: "query_result E qs R = Inr (eval_query E qs R)" "query_schema E qs (fst R) \<noteq> []"
    by auto
  show ?case
  proof (cases q)
    case (QProject names)
    with Cons.prems(1) have "projectable E (fst (eval_query E qs R)) names" by (simp add: eval_query_schema)
    then have "names \<noteq> []" "project_result E names (eval_query E qs R) = Inr (rel_project E names (eval_query E qs R))"
      by (auto simp: project_result_def projectable_def)
    with IH(1) QProject show ?thesis by (simp add: query_schema_def rel_project_def)
  next
    case (QFilter e)
    with Cons.prems IH effective_const_free show ?thesis
      by (simp add: filter_result_def eval_query_schema)
  qed
qed simp

end
