(* ===== verification/Arrow_Values.thy ===== *)
theory Arrow_Values
  imports Query_Compiler
begin

text \<open>
  Tables as Arrow reads them. \<open>table_rel\<close> is what the executor's loops see, the elements from the
  beginning of the data buffers; a reader of an \<open>arrow::Table\<close> starts behind the array's offset and
  asks its validity bitmap first. The two readings agree on the tables without slices and nulls,
  and the executor's materialisation makes only such tables.
\<close>

section \<open>The logical contents of a table\<close>

text \<open>\<open>arrow::Array::IsValid\<close>: bit \<open>offset + i\<close> of the bitmap, the lowest bit of a byte first.\<close>

definition is_valid :: "array \<Rightarrow> nat \<Rightarrow> bool" where
  "is_valid a i =
     (case validity_buffer a of
        None \<Rightarrow> True
      | Some bm \<Rightarrow> let k = slice_offset a + i in k div 8 < length bm \<and> bit (bm ! (k div 8)) (k mod 8))"

text \<open>\<open>None\<close> is a null.\<close>

definition logical_element :: "nat \<Rightarrow> array \<Rightarrow> nat \<Rightarrow> byte list option" where
  "logical_element w a i = (if is_valid a i then Some (byte_rows w a (slice_offset a + i)) else None)"

definition logical_rel :: "table \<Rightarrow> field list \<times> byte list option list list" where
  "logical_rel t = (schema t,
     map (\<lambda>r. map (\<lambda>c. chunk_rows (logical_element (column_width c)) (chunks c) ! r) (columns t)) [0..<num_rows t])"

definition nonnull :: "relation \<Rightarrow> field list \<times> byte list option list list" where
  "nonnull R = (fst R, map (map Some) (snd R))"

section \<open>Whole tables\<close>

definition whole_array :: "array \<Rightarrow> bool" where
  "whole_array a \<longleftrightarrow> slice_offset a = 0 \<and> (\<forall>i < array_length a. is_valid a i)"

definition whole_table :: "table \<Rightarrow> bool" where
  "whole_table t \<longleftrightarrow> (\<forall>c \<in> set (columns t). \<forall>a \<in> set (chunks c). whole_array a)"

lemma whole_new_chunk: "whole_array (new_chunk typ s)"
  by (simp add: whole_array_def new_chunk_def is_valid_def)

lemma whole_chunk_rows:
  assumes "\<forall>a \<in> set cs. whole_array a"
  shows "chunk_rows (logical_element w) cs = map Some (chunk_rows (byte_rows w) cs)"
  using assms
  by (auto simp: chunk_rows_def map_concat comp_def whole_array_def logical_element_def
      intro!: arg_cong [where f = concat] map_cong)

lemma whole_logical_rel:
  assumes "table_ok t" and "whole_table t"
  shows "logical_rel t = nonnull (table_rel t)"
proof -
  have "chunk_rows (logical_element (column_width c)) (chunks c) ! r =
      Some (column_bytes (column_width c) (chunks c) r)"
    if "c \<in> set (columns t)" "r < num_rows t" for c r
  proof -
    have "total_rows (chunks c) = num_rows t" using assms(1) that(1) by (simp add: table_ok_def column_fits_def)
    with that assms(2) show ?thesis by (simp add: whole_table_def whole_chunk_rows)
  qed
  then show ?thesis by (simp add: logical_rel_def nonnull_def table_rel_def row_of_def)
qed

section \<open>The operations\<close>

lemma materialize_chunks_whole:
  assumes "materialize_chunks fuel E typ w bm cs s as = Inr bs" and "\<forall>a \<in> set as. whole_array a"
  shows "\<forall>a \<in> set bs. whole_array a"
  using assms
proof (induction fuel arbitrary: s as)
  case (Suc fuel)
  from Suc.prems(1) obtain s' where "(if total_elements_pos s' < total_rows cs
      then materialize_chunks fuel E typ w bm cs s' (as @ [new_chunk typ s'])
      else Inr (as @ [new_chunk typ s'])) = Inr bs"
    by (auto simp: bindE_eq_Inr Let_def)
  with Suc.IH [of s' "as @ [new_chunk typ s']"] Suc.prems(2) whole_new_chunk show ?case
    by (auto split: if_splits)
qed simp

lemma materialize_column_whole:
  assumes "materialize_column E w c bm = Inr c'"
  shows "\<forall>a \<in> set (chunks c'). whole_array a"
proof -
  from assms obtain bs where "materialize_chunks (total_rows (chunks c) + 1) E (chunked_type c) w bm (chunks c)
      \<lparr>current_chunk = 0, current_chunk_pos = 0, total_elements_pos = 0, new_chunk_pos = 0, data_out = []\<rparr> [] = Inr bs"
    and "c' = \<lparr>chunked_type = chunked_type c, chunks = bs\<rparr>"
    unfolding materialize_column_def bindE_eq_Inr by blast
  with materialize_chunks_whole show ?thesis by fastforce
qed

lemma materialize_filter_whole:
  assumes "materialize_filter E ctx = Inr ctx'"
  shows "whole_table (ctx_table ctx')"
proof -
  have typed: "\<forall>a \<in> set (chunks c'). whole_array a" if "materialize_typed E bm c = Inr c'" for bm c c'
    using that materialize_column_whole
    by (cases "id_of (chunked_type c)") (simp_all add: materialize_typed_def)
  from assms obtain bm cs where "mapE (materialize_typed E bm) (columns (ctx_table ctx)) = Inr cs"
    and "new_context (make_table E (schema (ctx_table ctx)) cs) = Inr ctx'"
    by (auto simp: materialize_filter_def bindE_eq_Inr split: option.splits)
  then have "list_all2 (\<lambda>c c'. materialize_typed E bm c = Inr c') (columns (ctx_table ctx)) cs"
    and "columns (ctx_table ctx') = cs"
    by (simp_all add: mapE_eq_Inr new_context_table make_table_def)
  moreover have "\<exists>c. f c = Inr c'" if "list_all2 (\<lambda>c c'. f c = Inr c') cs' cs" "c' \<in> set cs"
    for c' cs' and f :: "chunked_array \<Rightarrow> chunked_array result"
    using that by (induction rule: list_all2_induct) auto
  ultimately show ?thesis using typed unfolding whole_table_def by blast
qed

lemma project_whole:
  assumes "project E ctx names = Inr ctx'" and "whole_table (ctx_table ctx)"
  shows "whole_table (ctx_table ctx')"
proof -
  from assms(1) obtain cs where "mapE (project_column E (ctx_table ctx)) names = Inr cs"
    and "columns (ctx_table ctx') = map snd cs"
    by (auto simp: project_def bindE_eq_Inr new_context_table make_table_def)
  moreover have "snd fc \<in> set (columns (ctx_table ctx))" if "project_column E (ctx_table ctx) n = Inr fc" for n fc
    using that by (auto simp: project_column_def bindE_eq_Inr deref_eq_Inr GetColumnByName_def
        bind_eq_Some_conv split: if_splits)
  ultimately show ?thesis
    using assms(2) by (fastforce simp: whole_table_def mapE_eq_Inr list_all2_conv_all_nth in_set_conv_nth)
qed

lemma generate_filter_bitmap_table:
  "generate_filter_bitmap E ctx e j = Inr (ctx', j') \<Longrightarrow> ctx_table ctx' = ctx_table ctx"
  by (auto simp: generate_filter_bitmap_def Let_def bindE_eq_Inr new_context_table split: if_splits)

lemma execute_ops_whole:
  assumes "foldE (execute_op E) ops cj = Inr cj'" and "whole_table (ctx_table (fst cj)) \<or> OpMaterialize \<in> set ops"
  shows "whole_table (ctx_table (fst cj'))"
  using assms
proof (induction ops arbitrary: cj)
  case (Cons op ops)
  obtain ctx j where cj: "cj = (ctx, j)" by fastforce
  from Cons.prems(1) obtain ctx1 j1 where step: "execute_op E op (ctx, j) = Inr (ctx1, j1)"
    and rest: "foldE (execute_op E) ops (ctx1, j1) = Inr cj'"
    by (auto simp: bindE_eq_Inr cj)
  have "whole_table (ctx_table ctx1) \<or> OpMaterialize \<in> set ops"
    using step Cons.prems(2)
    by (cases op) (auto simp: execute_op_def bindE_eq_Inr cj project_whole generate_filter_bitmap_table
        intro: materialize_filter_whole)
  with Cons.IH [OF rest] show ?case by simp
qed simp

lemma OpMaterialize_plan: "OpMaterialize \<in> set (plan_of (join_query qs)) \<longleftrightarrow> (\<exists>e. QFilter e \<in> set qs)"
proof -
  have plan: "OpMaterialize \<in> set (plan_of qs) \<longleftrightarrow> (\<exists>e. QFilter e \<in> set qs)" for qs
    by (induction qs rule: plan_of.induct) auto
  have "(\<exists>e. QFilter e \<in> set (join_query qs)) \<longleftrightarrow> (\<exists>e. QFilter e \<in> set qs)"
    by (induction qs rule: join_query.induct) (auto split: list.splits query_op.splits)
  with plan show ?thesis by blast
qed

lemma query_execute_whole:
  assumes "represents h (Some a) (plan_of qs)" and "query_execute E (Some a) t h j = Inr (t', h', j')"
    and "whole_table t \<or> (\<exists>e. QFilter e \<in> set qs)"
  shows "whole_table t'"
proof -
  obtain h1 where "query_execute E (Some a) t h j = bindE (new_context t) (\<lambda>ctx.
      bindE (foldE (execute_op E) (rev (plan_of (join_query qs))) (ctx, j)) (\<lambda>(ctx', j').
        Inr (ctx_table ctx', h1, j')))"
    by (rule query_execute_ops [OF assms(1)])
  with assms(2) obtain ctx cj where "new_context t = Inr ctx"
    and run: "foldE (execute_op E) (rev (plan_of (join_query qs))) (ctx, j) = Inr cj" "t' = ctx_table (fst cj)"
    by (auto simp: bindE_eq_Inr)
  then have "ctx_table ctx = t" by (simp add: new_context_table)
  with execute_ops_whole [OF run(1)] assms(3) run(2) show ?thesis by (auto simp: OpMaterialize_plan)
qed

end
