(* ===== verification/Query_Properties.thy ===== *)
theory Query_Properties
  imports Samples Query_Outcomes Arrow_Values
begin

text \<open>
  Properties of arbitrary queries: their exact outcome, the failures there are, what joining
  filters changes, and that plans and tables survive being written and read back.
\<close>

section \<open>Arbitrary queries\<close>

text \<open>
  C2: The outcome of every query on a table that the executor handles: the joined query's
  operations are evaluated from the first to the last, each filter as its effective expression;
  the result is the relation that is left, or the failure of the first operation that fails, be
  it an unknown column, a literal of the wrong alternative, a constant where a bitmap is needed
  or a filter of a table without columns.
\<close>

theorem query_outcome_exact:
  assumes "third_party_ok E" and "table_ok t" and "idle E j" and "qs \<noteq> []"
    and "build_query qs h = (m, h1)"
  shows "case query_result E (join_query qs) (table_rel t) of
      Inl f \<Rightarrow> query_execute E m t h1 j = Inl f
    | Inr R \<Rightarrow> \<exists>t' h' j'. query_execute E m t h1 j = Inr (t', h', j') \<and> table_rel t' = R \<and> idle E j'"
proof -
  obtain a where m: "m = Some a" using build_query_root [OF assms(4,5)] by blast
  then have "represents h1 (Some a) (plan_of qs)" using build_query_plan [OF assms(5)] by simp
  from query_outcome [OF assms(1-3) this] show ?thesis
    by (cases "query_result E (join_query qs) (table_rel t)") (auto simp: m)
qed

definition unknown_filter :: bool_expr where
  "unknown_filter = AND_expr (GT (col ''a'') (lit (LInt 2))) (LT (col ''z'') (lit (LInt 1)))"

lemma sample_index_unknown: "column_index sample_third_party (schema sample_table) ''z'' = None"
  by (simp add: column_index_def sample_third_party_def sample_table_def field_a_def field_b_def)

lemma unknown_filter_query:
  "build_query [QFilter unknown_filter] [] =
    (Some 1, [FilterNode None unknown_filter, MaterializeFilterNode (Some 0)])"
  "query_result sample_third_party (join_query [QFilter unknown_filter]) (table_rel sample_table) = Inl NullPointer"
proof -
  have "const_from_variant sample_third_party int32_type (LInt 2) = Inr (VI32 2)"
    by (simp add: const_from_variant_def arrow_typed_const_int_def type_cases int32_type_def llvm_consts)
  then have "check_compare sample_third_party (schema sample_table) (ColumnRef ''a'') (LiteralExpr (LInt 2)) =
      Inr (VI32 2)"
    using sample_index(1) by (simp add: check_compare_def) (simp add: sample_table_def field_a_def)
  moreover have "check_compare sample_third_party (schema sample_table) (ColumnRef ''z'') x = Inl NullPointer" for x
    using sample_index_unknown by (simp add: check_compare_def)
  moreover have "schema sample_table \<noteq> []" by (simp add: sample_table_def)
  ultimately show "query_result sample_third_party (join_query [QFilter unknown_filter]) (table_rel sample_table) = Inl NullPointer"
    by (simp add: filter_result_def table_rel_def unknown_filter_def expr_factories)
qed (simp add: empty_query_def query_filter_def make_node_def)

theorem query_outcome_exact_witness:
  "query_execute sample_third_party (Some 1) sample_table
     [FilterNode None unknown_filter, MaterializeFilterNode (Some 0)] sample_jit = Inl NullPointer"
  using query_outcome_exact [OF sample_third_party_ok sample_table_ok sample_jit_idle _ unknown_filter_query(1)]
    unknown_filter_query(2) by simp

text \<open>
  C3: No query can make the executor leave a buffer, run without end, overflow a counter, abort
  the process or run code without a defined value, as long as the table's layout is one that the
  kernels handle: a query that does not return stops with a null pointer, \<open>std::bad_variant_access\<close>
  or \<open>UnreachableException\<close>.
\<close>

theorem query_failures_known:
  assumes "third_party_ok E" and "table_ok t" and "idle E j" and "qs \<noteq> []"
    and "build_query qs h = (m, h1)" and "query_execute E m t h1 j = Inl f"
  shows "f \<in> {NullPointer, BadVariantAccess, Thrown UnreachableException}"
proof -
  obtain a where m: "m = Some a" using build_query_root [OF assms(4,5)] by blast
  then have "represents h1 (Some a) (plan_of qs)" using build_query_plan [OF assms(5)] by simp
  from query_outcome [OF assms(1-3) this] assms(6) m
  have "query_result E (join_query qs) (table_rel t) = Inl f"
    by (cases "query_result E (join_query qs) (table_rel t)") auto
  with query_failures [OF assms(1) copied_types_table [OF assms(2)]] show ?thesis
    unfolding query_failure_def by blast
qed

theorem query_failures_known_witness:
  "\<exists>f. query_execute sample_third_party (Some 1) sample_table
      [FilterNode None unknown_filter, MaterializeFilterNode (Some 0)] sample_jit = Inl f \<and>
    f \<in> {NullPointer, BadVariantAccess, Thrown UnreachableException}"
proof -
  obtain a where "represents [FilterNode None unknown_filter, MaterializeFilterNode (Some 0)] (Some a)
      (plan_of [QFilter unknown_filter])" and a: "a = 1"
    using build_query_plan [OF unknown_filter_query(1)] by simp
  from query_outcome [OF sample_third_party_ok sample_table_ok sample_jit_idle this(1)] unknown_filter_query(2) a
  have run: "query_execute sample_third_party (Some 1) sample_table
      [FilterNode None unknown_filter, MaterializeFilterNode (Some 0)] sample_jit = Inl NullPointer" by simp
  from query_failures_known [OF sample_third_party_ok sample_table_ok sample_jit_idle _ unknown_filter_query(1) run] run
  show ?thesis by blast
qed

text \<open>
  C26: Joining filters changes what a query does when an expression is a constant: a filter by
  \<open>e\<close> followed by a filter by any constant keeps the rows of \<open>e\<close>, also for the constant \<open>false\<close>,
  while the same operations executed one by one throw.
\<close>

theorem joined_constant_is_ignored:
  assumes "third_party_ok E" and "table_ok t" and "idle E j" and "expr_ok E (schema t) e"
    and "build_query [QFilter (BooleanConst b), QFilter e] h = (m, h1)" and "new_context t = Inr ctx"
  shows "(\<exists>t' h' j'. query_execute E m t h1 j = Inr (t', h', j') \<and>
      table_rel t' = rel_filter E e (table_rel t)) \<and>
    foldE (execute_op E) (rev (plan_of [QFilter (BooleanConst b), QFilter e])) (ctx, j) =
      Inl (Thrown UnreachableException)"
proof
  obtain a where m: "m = Some a" using build_query_root [OF _ assms(5)] by blast
  then have plan: "represents h1 (Some a) (plan_of [QFilter (BooleanConst b), QFilter e])"
    using build_query_plan [OF assms(5)] by simp
  have schema: "fst (table_rel t) = schema t" "schema t \<noteq> []"
    using table_ok_first_chunks [OF assms(2)] by (simp_all add: table_rel_def)
  note eff = effective_const_free [OF assms(4)]
  have "query_result E (join_query [QFilter (BooleanConst b), QFilter e]) (table_rel t) =
      Inr (rel_filter E e (table_rel t))"
    using schema eff by (simp add: filter_result_def AND_expr_def)
  with query_outcome [OF assms(1-3) plan] m
  show "\<exists>t' h' j'. query_execute E m t h1 j = Inr (t', h', j') \<and> table_rel t' = rel_filter E e (table_rel t)"
    by auto
  have "query_result E [QFilter (BooleanConst b), QFilter e] (table_rel t) = Inl (Thrown UnreachableException)"
    using schema eff by (simp add: filter_result_def rel_filter_def)
  moreover have "ctx_table ctx = t" by (rule new_context_table [OF assms(6)])
  ultimately show "foldE (execute_op E) (rev (plan_of [QFilter (BooleanConst b), QFilter e])) (ctx, j) =
      Inl (Thrown UnreachableException)"
    using execute_ops_outcome [OF assms(1) _ assms(3), of ctx "[QFilter (BooleanConst b), QFilter e]"] assms(2)
    by (simp add: runnable_def del: plan_of.simps foldE.simps query_result.simps)
qed

theorem joined_constant_is_ignored_witness:
  "\<exists>h1 t' h' j'. build_query [QFilter (BooleanConst False), QFilter sample_expr] [] = (Some 3, h1) \<and>
    query_execute sample_third_party (Some 3) sample_table h1 sample_jit = Inr (t', h', j') \<and>
    table_rel t' = rel_filter sample_third_party sample_expr (table_rel sample_table)"
proof -
  obtain h1 where h1: "build_query [QFilter (BooleanConst False), QFilter sample_expr] [] = (Some 3, h1)"
    by (simp add: empty_query_def query_filter_def make_node_def)
  obtain ctx where "new_context sample_table = Inr ctx"
    by (rule new_context_ok [OF table_ok_columns(4) [OF sample_table_ok]])
  with joined_constant_is_ignored [OF sample_third_party_ok sample_table_ok sample_jit_idle sample_expr_ok h1] h1
  show ?thesis by blast
qed

text \<open>
  Every comparison of an expression names a column of the table and has a literal of the
  alternative that the column needs; constants may stand anywhere.
\<close>

definition comparisons_fit :: "third_party \<Rightarrow> field list \<Rightarrow> bool_expr \<Rightarrow> bool" where
  "comparisons_fit E S e \<longleftrightarrow> (\<forall>(c, x, op) \<in> set (comparisons e). expr_ok E S (CompareExpr c x op))"

lemma comparisons_fit_simps [simp]:
  "comparisons_fit E S (BooleanConst b)"
  "comparisons_fit E S (CompareExpr c x op) \<longleftrightarrow> expr_ok E S (CompareExpr c x op)"
  "comparisons_fit E S (PredicateExpr l r pop) \<longleftrightarrow> comparisons_fit E S l \<and> comparisons_fit E S r"
  by (auto simp: comparisons_fit_def ball_Un)

lemma effective_fits:
  assumes "comparisons_fit E S e"
  shows "\<exists>q. effective E S e (Some p) = Inr (Some q)"
    and "effective E S e None =
      (if \<not> starts_const e then effective E S e (Some p)
       else if \<exists>b. e = BooleanConst b then Inr None else Inl NullPointer)"
  using assms
proof (induction e arbitrary: p)
  case (CompareExpr c x op)
  {
    case 1
    then show ?case using effective_const_free [of E S "CompareExpr c x op"] by auto
  next
    case 2
    then show ?case using effective_const_free [of E S "CompareExpr c x op"] by auto
  }
next
  case (PredicateExpr l r op)
  {
    case 1
    with PredicateExpr.IH(1) [of p] obtain l' where "effective E S l (Some p) = Inr (Some l')" by auto
    moreover from 1 PredicateExpr.IH(3) [of l'] obtain r' where "effective E S r (Some l') = Inr (Some r')" by auto
    ultimately show ?case by simp
  next
    case 2
    then have fit: "comparisons_fit E S l" "comparisons_fit E S r" by simp_all
    show ?case
    proof (cases "starts_const l")
      case False
      with PredicateExpr.IH(2) [OF fit(1), of p] show ?thesis by simp
    next
      case True
      have "\<exists>q. effective E S r (Some p) = Inr (Some q)" by (rule PredicateExpr.IH(3) [OF fit(2)])
      with True PredicateExpr.IH(2) [OF fit(1), of p] PredicateExpr.IH(4) [OF fit(2), of p] show ?thesis
        by (auto simp: starts_const.simps split: if_splits)
    qed
  }
qed simp_all

text \<open>
  C27: The evaluation of a filter dereferences a null pointer exactly if its expression is a
  connective whose leftmost leaf is a constant: the visitor has no buffer yet when it reaches the
  innermost connective of that leaf. Of every other expression, wherever else its constants are, it
  computes a bitmap, or none if the expression is a constant alone.
\<close>

theorem left_constant_crashes:
  assumes "third_party_ok E" and "table_ok (ctx_table ctx)" and "idle E j"
    and "comparisons_fit E (schema (ctx_table ctx)) e"
  shows "if starts_const e \<and> (\<exists>l r op. e = PredicateExpr l r op)
    then generate_filter_bitmap E ctx e j = Inl NullPointer
    else \<exists>ctx' j'. generate_filter_bitmap E ctx e j = Inr (ctx', j') \<and> ctx_table ctx' = ctx_table ctx \<and>
      (filter_bitmap (ctx_metadata ctx') = None \<longleftrightarrow> starts_const e)"
proof -
  let ?S = "schema (ctx_table ctx)"
  note fits = effective_fits [OF assms(4), of "BooleanConst True"]
  note outcome = bitmap_outcome [OF assms(1,2) refl assms(3), of e]
  show ?thesis
  proof (cases "starts_const e")
    case True
    show ?thesis
    proof (cases "\<exists>b. e = BooleanConst b")
      case True
      with outcome obtain ctx' s where "generate_filter_bitmap E ctx e j = Inr (ctx', the_jit s)"
        "ctx_table ctx' = ctx_table ctx" "filter_bitmap (ctx_metadata ctx') = executor_result s"
        "tracks E (ctx_table ctx) s None" by auto
      with True show ?thesis by (auto simp: tracks_def executor_result_def)
    next
      case False
      with True fits(2) have "effective E ?S e None = Inl NullPointer" by simp
      with outcome have "generate_filter_bitmap E ctx e j = Inl NullPointer" by simp
      with True False show ?thesis by (cases e) auto
    qed
  next
    case False
    with fits obtain q where "effective E ?S e None = Inr (Some q)" by auto
    with outcome obtain ctx' s where "generate_filter_bitmap E ctx e j = Inr (ctx', the_jit s)"
      "ctx_table ctx' = ctx_table ctx" "filter_bitmap (ctx_metadata ctx') = executor_result s"
      "tracks E (ctx_table ctx) s (Some q)" by auto
    with False show ?thesis by (auto simp: executor_result_def elim!: tracks_Some)
  qed
qed

lemma sample_expr_fits: "comparisons_fit sample_third_party (schema sample_table) sample_expr"
  using sample_expr_ok by (auto simp: comparisons_fit_def expr_ok_def)

theorem left_constant_crashes_witness:
  "generate_filter_bitmap sample_third_party (context_of sample_table)
     (OR_expr (AND_expr (BooleanConst True) sample_expr) sample_expr) sample_jit = Inl NullPointer \<and>
   (\<exists>ctx' j'. generate_filter_bitmap sample_third_party (context_of sample_table)
      (OR_expr sample_expr (AND_expr (BooleanConst True) sample_expr)) sample_jit = Inr (ctx', j'))"
proof -
  let ?left = "OR_expr (AND_expr (BooleanConst True) sample_expr) sample_expr"
    and ?right = "OR_expr sample_expr (AND_expr (BooleanConst True) sample_expr)"
  have t: "ctx_table (context_of sample_table) = sample_table" by (simp add: context_of_def)
  have fit: "comparisons_fit sample_third_party (schema sample_table) ?left"
    "comparisons_fit sample_third_party (schema sample_table) ?right"
    by (simp_all add: OR_expr_def AND_expr_def sample_expr_fits)
  have starts: "starts_const ?left" "\<not> starts_const ?right" "\<exists>l r op. ?left = PredicateExpr l r op"
    by (simp_all add: sample_expr_def expr_factories)
  note crashes = left_constant_crashes [OF sample_third_party_ok _ sample_jit_idle, of "context_of sample_table",
      unfolded t, OF sample_table_ok]
  show ?thesis using crashes [OF fit(1)] crashes [OF fit(2)] starts by auto
qed

text \<open>
  C24: A connective that is a right operand and starts with a constant works on the buffer of the
  operand on its left: \<open>e1 op (b op' e2)\<close> selects the rows of \<open>e1 op' e2\<close>, whatever the constant
  \<open>b\<close> and the outer operator are, because the inner connective joins its right operand into the
  bitmap of \<open>e1\<close>, and the outer one joins that bitmap with itself. So \<open>e1 AND (false OR e2)\<close>
  selects the rows of \<open>e1 OR e2\<close>.
\<close>

theorem nested_left_constant:
  assumes "third_party_ok E" and "table_ok (ctx_table ctx)" and "idle E j"
    and "expr_ok E (schema (ctx_table ctx)) e1" and "expr_ok E (schema (ctx_table ctx)) e2"
  shows "\<exists>ctx' j' B. generate_filter_bitmap E ctx (PredicateExpr e1 (PredicateExpr (BooleanConst b) e2 op') op) j = Inr (ctx', j') \<and>
    filter_bitmap (ctx_metadata ctx') = Some B \<and>
    (\<forall>r < num_rows (ctx_table ctx). bm_bit B r \<longleftrightarrow> row_holds E (ctx_table ctx) (PredicateExpr e1 e2 op') r)"
proof -
  let ?t = "ctx_table ctx" and ?e = "PredicateExpr e1 (PredicateExpr (BooleanConst b) e2 op') op"
  note e = effective_const_free [OF assms(4)] effective_const_free [OF assms(5)]
  have "effective E (schema ?t) ?e None = Inr (Some (PredicateExpr e1 e2 op'))" by (simp add: e)
  with bitmap_outcome [OF assms(1,2) refl assms(3), of ?e] obtain ctx' s where
    run: "generate_filter_bitmap E ctx ?e j = Inr (ctx', the_jit s)"
      "filter_bitmap (ctx_metadata ctx') = executor_result s" "tracks E ?t s (Some (PredicateExpr e1 e2 op'))"
    by auto
  from run(3) obtain a where "m_buffer s = Some a"
    "bitmap_of ?t (row_holds E ?t (PredicateExpr e1 e2 op')) (buffers s ! a)" by (rule tracks_Some)
  with run(1,2) show ?thesis by (auto simp: executor_result_def bitmap_of_def)
qed

theorem nested_left_constant_witness:
  "\<exists>ctx' j' B. generate_filter_bitmap sample_third_party (context_of sample_table)
      (AND_expr (GT (col ''a'') (lit (LInt 2))) (OR_expr (BooleanConst False) (LT (col ''b'') (lit (LInt 17))))) sample_jit =
      Inr (ctx', j') \<and> filter_bitmap (ctx_metadata ctx') = Some B \<and>
    (\<forall>r < 9. bm_bit B r \<longleftrightarrow> row_holds sample_third_party sample_table
       (OR_expr (GT (col ''a'') (lit (LInt 2))) (LT (col ''b'') (lit (LInt 17)))) r)"
proof -
  have "expr_ok sample_third_party (schema sample_table) (GT (col ''a'') (lit (LInt 2)))"
    "expr_ok sample_third_party (schema sample_table) (LT (col ''b'') (lit (LInt 17)))"
    using sample_expr_ok by (auto simp: sample_expr_def AND_expr_def expr_ok_def)
  with nested_left_constant [OF sample_third_party_ok _ sample_jit_idle, of "context_of sample_table"] sample_table_ok
  show ?thesis by (simp add: context_of_def AND_expr_def OR_expr_def sample_table_def)
qed

lemma map_sum_bindE: "map_sum id g (bindE m f) = bindE m (\<lambda>x. map_sum id g (f x))"
  by (cases m) auto

text \<open>
  C17: Queries with the same joined form cannot be told apart: on every table, with every JIT,
  they return the same table or stop with the same failure, and leave the same JIT. So a filter by
  a conjunction may be split into two filters in a row, or two filters be written as one.
\<close>

theorem joined_queries_equivalent:
  assumes "join_query qs = join_query rs" and "qs \<noteq> []" and "rs \<noteq> []"
    and "build_query qs f = (m, f')" and "build_query rs g = (n, g')"
  shows "map_sum id (\<lambda>(t', _, j'). (t', j')) (query_execute E m t f' j) =
    map_sum id (\<lambda>(t', _, j'). (t', j')) (query_execute E n t g' j)"
proof -
  have run: "map_sum id (\<lambda>(t', _, j'). (t', j')) (query_execute E m t h' j) =
      bindE (new_context t) (\<lambda>ctx. bindE (foldE (execute_op E) (rev (plan_of (join_query qs))) (ctx, j))
        (\<lambda>(ctx', j'). Inr (ctx_table ctx', j')))"
    if ne: "qs \<noteq> []" and build: "build_query qs h = (m, h')" for qs h m h'
  proof -
    obtain a where m: "m = Some a" using build_query_root [OF ne build] by blast
    then have "represents h' (Some a) (plan_of qs)" using build_query_plan [OF build] by simp
    then obtain h'' where "query_execute E (Some a) t h' j = bindE (new_context t) (\<lambda>ctx.
        bindE (foldE (execute_op E) (rev (plan_of (join_query qs))) (ctx, j)) (\<lambda>(ctx', j').
          Inr (ctx_table ctx', h'', j')))" by (rule query_execute_ops)
    then show ?thesis by (simp add: m map_sum_bindE case_prod_unfold)
  qed
  show ?thesis using run [OF assms(2,4)] run [OF assms(3,5)] assms(1) by simp
qed

theorem joined_queries_equivalent_witness:
  "map_sum id (\<lambda>(t', _, j'). (t', j')) (query_execute sample_third_party (Some 3) sample_table
      [FilterNode None (GT (col ''a'') (lit (LInt 2))), MaterializeFilterNode (Some 0),
       FilterNode (Some 1) (LT (col ''b'') (lit (LInt 17))), MaterializeFilterNode (Some 2)] sample_jit) =
   map_sum id (\<lambda>(t', _, j'). (t', j')) (query_execute sample_third_party (Some 1) sample_table
      [FilterNode None sample_expr, MaterializeFilterNode (Some 0)] sample_jit)"
  by (rule joined_queries_equivalent [where f = "[]" and g = "[]"
        and qs = "[QFilter (LT (col ''b'') (lit (LInt 17))), QFilter (GT (col ''a'') (lit (LInt 2)))]"
        and rs = "[QFilter sample_expr]"])
    (simp_all add: sample_expr_def empty_query_def query_filter_def make_node_def)

section \<open>Reading plans back\<close>

text \<open>A visitor that lists the operations of a plan in the order it meets them.\<close>

definition read_node :: "nat \<Rightarrow> plan_store \<times> plan_op list \<Rightarrow> (plan_store \<times> plan_op list) result" where
  "read_node a st = (let (h, ops) = st in Inr (h, ops @ [node_op (h ! a)]))"

definition plan_reader :: "plan_op list plan_visitor" where
  "plan_reader = \<lparr>on_projection = read_node, on_filter = read_node, on_materialize = read_node\<rparr>"

interpretation reader: plan_walker plan_reader "\<lambda>op st. Inr (fst st, snd st @ [op])" "\<lambda>h0 st. fst st = h0"
proof (unfold_locales, goal_cases)
  case (2 h0 st a)
  then show ?case
    by (cases "h0 ! a"; cases st) (auto simp: on_visit_def plan_reader_def read_node_def)
qed auto

lemma read_steps: "foldE (\<lambda>op st. Inr (fst st, snd st @ [op])) ops (h, acc) = Inr (h, acc @ ops)"
  by (induction ops arbitrary: acc) auto

lemma plan_reader_reads:
  assumes "represents h (Some a) ops"
  shows "visit_plan plan_reader (Some a) (h, []) = Inr (h, rev ops)"
  using reader.visit_plan_steps [OF assms, of "(h, [])"] by (simp add: read_steps)

text \<open>The calls that a plan's operations come from, the last one first.\<close>

fun parse_plan :: "plan_op list \<Rightarrow> query_op list option" where
  "parse_plan [] = Some []"
| "parse_plan (OpProject names # ops) = map_option ((#) (QProject names)) (parse_plan ops)"
| "parse_plan (OpMaterialize # OpFilter e # ops) = map_option ((#) (QFilter e)) (parse_plan ops)"
| "parse_plan _ = None"

lemma parse_plan_of: "parse_plan (plan_of qs) = Some qs"
  by (induction qs rule: plan_of.induct) auto

definition example_plan :: plan_store where
  "example_plan =
     [FilterNode None sample_expr, MaterializeFilterNode (Some 0), ProjectionNode (Some 1) [''b'']]"

text \<open>
  C16: A query can be read back from its plan: a visitor that lists the nodes it meets recovers
  exactly the calls of \<open>project\<close> and \<open>filter\<close> that built the plan, with their arguments and in
  their order; from the optimizer's plan it recovers them with adjacent filters joined.
\<close>

theorem plan_roundtrip:
  assumes "build_query qs h = (m, h1)" and "qs \<noteq> []"
  shows "(\<exists>ops. visit_plan plan_reader m (h1, []) = Inr (h1, ops) \<and> parse_plan (rev ops) = Some qs) \<and>
    (\<exists>ps h2 r ops. run_passes (add_pass join_filter_pass_create []) m h1 = Inr (ps, h2, r) \<and>
       visit_plan plan_reader r (h2, []) = Inr (h2, ops) \<and> parse_plan (rev ops) = Some (join_query qs))"
proof -
  obtain a where m: "m = Some a" using build_query_root [OF assms(2,1)] by blast
  then have plan: "represents h1 (Some a) (plan_of qs)" using build_query_plan [OF assms(1)] by simp
  obtain ps h2 r where opt: "run_passes (add_pass join_filter_pass_create []) (Some a) h1 = Inr (ps, h2, r)"
    "represents h2 r (plan_of (join_query qs))"
    by (rule optimizer_joins [OF plan, unfolded join_query_plan])
  obtain b where "r = Some b" by (rule join_query_root [OF opt(2) assms(2)])
  with opt plan_reader_reads [of h2 b] plan_reader_reads [OF plan] m parse_plan_of show ?thesis by simp
qed

theorem plan_roundtrip_witness:
  "\<exists>ops. visit_plan plan_reader (Some 2) (example_plan, []) = Inr (example_plan, ops) \<and>
    parse_plan (rev ops) = Some [QProject [''b''], QFilter sample_expr]"
proof -
  have "build_query [QProject [''b''], QFilter sample_expr] [] = (Some 2, example_plan)"
    by (simp add: empty_query_def query_filter_def query_project_def make_node_def example_plan_def)
  from plan_roundtrip [OF this] show ?thesis by blast
qed

section \<open>Slices and nulls\<close>

text \<open>
  C20: What Arrow reads in a query's result. On a table without slices and nulls, the result is
  such a table again, and its logical rows are those that the query denotes on the logical rows of
  the table. On a table with slices or nulls, every query with a filter returns a table without
  any, whose logical rows are computed from the elements at the beginning of the table's data
  buffers: its nulls come back as values, and the rows of its slices as those in front of them.
\<close>

theorem query_logical_contents:
  assumes "third_party_ok E" and "table_ok t" and "idle E j" and "qs \<noteq> []"
    and "query_ok E (schema t) qs" and "build_query qs h = (m, h1)"
    and "whole_table t \<or> (\<exists>e. QFilter e \<in> set qs)"
  shows "\<exists>t' h' j'. query_execute E m t h1 j = Inr (t', h', j') \<and> whole_table t' \<and>
    logical_rel t' = nonnull (eval_query E qs (table_rel t)) \<and>
    (whole_table t \<longrightarrow> logical_rel t = nonnull (table_rel t))"
proof -
  obtain a where m: "m = Some a" using build_query_root [OF assms(4,6)] by blast
  then have plan: "represents h1 (Some a) (plan_of qs)" using build_query_plan [OF assms(6)] by simp
  obtain t' h' j' where run: "query_execute E (Some a) t h1 j = Inr (t', h', j')"
    "table_ok t'" "table_rel t' = eval_query E qs (table_rel t)"
    by (rule query_execute_ok [OF assms(1-3) plan assms(5)])
  have "whole_table t'" by (rule query_execute_whole [OF plan run(1) assms(7)])
  with run whole_logical_rel [OF run(2)] whole_logical_rel [OF assms(2)] m show ?thesis by auto
qed

definition null_bytes :: chunked_array where
  "null_bytes = sample_bytes\<lparr>chunks := map (\<lambda>a. a\<lparr>validity_buffer := Some [0, 0]\<rparr>) (chunks sample_bytes)\<rparr>"

definition null_table :: table where
  "null_table = sample_table\<lparr>columns := [sample_column, null_bytes]\<rparr>"

theorem query_logical_contents_witness:
  "\<exists>h1 t' h' j'. build_query [QFilter sample_expr] [] = (Some 1, h1) \<and>
    query_execute sample_third_party (Some 1) null_table h1 sample_jit = Inr (t', h', j') \<and>
    \<not> whole_table null_table \<and> whole_table t' \<and>
    logical_rel t' = nonnull (eval_query sample_third_party [QFilter sample_expr] (table_rel null_table))"
proof -
  obtain h1 where h1: "build_query [QFilter sample_expr] [] = (Some 1, h1)"
    by (simp add: empty_query_def query_filter_def make_node_def)
  have "column_fits 9 null_bytes"
    by (auto simp: column_fits_def null_bytes_def total_rows_def array_fits_def materialize_size_def sample_defs
        layout_ok_def chunk_start_def less_Suc_eq)
  then have ok: "table_ok null_table"
    using sample_table_ok by (simp add: table_ok_def null_table_def null_bytes_def sample_table_def)
  have "query_ok sample_third_party (schema null_table) [QFilter sample_expr]"
    using sample_expr_ok by (simp add: null_table_def)
  moreover have "\<not> whole_table null_table"
    by (auto simp: whole_table_def null_table_def null_bytes_def whole_array_def is_valid_def sample_defs
        intro!: exI [of _ 0])
  ultimately show ?thesis
    using query_logical_contents [OF sample_third_party_ok ok sample_jit_idle _ _ h1] h1 by auto
qed

end
