(* ===== verification/Spec2Isabelle.thy ===== *)
theory Spec2Isabelle
  imports Execution_Properties Jit_Properties Query_Properties
begin

text \<open>
  A verification development of pefa, a query engine that filters and projects Apache Arrow
  tables and compiles its filters with LLVM (the C++ sources under \<^verbatim>\<open>pefa/\<close>).

  \<^bold>\<open>The program.\<close> A \<^verbatim>\<open>QueryCompiler\<close> collects calls of \<^verbatim>\<open>project\<close> and
  \<^verbatim>\<open>filter\<close> in a logical plan. \<^verbatim>\<open>QueryCompiler::execute\<close> rebuilds the plan with
  \<^verbatim>\<open>JoinFilterPass\<close>, which merges adjacent filters, wraps the table in an
  \<^verbatim>\<open>ExecutionContext\<close> and lets \<^verbatim>\<open>ExecutePlanVisitor\<close> call \<^verbatim>\<open>project\<close>,
  \<^verbatim>\<open>generate_filter_bitmap\<close> and \<^verbatim>\<open>materialize_filter\<close>. A filter's expression is walked by
  \<^verbatim>\<open>FilterExprExecutor\<close>; for every comparison it compiles a \<^verbatim>\<open>FilterKernel\<close>: LLVM IR for a
  predicate and two loops, added to the process-wide \<^verbatim>\<open>JIT\<close>. The kernel is run over the
  chunks of the column in two passes, one for the full bytes of the bitmap and one for the bytes
  that a chunk boundary splits.

  \<^bold>\<open>The theories.\<close>
  \<^item> \<open>Prelude\<close>: the exceptions of \<^verbatim>\<open>utils/exceptions.h\<close> and the other ways a run can fail as values
    of a sum type, sequencing, and elements of fixed width in byte buffers.
  \<^item> \<open>Expressions\<close>: \<^verbatim>\<open>query_compiler/expressions\<close>, the expression classes as datatypes and the
    visitor as a record of its methods.
  \<^item> \<open>LLVM_IR\<close>: the instructions that \<^verbatim>\<open>kernels/filter.cpp\<close> emits and their meaning as the LLVM
    language reference documents it, with words of their width; every access is checked
    against its buffer. \<open>IR_Typing\<close>: the verifier's typing rules for them, with their soundness.
    \<open>LLVM_Objects\<close>: the objects of LLVM that \<^verbatim>\<open>jit/jit.cpp\<close> configures, as data.
  \<^item> \<open>Third_Party\<close>: Arrow's containers as records, and the library functions the code calls
    as fields of the parameter \<open>third_party\<close>; \<open>third_party_ok\<close> states what their documentation
    promises, and \<open>sample_third_party\<close> is an instance.
  \<^item> \<open>LLVM_Types\<close>: \<^verbatim>\<open>utils/llvm_helpers.h\<close> and the case macros of \<^verbatim>\<open>utils/utils.h\<close>; \<open>Jit\<close>:
    \<^verbatim>\<open>jit/jit.cpp\<close>, the engine's settings, the pass pipeline of \<open>optimizeModule\<close>, keys, resolvers,
    live modules and symbol lookup, with its reachable sessions as an inductive predicate.
  \<^item> \<open>Filter_Kernel\<close>: \<^verbatim>\<open>kernels/filter.cpp\<close>. \<open>Predicate_Emit\<close> proves that the emitted predicate
    computes the expression, \<open>Emit_Typing\<close> that the emitted module is well typed,
    \<open>Filter_Loops\<close> that the two emitted loops terminate and compute
    the loops of their C comment (\<open>Bitmaps\<close>), \<open>Loop_Overrun\<close> that a length that wrapped around
    takes them out of their buffers, \<open>Kernel_Contract\<close> that a compiled kernel keeps the
    interface \<open>bitmap_filter\<close>.
  \<^item> \<open>Chunk_Passes\<close>: the two passes of \<^verbatim>\<open>execution/execution.cpp\<close>, verified against that
    interface; \<open>Execution_Context\<close>; \<open>Filter_Executor\<close>: the executor's visitor over a store of
    shared buffers, and \<open>generate_filter_bitmap\<close>; \<open>Materialize\<close>: \<open>project\<close>,
    \<open>materialize_column\<close> and \<open>materialize_filter\<close>.
  \<^item> \<open>Relational\<close>: what a table means as a relation, the invariant \<open>table_ok\<close>, and the proof that
    the operations above compute selection and projection and keep the invariant.
  \<^item> \<open>Logical_Plan\<close>: plan nodes in a mutable store, the plan visitor and its interface
    \<open>plan_walker\<close>; \<open>Plan_Optimizer\<close>: the passes, with the interface \<open>rewriting_pass\<close> and its
    two interpretations; \<open>Query_Compiler\<close>: queries, their execution and their relational
    meaning; \<open>Arrow_Values\<close>: what Arrow reads in a table, with its slices and nulls, and that
    every filter makes a table without them; \<open>Query_Outcomes\<close>: the result or the failure of every query, also of those with
    constants, unknown columns and ill-typed literals.
  \<^item> \<open>Samples\<close>: concrete tables; \<open>Kernel_Properties\<close>, \<open>Jit_Properties\<close>, \<open>Execution_Properties\<close>,
    \<open>Query_Properties\<close> and this theory: the properties C1 to C39 (C34 is in \<open>Expressions\<close>).

  \<^bold>\<open>Abstractions.\<close> The abstract specification is relational: \<open>table_rel\<close> maps a table to its schema
  and rows, \<open>eval_query\<close> evaluates a query on it, and C1 states that the program refines this
  for the chains of calls that fit the schema; C2 gives the outcome of all others. \<open>table_rel\<close>
  reads the data buffers from their beginning, as the code does: slice offsets and validity bitmaps
  have no influence on it, \<open>table_ok\<close> allows both, and C35 and C20 state what becomes of them.
  \<open>element_compare\<close> and \<open>number\<close> specify what a comparison means, C5 and C23 that the emitted code
  computes it. Shared pointers to plan nodes, to bitmaps and to the process's JIT are
  addresses in a store, because these are changed in place; expressions and tables are never
  changed and are plain data.

  \<^bold>\<open>Bounds and fuel.\<close> Offsets and lengths inside the kernel are 64-bit and 8-bit words that wrap
  around. The counters of \<open>materialize_column\<close> are \<open>int\<close>: their increment fails when it overflows,
  and tables are assumed to have fewer than 2 ^ 31 rows. The other loop counters are natural
  numbers; they do not exceed the number of columns, chunks or bitmap bytes. Interpreted code runs with
  \<open>kernel_fuel\<close>, at least 20 blocks for every byte of the bitmap; a filling loop of
  \<open>materialize_column\<close> takes at most one round per chunk and one more, the outer loop one round per
  row and one more; a plan visitor at most one call per node below the root. Theorems
  that claim a result claim that it is returned, so running out of fuel is excluded.

  \<^bold>\<open>What the proofs need.\<close> Chunk layouts are restricted by \<open>layout_ok\<close>: a chunk that starts inside
  a byte of the bitmap must hold the rest of the byte, also after its length is cut to 8 bits.
  C19 and C18 show what the code does beyond it. Columns are of the ten integer and floating-point
  types that the materialisation knows; C37 and C38 state the exceptions for the others. Their data
  buffers may be written: \<open>materialize_column\<close> reads them through \<^verbatim>\<open>mutable_data()\<close>, which is null
  for a buffer that may not (\<open>fill_step\<close> dereferences null there). Assertions stop the program unless
  \<open>ndebug\<close> holds of the build; no theorem but C30 depends on it. Modules are removed only under keys
  of live modules (\<open>removeModule\<close> of another key is an error of LLVM's; a kernel never does it).

  \<^bold>\<open>Not modelled.\<close> LLVM itself: what a pass does to a module, the verifier, the compiler and the
  lookup of symbols in the layers are fields of \<open>third_party\<close>. \<open>third_party_ok\<close> says of them that the
  verifier accepts modules that keep its documented rules, that transformations keep the verified
  modules' behaviour, that the machine code returns what the IR returns where that is defined, and
  that a symbol that one live module exports is found; what the machine code does where the IR has
  no defined value is left open (\<open>call_compiled\<close> fails there). Addresses outside of their buffers are
  checked where they are read or written, so the poison that an \<open>inbounds\<close> address computation may
  give before that is not modelled. Arrow's own methods are fields as
  well. The vendored headers, the tests and the benchmarks are not part of the program's logic.
\<close>

section \<open>Queries\<close>

text \<open>
  C1: Executing a query on a table returns the table of the relation that the query denotes,
  for every chain of \<open>project\<close> and \<open>filter\<close> calls whose columns and literals fit the table's
  schema and whose expressions have no constants, and every table that keeps \<open>table_ok\<close>: plan
  building, the join of filters, code generation, the two passes of the kernels, the bitmap and its
  materialisation together compute projection and selection. The relation of a table is that of
  its raw data buffers (C20 relates it to what Arrow reads in them).
\<close>

theorem query_execute_correct:
  assumes "third_party_ok E" and "table_ok t" and "idle E j" and "qs \<noteq> []"
    and "query_ok E (schema t) qs" and "build_query qs h = (m, h1)"
  shows "\<exists>t' h' j'. query_execute E m t h1 j = Inr (t', h', j') \<and>
    table_rel t' = eval_query E qs (table_rel t) \<and> table_ok t' \<and> idle E j'"
  using query_execute_ok [OF assms(1-3) _ assms(5)] build_query_plan [OF assms(6)]
    build_query_root [OF assms(4,6)] by metis

definition sample_query :: "query_op list" where
  "sample_query = [QProject [''b''], QFilter sample_expr]"

definition sample_store :: plan_store where
  "sample_store =
     [FilterNode None sample_expr, MaterializeFilterNode (Some 0), ProjectionNode (Some 1) [''b'']]"

lemma sample_query:
  "build_query sample_query [] = (Some 2, sample_store)"
  "sample_query \<noteq> []"
  by (simp_all add: sample_query_def sample_store_def empty_query_def query_filter_def
      query_project_def make_node_def)

lemma sample_query_ok:
  "query_ok sample_third_party (schema sample_table) sample_query"
  using sample_expr_ok sample_index by (simp add: sample_query_def projectable_def)

theorem query_execute_correct_witness:
  "\<exists>t' h' j'. query_execute sample_third_party (Some 2) sample_table sample_store sample_jit = Inr (t', h', j') \<and>
    table_rel t' = eval_query sample_third_party sample_query (table_rel sample_table)"
  using query_execute_correct [OF sample_third_party_ok sample_table_ok sample_jit_idle sample_query(2)
      sample_query_ok sample_query(1)] by blast

text \<open>
  C15: A query object can be executed again: the first execution leaves every plan node that was
  in the store as it was and the JIT without modules, and the second one returns the same relation.
\<close>

theorem query_execute_again:
  assumes "third_party_ok E" and "table_ok t" and "idle E j" and "qs \<noteq> []"
    and "query_ok E (schema t) qs" and "build_query qs h = (m, h1)"
    and "query_execute E m t h1 j = Inr (t', h', j')"
  shows "take (length h1) h' = h1 \<and> idle E j' \<and>
    (\<exists>t'' h'' j''. query_execute E m t h' j' = Inr (t'', h'', j'') \<and> table_rel t'' = table_rel t')"
proof -
  obtain a where m: "m = Some a" using build_query_root [OF assms(4,6)] by blast
  have plan: "represents h1 (Some a) (plan_of qs)" using build_query_plan [OF assms(6)] m by simp
  from query_execute_ok [OF assms(1-3) plan assms(5)] assms(7) m
  have run: "table_rel t' = eval_query E qs (table_rel t)" "idle E j'" "take (length h1) h' = h1"
    by auto
  from run(3) have "represents h' (Some a) (plan_of qs)"
    using represents_append [OF plan, of "drop (length h1) h'"] by (metis append_take_drop_id)
  from query_execute_ok [OF assms(1,2) run(2) this assms(5)] run m show ?thesis by metis
qed

theorem query_execute_again_witness:
  "\<exists>t' h' j' t'' h'' j''.
    query_execute sample_third_party (Some 2) sample_table sample_store sample_jit = Inr (t', h', j') \<and>
    query_execute sample_third_party (Some 2) sample_table h' j' = Inr (t'', h'', j'') \<and>
    table_rel t'' = table_rel t'"
proof -
  have "represents sample_store (Some 2) (plan_of sample_query)"
    using build_query_plan [OF sample_query(1)] .
  from query_execute_ok [OF sample_third_party_ok sample_table_ok sample_jit_idle this sample_query_ok]
  obtain t' h' j' where run:
    "query_execute sample_third_party (Some 2) sample_table sample_store sample_jit = Inr (t', h', j')"
    by blast
  from query_execute_again [OF sample_third_party_ok sample_table_ok sample_jit_idle sample_query(2)
      sample_query_ok sample_query(1) run] run
  show ?thesis by blast
qed

fun adjacent_filters :: "query_op list \<Rightarrow> bool" where
  "adjacent_filters (QFilter _ # QFilter e # qs) = True"
| "adjacent_filters (_ # qs) = adjacent_filters qs"
| "adjacent_filters [] = False"

lemma adjacent_filters_Cons:
  "adjacent_filters (q # qs) \<longleftrightarrow>
     (\<exists>e e' rest. q = QFilter e \<and> qs = QFilter e' # rest) \<or> adjacent_filters qs"
  by (cases q; cases qs rule: plan_of.cases) auto

lemma join_query_separates: "\<not> adjacent_filters (join_query qs)"
proof (induction qs rule: join_query.induct)
  case (3 e qs)
  show ?case
  proof (cases "join_query qs" rule: plan_of.cases)
    case (3 prev rest)
    with \<open>\<not> adjacent_filters (join_query qs)\<close> show ?thesis by (simp add: adjacent_filters_Cons)
  qed (use 3 in \<open>simp_all add: adjacent_filters_Cons\<close>)
qed (simp_all add: adjacent_filters_Cons)

text \<open>
  C4: The optimizer turns the plan of a query into the plan of the query with adjacent filters
  joined: no two filters follow each other, the relational meaning is the same for every
  relation, and the plan that went in is still in the store, node for node.
\<close>

theorem optimizer_refines:
  assumes "represents h (Some a) (plan_of qs)"
  shows "\<exists>m_passes h' r. run_passes (add_pass join_filter_pass_create []) (Some a) h = Inr (m_passes, h', r) \<and>
    represents h' r (plan_of (join_query qs)) \<and> \<not> adjacent_filters (join_query qs) \<and>
    (\<forall>E R. eval_query E (join_query qs) R = eval_query E qs R) \<and> take (length h) h' = h"
  using optimizer_joins [OF assms] join_query_separates join_query_eval
  unfolding join_query_plan by metis

theorem optimizer_refines_witness:
  "\<exists>m_passes h' r. run_passes (add_pass join_filter_pass_create []) (Some 2) sample_store = Inr (m_passes, h', r) \<and>
    represents h' r (plan_of (join_query sample_query))"
  using optimizer_refines [OF build_query_plan [OF sample_query(1)]] by blast

lemma foldr_Cons_Nil: "foldr (#) xs [] = xs"
  by (induction xs) auto

text \<open>
  C33: A pass that overrides nothing copies the plan: the result has the same operations, in
  new nodes.
\<close>

theorem base_pass_copies:
  assumes "represents h (Some a) ops"
  shows "\<exists>h' b. pass_execute \<lparr>pass_methods = optimizer_pass_visitor, m_result = None\<rparr> (Some a) h =
      Inr (\<lparr>pass_methods = optimizer_pass_visitor, m_result = Some b\<rparr>, h', Some b) \<and>
    represents h' (Some b) ops \<and> length h \<le> b \<and> take (length h) h' = h"
proof -
  obtain h' r where r: "visit_plan optimizer_pass_visitor (Some a) (h, None) = Inr (h', r)"
    "represents h' r ops" "fresh h h' r" "take (length h) h' = h"
    using copy_pass.pass_rewrites [OF assms] unfolding foldr_Cons_Nil by blast
  have "ops \<noteq> []" using assms by (auto elim: represents_SomeE)
  with r(2) obtain b where "r = Some b" by (cases r) auto
  with r show ?thesis by (auto simp: pass_execute_def fresh_def)
qed

theorem base_pass_copies_witness:
  "\<exists>h' b. pass_execute \<lparr>pass_methods = optimizer_pass_visitor, m_result = None\<rparr> (Some 2) sample_store =
      Inr (\<lparr>pass_methods = optimizer_pass_visitor, m_result = Some b\<rparr>, h', Some b) \<and>
    represents h' (Some b) (plan_of sample_query)"
  using base_pass_copies [OF build_query_plan [OF sample_query(1)]] by blast

text \<open>A query without operations has no plan, and its execution dereferences the null pointer.\<close>

lemma empty_query_crashes: "query_execute E empty_query t h j = Inl NullPointer"
  by (simp add: query_execute_def empty_query_def add_pass_def pass_execute_def visit_plan_def)

text \<open>
  C36: A filter on a table whose first column has no chunks gets no bitmap, and the
  materialisation that follows throws \<open>UnreachableException\<close>.
\<close>

theorem chunkless_filter_throws:
  assumes "table_supported t" and "columns t = [] \<or> chunks (columns t ! 0) = []"
    and "build_query [QFilter e] h = (m, h1)"
  shows "query_execute E m t h1 j = Inl (Thrown UnreachableException)"
proof -
  obtain a where m: "m = Some a" using build_query_root [OF _ assms(3)] by blast
  have plan: "represents h1 (Some a) (plan_of [QFilter e])" using build_query_plan [OF assms(3)] m by simp
  obtain ctx where ctx: "new_context t = Inr ctx" "ctx_table ctx = t"
    "filter_bitmap (ctx_metadata ctx) = None" by (rule new_context_ok [OF assms(1)])
  have "generate_filter_bitmap E ctx e j = Inr (ctx, j)"
    using assms(2) ctx by (auto simp: generate_filter_bitmap_def)
  then have "foldE (execute_op E) [OpFilter e, OpMaterialize] (ctx, j) = Inl (Thrown UnreachableException)"
    using ctx(3) by (simp add: execute_op_def materialize_filter_def)
  then show ?thesis
    by (rule_tac query_execute_ops [OF plan, of E t j]) (simp add: m ctx(1) del: foldE.simps)
qed

theorem chunkless_filter_throws_witness:
  "query_execute sample_third_party (Some 1) chunkless_table
     [FilterNode None sample_expr, MaterializeFilterNode (Some 0)] sample_jit = Inl (Thrown UnreachableException)"
proof -
  have "build_query [QFilter sample_expr] [] =
      (Some 1, [FilterNode None sample_expr, MaterializeFilterNode (Some 0)])"
    by (simp add: empty_query_def query_filter_def make_node_def)
  moreover have "table_supported chunkless_table"
    by (simp add: table_supported_def column_supported_def chunkless_table_def)
  ultimately show ?thesis
    by (intro chunkless_filter_throws) (simp_all add: chunkless_table_def)
qed

text \<open>
  C37: A table with a column of a type the context has no metadata for cannot be queried at
  all, not even by a query that projects the column away: the exception names the type of the
  first such column.
\<close>

theorem unsupported_column_throws:
  assumes "columns t = cs1 @ c # cs2" and "\<forall>c' \<in> set cs1. column_supported c'" and "\<not> column_supported c"
    and "qs \<noteq> []" and "build_query qs h = (m, h1)"
  shows "query_execute E m t h1 j =
    throw_not_implemented (to_string (chunked_type c) @ '' type does not supported yet'')"
proof -
  obtain a where m: "m = Some a" using build_query_root [OF assms(4,5)] by blast
  have plan: "represents h1 (Some a) (plan_of qs)" using build_query_plan [OF assms(5)] m by simp
  have "mapE create_column_metadata (cs1 @ c # cs2) =
      throw_not_implemented (to_string (chunked_type c) @ '' type does not supported yet'')"
    using assms(2)
  proof (induction cs1)
    case (Cons c' cs1)
    then show ?case using create_column_metadata_ok [of c'] by auto
  qed (simp add: create_column_metadata_error [OF assms(3)])
  then have "new_context t =
      throw_not_implemented (to_string (chunked_type c) @ '' type does not supported yet'')"
    by (simp add: new_context_def assms(1))
  then show ?thesis by (rule_tac query_execute_ops [OF plan, of E t j]) (simp add: m)
qed

theorem unsupported_column_throws_witness:
  "query_execute sample_third_party (Some 0) timestamp_table [ProjectionNode None [''a'']] sample_jit =
    throw_not_implemented ''timestamp[s] type does not supported yet''"
proof -
  have "build_query [QProject [''a'']] [] = (Some 0, [ProjectionNode None [''a'']])"
    by (simp add: empty_query_def query_project_def make_node_def)
  moreover have "columns timestamp_table =
      [\<lparr>chunked_type = int32_type, chunks = [int32_array [1]]\<rparr>] @ timestamp_column # []"
    by (simp add: timestamp_table_def)
  ultimately show ?thesis
    using unsupported_column_throws [of timestamp_table "[\<lparr>chunked_type = int32_type, chunks = [int32_array [1]]\<rparr>]"
        timestamp_column "[]" "[QProject [''a'']]" "[]" "Some 0" _ sample_third_party sample_jit]
    by (simp add: column_supported_def supported_type_def timestamp_column_def timestamp_type_def int32_type_def)
qed

end
